(* ===== verification/Prelude.thy ===== *)
theory Prelude
  imports Main
begin

text \<open>
  Shared vocabulary of the development: the characters the code compares against, the
  JavaScript string built-ins the relay and the chat client call
  (\<open>String.prototype.split\<close> with a one-character separator, \<open>startsWith\<close>,
  \<open>slice\<close>, \<open>trim\<close>), modelled from the ECMAScript definitions, and the generic
  list lemmas the component theories share.  Text is \<open>string\<close>: a JavaScript string
  is a sequence of UTF-16 code units and the model covers the code units below 256
  (every \<open>char\<close> stands for the code unit with the same number).
\<close>

abbreviation nl :: char where "nl \<equiv> CHR 0x0A"
abbreviation dq :: char where "dq \<equiv> CHR 0x22"
abbreviation bsl :: char where "bsl \<equiv> CHR 0x5C"

named_theorems js_defs "definitions of the modelled JavaScript built-ins"

subsection \<open>\<open>String.prototype.split\<close> with a one-character separator\<close>

text \<open>
  \<open>s.split(c)\<close> returns the pieces between the occurrences of \<open>c\<close>: one more piece
  than there are separators, so the empty string gives one empty piece.
\<close>

fun split_on :: "char \<Rightarrow> string \<Rightarrow> string list" where
  "split_on c [] = [[]]"
| "split_on c (x # xs) =
     (if x = c then [] # split_on c xs
      else (case split_on c xs of p # ps \<Rightarrow> (x # p) # ps | [] \<Rightarrow> [[x]]))"

text \<open>The inverse, \<open>Array.prototype.join\<close> with a one-character separator.\<close>

fun join_with :: "char \<Rightarrow> string list \<Rightarrow> string" where
  "join_with c [] = []"
| "join_with c [p] = p"
| "join_with c (p # q # ps) = p @ c # join_with c (q # ps)"

definition starts_with :: "string \<Rightarrow> string \<Rightarrow> bool" where
  [js_defs]: "starts_with pre s \<longleftrightarrow> take (length pre) s = pre"

text \<open>\<open>String.prototype.trim\<close>: the white space and line terminators of ECMAScript
  that lie below code unit 256 (tab, LF, VT, FF, CR, space, no-break space).\<close>

definition js_space :: "char \<Rightarrow> bool" where
  [js_defs]: "js_space c \<longleftrightarrow> c \<in> {CHR 0x09, CHR 0x0A, CHR 0x0B, CHR 0x0C, CHR 0x0D, CHR 0x20, CHR 0xA0}"

definition js_trim :: "string \<Rightarrow> string" where
  [js_defs]: "js_trim s = rev (dropWhile js_space (rev (dropWhile js_space s)))"

text \<open>\<open>Number.prototype.toString\<close> on a natural number: its decimal digits.\<close>

fun nat_str :: "nat \<Rightarrow> string" where
  "nat_str n = (if n < 10 then [char_of (48 + n)] else nat_str (n div 10) @ [char_of (48 + n mod 10)])"

subsection \<open>Lemmas on \<open>split_on\<close>\<close>

lemma split_on_not_Nil [simp]: "split_on c s \<noteq> []"
  by (induction s) (auto split: list.split)

lemma split_on_Cons_other:
  "x \<noteq> c \<Longrightarrow> split_on c (x # xs) = (x # hd (split_on c xs)) # tl (split_on c xs)"
  using split_on_not_Nil [of c xs] by (auto split: list.split)

lemma split_on_no_sep [simp]: "c \<notin> set s \<Longrightarrow> split_on c s = [s]"
  by (induction s) auto

lemma split_on_append:
  "split_on c (xs @ ys) =
     butlast (split_on c xs) @ (last (split_on c xs) @ hd (split_on c ys)) # tl (split_on c ys)"
proof (induction xs)
  case Nil
  show ?case using split_on_not_Nil [of c ys] by (cases "split_on c ys") auto
next
  case (Cons x xs)
  show ?case
  proof (cases "x = c")
    case True
    with Cons.IH show ?thesis by simp
  next
    case False
    with Cons.IH show ?thesis
      using split_on_not_Nil [of c xs]
      by (cases "split_on c xs") (auto simp: split_on_Cons_other)
  qed
qed

lemma split_on_pieces: "p \<in> set (split_on c s) \<Longrightarrow> c \<notin> set p"
proof (induction s arbitrary: p)
  case Nil
  then show ?case by simp
next
  case (Cons x xs)
  then show ?case
    using split_on_not_Nil [of c xs]
    by (cases "split_on c xs") (auto split: if_splits)
qed

lemma last_split_on: "c \<notin> set (last (split_on c s))"
  using split_on_pieces last_in_set split_on_not_Nil by blast

lemma split_on_append_last:
  "split_on c (xs @ ys) = butlast (split_on c xs) @ split_on c (last (split_on c xs) @ ys)"
proof -
  have "split_on c (last (split_on c xs) @ ys) = (last (split_on c xs) @ hd (split_on c ys)) # tl (split_on c ys)"
    using split_on_append [of c "last (split_on c xs)" ys] last_split_on [of c xs] by simp
  then show ?thesis by (simp add: split_on_append)
qed

lemma split_on_terminated:
  "\<forall>l \<in> set ls. c \<notin> set l \<Longrightarrow> split_on c (concat (map (\<lambda>l. l @ [c]) ls)) = ls @ [[]]"
proof (induction ls)
  case (Cons l ls)
  then show ?case by (simp add: split_on_append)
qed simp

lemma set_join_with: "set (join_with c ps) \<subseteq> insert c (\<Union>p \<in> set ps. set p)"
  by (induction c ps rule: join_with.induct) auto

lemma split_on_snoc_sep: "split_on c (s @ [c]) = split_on c s @ [[]]"
  by (simp add: split_on_append)

lemma join_split_on: "join_with c (split_on c s) = s"
proof (induction s)
  case Nil
  then show ?case by simp
next
  case (Cons x xs)
  then show ?case
    using split_on_not_Nil [of c xs]
    by (cases "split_on c xs" rule: remdups_adj.cases) (auto split: if_splits)
qed

lemma join_with_Cons: "ps \<noteq> [] \<Longrightarrow> join_with c (p # ps) = p @ c # join_with c ps"
  by (cases ps) auto

lemma length_join_with: "length (join_with c ps) = sum_list (map length ps) + (length ps - 1)"
  by (induction c ps rule: join_with.induct) auto

lemma split_on_join:
  "ps \<noteq> [] \<Longrightarrow> \<forall>p \<in> set ps. c \<notin> set p \<Longrightarrow> split_on c (join_with c ps) = ps"
proof (induction c ps rule: join_with.induct)
  case (3 c p q ps)
  then show ?case by (simp add: split_on_append)
qed simp_all

subsection \<open>Lemmas on the other built-ins\<close>

lemma starts_with_append [simp]: "starts_with pre (pre @ s)"
  by (simp add: starts_with_def)

lemma starts_with_drop: "starts_with pre s \<Longrightarrow> pre @ drop (length pre) s = s"
  by (metis append_take_drop_id starts_with_def)

lemma js_trim_id:
  "s \<noteq> [] \<Longrightarrow> \<not> js_space (hd s) \<Longrightarrow> \<not> js_space (last s) \<Longrightarrow> js_trim s = s"
proof -
  assume ne: "s \<noteq> []" and h: "\<not> js_space (hd s)" and l: "\<not> js_space (last s)"
  from ne h have "dropWhile js_space s = s" by (cases s) auto
  moreover from ne l have "dropWhile js_space (rev s) = rev s" by (cases s rule: rev_cases) auto
  ultimately show ?thesis by (simp add: js_trim_def)
qed

end
