(* ===== verification/Json.thy ===== *)
theory Json
  imports Prelude
begin

text \<open>
  The JSON values the relay and the chat client exchange, and the three JavaScript
  operations the code applies to them: \<open>JSON.parse\<close> (\<open>json_parse\<close>), \<open>JSON.stringify\<close>
  (\<open>stringify\<close>) and property access with truthiness tests (\<open>js_get\<close>,
  \<open>js_truthy\<close>, \<open>js_to_string\<close>).  They are built-ins, not code of the repository:
  they are modelled from ECMA-404 and ECMA-262 so that the code's own definitions can call
  them.  Objects are association lists in source order; a repeated key is kept, and a
  property read takes its last occurrence, as \<open>JSON.parse\<close> does.  A number keeps its
  lexeme (the model does no floating-point arithmetic).  The parser has a fuel argument:
  every call spends one unit and \<open>json_parse\<close> supplies \<open>2 * length s + 1\<close>, which
  \<open>size_stringify\<close> shows to be enough for every printed value, so that
  \<open>json_parse (stringify v) = Some v\<close> holds for every well-formed \<open>v\<close>
  (\<open>json_parse_stringify\<close>).
\<close>

datatype json =
    JNull
  | JBool bool
  | JNum string
  | JStr string
  | JArr "json list"
  | JObj "(string \<times> json) list"

subsection \<open>Property access, truthiness, string conversion\<close>

text \<open>\<open>v.k\<close> for a value that is not \<open>null\<close>: only an object has the code's
  property names; \<open>None\<close> is \<open>undefined\<close>.\<close>

definition js_get :: "json \<Rightarrow> string \<Rightarrow> json option" where
  "js_get v k = (case v of JObj kvs \<Rightarrow> map_of (rev kvs) k | _ \<Rightarrow> None)"

definition num_is_zero :: "string \<Rightarrow> bool" where
  "num_is_zero s \<longleftrightarrow>
     list_all (\<lambda>c. c \<in> set ''-0.'') (takeWhile (\<lambda>c. c \<noteq> CHR ''e'' \<and> c \<noteq> CHR ''E'') s)"

fun js_truthy :: "json \<Rightarrow> bool" where
  "js_truthy JNull = False"
| "js_truthy (JBool b) = b"
| "js_truthy (JNum s) = (\<not> num_is_zero s)"
| "js_truthy (JStr s) = (s \<noteq> [])"
| "js_truthy (JArr vs) = True"
| "js_truthy (JObj kvs) = True"

text \<open>\<open>String(v)\<close>, used where the client appends a value to a string.  A number is
  printed as its lexeme.\<close>

fun js_to_string :: "json \<Rightarrow> string" where
  "js_to_string JNull = ''null''"
| "js_to_string (JBool b) = (if b then ''true'' else ''false'')"
| "js_to_string (JNum s) = s"
| "js_to_string (JStr s) = s"
| "js_to_string (JArr vs) =
     join_with CHR '','' (map (\<lambda>v. if v = JNull then [] else js_to_string v) vs)"
| "js_to_string (JObj kvs) = ''[object Object]''"

subsection \<open>\<open>JSON.stringify\<close>\<close>

definition hex_digit :: "nat \<Rightarrow> char" where
  "hex_digit n = ''0123456789abcdef'' ! n"

text \<open>QuoteJSONString of ECMA-262: the short escapes, \<open>\u00xx\<close> with lower-case
  digits for the other control characters, every other code unit as it is.\<close>

definition escape_char :: "char \<Rightarrow> string" where
  "escape_char c =
     (if c = CHR 0x08 then [bsl, CHR ''b'']
      else if c = CHR 0x09 then [bsl, CHR ''t'']
      else if c = CHR 0x0A then [bsl, CHR ''n'']
      else if c = CHR 0x0C then [bsl, CHR ''f'']
      else if c = CHR 0x0D then [bsl, CHR ''r'']
      else if c = dq then [bsl, dq]
      else if c = bsl then [bsl, bsl]
      else if of_char c < (32::nat)
        then bsl # ''u00'' @ [hex_digit (of_char c div 16), hex_digit (of_char c mod 16)]
      else [c])"

definition quote :: "string \<Rightarrow> string" where
  "quote s = dq # concat (map escape_char s) @ [dq]"

fun stringify :: "json \<Rightarrow> string" where
  "stringify JNull = ''null''"
| "stringify (JBool b) = (if b then ''true'' else ''false'')"
| "stringify (JNum s) = s"
| "stringify (JStr s) = quote s"
| "stringify (JArr vs) = CHR ''['' # join_with CHR '','' (map stringify vs) @ '']''"
| "stringify (JObj kvs) =
     CHR ''{'' # join_with CHR '','' (map (\<lambda>(k, v). quote k @ CHR '':'' # stringify v) kvs) @ ''}''"

subsection \<open>\<open>JSON.parse\<close>\<close>

definition json_ws :: "char \<Rightarrow> bool" where
  "json_ws c \<longleftrightarrow> c \<in> {CHR 0x20, CHR 0x09, CHR 0x0A, CHR 0x0D}"

abbreviation skip_ws :: "string \<Rightarrow> string" where
  "skip_ws \<equiv> dropWhile json_ws"

definition is_digit :: "char \<Rightarrow> bool" where
  "is_digit c \<longleftrightarrow> c \<in> set ''0123456789''"

definition hex_val :: "char \<Rightarrow> nat option" where
  "hex_val c =
     (if c \<in> set ''0123456789'' then Some (of_char c - 48)
      else if c \<in> set ''abcdef'' then Some (of_char c - 87)
      else if c \<in> set ''ABCDEF'' then Some (of_char c - 55)
      else None)"

text \<open>A \<open>\u\<close> escape denotes a UTF-16 code unit; one above 255 lies outside the
  model's alphabet and is rejected (the only place where the model and \<open>JSON.parse\<close>
  differ).\<close>

definition hex4 :: "char \<Rightarrow> char \<Rightarrow> char \<Rightarrow> char \<Rightarrow> char option" where
  "hex4 a b c d =
     (case (hex_val a, hex_val b, hex_val c, hex_val d) of
        (Some w, Some x, Some y, Some z) \<Rightarrow>
          (let u = ((w * 16 + x) * 16 + y) * 16 + z in if u < 256 then Some (char_of u) else None)
      | _ \<Rightarrow> None)"

definition simple_escape :: "char \<Rightarrow> char option" where
  "simple_escape e =
     (if e = dq then Some dq else if e = bsl then Some bsl
      else if e = CHR ''/'' then Some (CHR ''/'')
      else if e = CHR ''b'' then Some (CHR 0x08) else if e = CHR ''f'' then Some (CHR 0x0C)
      else if e = CHR ''n'' then Some (CHR 0x0A) else if e = CHR ''r'' then Some (CHR 0x0D)
      else if e = CHR ''t'' then Some (CHR 0x09) else None)"

abbreviation cons_fst :: "'a \<Rightarrow> ('a list \<times> 'b) option \<Rightarrow> ('a list \<times> 'b) option" where
  "cons_fst x \<equiv> map_option (\<lambda>(xs, r). (x # xs, r))"

text \<open>The body of a string literal, after its opening quote.\<close>

fun parse_string :: "string \<Rightarrow> (string \<times> string) option" where
  "parse_string [] = None"
| "parse_string (c # r) =
     (if c = dq then Some ([], r)
      else if c = bsl then
        (case r of
           [] \<Rightarrow> None
         | e # r1 \<Rightarrow>
             if e = CHR ''u'' then
               (case r1 of
                  h1 # h2 # h3 # h4 # r2 \<Rightarrow>
                    (case hex4 h1 h2 h3 h4 of None \<Rightarrow> None | Some d \<Rightarrow> cons_fst d (parse_string r2))
                | _ \<Rightarrow> None)
             else (case simple_escape e of None \<Rightarrow> None | Some d \<Rightarrow> cons_fst d (parse_string r1)))
      else if of_char c < (32::nat) then None
      else cons_fst c (parse_string r))"

text \<open>Numbers: \<open>-? (0 | [1-9][0-9]* ) (. [0-9]+)? ([eE] [+-]? [0-9]+)?\<close>, kept as
  their lexeme.\<close>

definition scan_digits1 :: "string \<Rightarrow> (string \<times> string) option" where
  "scan_digits1 s =
     (if takeWhile is_digit s = [] then None
      else Some (takeWhile is_digit s, dropWhile is_digit s))"

definition scan_int :: "string \<Rightarrow> (string \<times> string) option" where
  "scan_int s =
     (case s of
        c # r \<Rightarrow> if c = CHR ''0'' then Some (''0'', r) else scan_digits1 s
      | [] \<Rightarrow> None)"

definition scan_frac :: "string \<Rightarrow> (string \<times> string) option" where
  "scan_frac s =
     (case s of
        c # r \<Rightarrow> if c = CHR ''.'' then cons_fst c (scan_digits1 r) else Some ([], s)
      | [] \<Rightarrow> Some ([], []))"

definition scan_exp :: "string \<Rightarrow> (string \<times> string) option" where
  "scan_exp s =
     (case s of
        c # r \<Rightarrow>
          if c = CHR ''e'' \<or> c = CHR ''E'' then
            (case r of
               d # r' \<Rightarrow>
                 if d = CHR ''+'' \<or> d = CHR ''-'' then cons_fst c (cons_fst d (scan_digits1 r'))
                 else cons_fst c (scan_digits1 r)
             | [] \<Rightarrow> None)
          else Some ([], s)
      | [] \<Rightarrow> Some ([], []))"

definition parse_number :: "string \<Rightarrow> (json \<times> string) option" where
  "parse_number s =
     (let (sg, s1) = (case s of c # r \<Rightarrow> if c = CHR ''-'' then (''-'', r) else ([], s) | [] \<Rightarrow> ([], []))
      in case scan_int s1 of
           None \<Rightarrow> None
         | Some (ip, s2) \<Rightarrow>
             (case scan_frac s2 of
                None \<Rightarrow> None
              | Some (fp, s3) \<Rightarrow>
                  (case scan_exp s3 of
                     None \<Rightarrow> None
                   | Some (ep, s4) \<Rightarrow> Some (JNum (sg @ ip @ fp @ ep), s4))))"

text \<open>Values, array elements after the opening bracket, object members after the opening
  brace.  Every call spends one unit of fuel.\<close>

fun parse_value :: "nat \<Rightarrow> string \<Rightarrow> (json \<times> string) option"
and parse_elems :: "nat \<Rightarrow> string \<Rightarrow> (json list \<times> string) option"
and parse_members :: "nat \<Rightarrow> string \<Rightarrow> ((string \<times> json) list \<times> string) option" where
  "parse_value 0 s = None"
| "parse_value (Suc n) [] = None"
| "parse_value (Suc n) (c # r) =
     (if c = CHR ''{'' then
        (case skip_ws r of
           d # r' \<Rightarrow> if d = CHR ''}'' then Some (JObj [], r')
                    else map_option (\<lambda>(kvs, r''). (JObj kvs, r'')) (parse_members n (d # r'))
         | [] \<Rightarrow> None)
      else if c = CHR ''['' then
        (case skip_ws r of
           d # r' \<Rightarrow> if d = CHR '']'' then Some (JArr [], r')
                    else map_option (\<lambda>(vs, r''). (JArr vs, r'')) (parse_elems n (d # r'))
         | [] \<Rightarrow> None)
      else if c = dq then map_option (\<lambda>(t, r'). (JStr t, r')) (parse_string r)
      else if starts_with ''true'' (c # r) then Some (JBool True, drop 3 r)
      else if starts_with ''false'' (c # r) then Some (JBool False, drop 4 r)
      else if starts_with ''null'' (c # r) then Some (JNull, drop 3 r)
      else parse_number (c # r))"
| "parse_elems 0 s = None"
| "parse_elems (Suc n) s =
     (case parse_value n s of
        None \<Rightarrow> None
      | Some (v, r) \<Rightarrow>
          (case skip_ws r of
             d # r' \<Rightarrow>
               if d = CHR '','' then cons_fst v (parse_elems n (skip_ws r'))
               else if d = CHR '']'' then Some ([v], r') else None
           | [] \<Rightarrow> None))"
| "parse_members 0 s = None"
| "parse_members (Suc n) s =
     (case s of
        d # r \<Rightarrow>
          if d \<noteq> dq then None
          else
            (case parse_string r of
               None \<Rightarrow> None
             | Some (k, r1) \<Rightarrow>
                 (case skip_ws r1 of
                    e # r2 \<Rightarrow>
                      if e \<noteq> CHR '':'' then None
                      else
                        (case parse_value n (skip_ws r2) of
                           None \<Rightarrow> None
                         | Some (v, r3) \<Rightarrow>
                             (case skip_ws r3 of
                                f # r4 \<Rightarrow>
                                  if f = CHR '','' then cons_fst (k, v) (parse_members n (skip_ws r4))
                                  else if f = CHR ''}'' then Some ([(k, v)], r4) else None
                              | [] \<Rightarrow> None))
                  | [] \<Rightarrow> None))
      | [] \<Rightarrow> None)"

text \<open>\<open>JSON.parse(s)\<close>: one value between optional white space; \<open>None\<close> is the
  \<open>SyntaxError\<close> it throws.\<close>

definition json_parse :: "string \<Rightarrow> json option" where
  "json_parse s =
     (case parse_value (Suc (2 * length s)) (skip_ws s) of
        None \<Rightarrow> None
      | Some (v, r) \<Rightarrow> if skip_ws r = [] then Some v else None)"

subsection \<open>Well-formed values\<close>

text \<open>A value is well formed when each number lexeme is one that \<open>JSON.parse\<close>
  accepts; every value the parser returns from a number literal is such a lexeme.\<close>

fun wf_json :: "json \<Rightarrow> bool" where
  "wf_json (JNum s) = (parse_number s = Some (JNum s, []))"
| "wf_json (JArr vs) = list_all wf_json vs"
| "wf_json (JObj kvs) = list_all (\<lambda>(k, v). wf_json v) kvs"
| "wf_json _ = True"

text \<open>What may follow a number lexeme without extending it.\<close>

definition num_delim :: "string \<Rightarrow> bool" where
  "num_delim r \<longleftrightarrow> (case r of [] \<Rightarrow> True | c # _ \<Rightarrow> \<not> is_digit c \<and> c \<notin> set ''.eE+-'')"

text \<open>The characters a number lexeme is made of.\<close>

definition num_char :: "char \<Rightarrow> bool" where
  "num_char c \<longleftrightarrow> c \<in> set ''-+.eE0123456789''"

text \<open>What may follow a lexeme without extending it: the text does not start with a
  character of the given kind.\<close>

definition first_not :: "(char \<Rightarrow> bool) \<Rightarrow> string \<Rightarrow> bool" where
  "first_not P t \<longleftrightarrow> (case t of [] \<Rightarrow> True | c # _ \<Rightarrow> \<not> P c)"

abbreviation app_rest :: "string \<Rightarrow> ('a \<times> string) option \<Rightarrow> ('a \<times> string) option" where
  "app_rest r \<equiv> map_option (\<lambda>(x, t). (x, t @ r))"

abbreviation member_str :: "string \<times> json \<Rightarrow> string" where
  "member_str \<equiv> \<lambda>(k, v). quote k @ CHR '':'' # stringify v"

abbreviation parses :: "json \<Rightarrow> bool" where
  "parses v \<equiv> \<forall>n r. size v < n \<longrightarrow> num_delim r \<longrightarrow> parse_value n (stringify v @ r) = Some (v, r)"

subsection \<open>Round trip of \<open>JSON.stringify\<close> and \<open>JSON.parse\<close>\<close>
lemma hex_val_hex_digit: "k < 16 \<Longrightarrow> hex_val (hex_digit k) = Some k"
proof -
  have "\<forall>k \<in> set [0..<16]. hex_val (hex_digit k) = Some k"
    by (simp add: hex_val_def hex_digit_def upt_rec)
  then show "k < 16 \<Longrightarrow> ?thesis" by simp
qed

lemma hex4_control:
  assumes "of_char c < (32::nat)"
  shows "hex4 (CHR ''0'') (CHR ''0'') (hex_digit (of_char c div 16)) (hex_digit (of_char c mod 16)) = Some c"
proof -
  have "of_char c div 16 < (16::nat)" using assms by simp
  moreover have "of_char c mod 16 < (16::nat)" by simp
  moreover have "hex_val (CHR ''0'') = Some 0" by (simp add: hex_val_def)
  moreover have "(of_char c div 16) * 16 + of_char c mod 16 = (of_char c :: nat)" by simp
  ultimately show ?thesis
    using assms by (simp add: hex4_def hex_val_hex_digit)
qed

lemma parse_string_escape_char:
  "parse_string (escape_char c @ r) = cons_fst c (parse_string r)"
  by (auto simp: escape_char_def simple_escape_def hex4_control)

lemma parse_string_quoted:
  "parse_string (concat (map escape_char t) @ dq # r) = Some (t, r)"
  by (induction t) (simp_all add: parse_string_escape_char)

lemma num_delim_digits:
  assumes "num_delim r"
  shows "takeWhile is_digit (s @ r) = takeWhile is_digit s"
    and "dropWhile is_digit (s @ r) = dropWhile is_digit s @ r"
proof -
  have h: "takeWhile is_digit r = []" "dropWhile is_digit r = r"
    using assms by (auto simp: num_delim_def split: list.splits)
  show "takeWhile is_digit (s @ r) = takeWhile is_digit s"
    using h by (induction s) auto
  show "dropWhile is_digit (s @ r) = dropWhile is_digit s @ r"
    using h by (induction s) auto
qed

lemma scan_digits1_append: "num_delim r \<Longrightarrow> scan_digits1 (s @ r) = app_rest r (scan_digits1 s)"
  by (simp add: scan_digits1_def num_delim_digits)

lemma num_delim_Cons: "num_delim (c # r) \<Longrightarrow> \<not> is_digit c \<and> c \<notin> set ''.eE+-''"
  by (simp add: num_delim_def)

lemma scan_int_append: "num_delim r \<Longrightarrow> scan_int (s @ r) = app_rest r (scan_int s)"
proof (cases s)
  case Nil
  assume "num_delim r"
  then show ?thesis using Nil
    by (cases r) (auto simp: scan_int_def scan_digits1_def num_delim_def is_digit_def)
next
  case (Cons c s')
  assume "num_delim r"
  then show ?thesis using Cons scan_digits1_append [of r s]
    by (simp add: scan_int_def)
qed

lemma scan_frac_append: "num_delim r \<Longrightarrow> scan_frac (s @ r) = app_rest r (scan_frac s)"
proof (cases s)
  case Nil
  assume "num_delim r"
  then show ?thesis using Nil
    by (cases r) (auto simp: scan_frac_def num_delim_def)
next
  case (Cons c s')
  assume "num_delim r"
  then show ?thesis using Cons scan_digits1_append [of r s']
    by (auto simp: scan_frac_def option.map_comp case_prod_unfold comp_def)
qed

lemma scan_exp_append: "num_delim r \<Longrightarrow> scan_exp (s @ r) = app_rest r (scan_exp s)"
proof (cases s)
  case Nil
  assume "num_delim r"
  then show ?thesis using Nil
    by (cases r) (auto simp: scan_exp_def num_delim_def)
next
  case (Cons c s')
  assume d: "num_delim r"
  show ?thesis
  proof (cases "c = CHR ''e'' \<or> c = CHR ''E''")
    case False
    then show ?thesis using Cons by (simp add: scan_exp_def)
  next
    case True
    show ?thesis
    proof (cases s')
      case Nil
      then show ?thesis using Cons True d
        by (cases r) (auto simp: scan_exp_def num_delim_def scan_digits1_def is_digit_def)
    next
      case (Cons d' s'')
      then show ?thesis using \<open>s = c # s'\<close> True d scan_digits1_append [of r s''] scan_digits1_append [of r s']
        by (auto simp: scan_exp_def option.map_comp case_prod_unfold comp_def)
    qed
  qed
qed

lemma parse_number_append:
  assumes "num_delim r"
  shows "parse_number (s @ r) = app_rest r (parse_number s)"
proof -
  have sign: "(case s @ r of c # t \<Rightarrow> if c = CHR ''-'' then (''-'', t) else ([], s @ r) | [] \<Rightarrow> ([], []))
      = (let (sg, s1) = (case s of c # t \<Rightarrow> if c = CHR ''-'' then (''-'', t) else ([], s) | [] \<Rightarrow> ([], []))
         in (sg, s1 @ r))"
    using assms by (cases s; cases r) (auto simp: num_delim_def)
  show ?thesis
    using assms
    by (simp add: parse_number_def sign split_def Let_def scan_int_append scan_frac_append scan_exp_append
        option.map_comp case_prod_unfold comp_def split: option.split)
qed

lemma parse_number_head:
  "parse_number s = Some p \<Longrightarrow> \<exists>c t. s = c # t \<and> (c = CHR ''-'' \<or> is_digit c)"
  by (cases s) (auto simp: parse_number_def scan_int_def scan_digits1_def is_digit_def split: if_splits list.splits)

lemma stringify_head:
  assumes "wf_json v"
  shows "\<exists>c t. stringify v = c # t \<and> \<not> json_ws c \<and> c \<noteq> CHR '']'' \<and> c \<noteq> CHR ''}''"
proof (cases v)
  case (JNum s)
  with assms have "parse_number s = Some (JNum s, [])" by simp
  from parse_number_head [OF this] obtain c t where "s = c # t" "c = CHR ''-'' \<or> is_digit c"
    by blast
  with JNum show ?thesis by (auto simp: json_ws_def is_digit_def)
next
  case (JArr vs)
  show ?thesis unfolding JArr by (simp only: stringify.simps) (simp add: json_ws_def)
next
  case (JObj kvs)
  show ?thesis unfolding JObj by (simp only: stringify.simps) (simp add: json_ws_def)
qed (simp_all add: json_ws_def quote_def)

lemma skip_ws_stringify: "wf_json v \<Longrightarrow> skip_ws (stringify v @ r) = stringify v @ r"
  using stringify_head [of v] by (auto simp: json_ws_def)

lemma num_delim_simps [simp]:
  "num_delim []" "num_delim (CHR '','' # r)" "num_delim (CHR '']'' # r)" "num_delim (CHR ''}'' # r)"
  by (simp_all add: num_delim_def is_digit_def)

lemma skip_ws_punct [simp]:
  "skip_ws (CHR '','' # r) = CHR '','' # r" "skip_ws (CHR '']'' # r) = CHR '']'' # r"
  "skip_ws (CHR ''}'' # r) = CHR ''}'' # r" "skip_ws (CHR '':'' # r) = CHR '':'' # r"
  by (simp_all add: json_ws_def)

lemma parse_value_number:
  assumes "wf_json (JNum s)" "num_delim r"
  shows "parse_value (Suc n) (s @ r) = Some (JNum s, r)"
proof -
  from assms(1) have "parse_number s = Some (JNum s, [])" by simp
  from parse_number_head [OF this] obtain c t where s: "s = c # t" and c: "c = CHR ''-'' \<or> is_digit c"
    by blast
  have "parse_number (s @ r) = Some (JNum s, r)"
    using assms by (simp add: parse_number_append)
  with s c show ?thesis by (auto simp: starts_with_def is_digit_def)
qed

lemma parse_elems_join:
  assumes "\<forall>v \<in> set vs. wf_json v \<and> parses v" "vs \<noteq> []" "size_list size vs < m"
  shows "parse_elems m (join_with CHR '','' (map stringify vs) @ CHR '']'' # r) = Some (vs, r)"
  using assms
proof (induction vs arbitrary: m)
  case (Cons v ws)
  then obtain m' where m: "m = Suc m'" "size v < m'" "size_list size ws < m'" by (cases m) auto
  show ?case
  proof (cases "ws = []")
    case True
    with Cons m show ?thesis by (simp add: json_ws_def)
  next
    case False
    with Cons m have IH: "parse_elems m' (join_with CHR '','' (map stringify ws) @ CHR '']'' # r) = Some (ws, r)"
      by simp
    from False obtain w ws' where ws: "ws = w # ws'" by (cases ws) auto
    have "skip_ws (join_with CHR '','' (map stringify ws) @ CHR '']'' # r)
        = join_with CHR '','' (map stringify ws) @ CHR '']'' # r"
      using Cons.prems ws by (cases ws') (simp_all add: skip_ws_stringify join_with_Cons)
    with IH Cons.prems m False show ?thesis by (simp add: join_with_Cons json_ws_def)
  qed
qed simp

lemma parse_members_join:
  assumes "\<forall>(k, v) \<in> set kvs. wf_json v \<and> parses v" "kvs \<noteq> []"
    "size_list (size_prod (\<lambda>_. 0) size) kvs < m"
  shows "parse_members m (join_with CHR '','' (map member_str kvs) @ CHR ''}'' # r) = Some (kvs, r)"
  using assms
proof (induction kvs arbitrary: m)
  case (Cons kv kvs)
  obtain k v where kv: "kv = (k, v)" by fastforce
  from Cons kv obtain m' where m: "m = Suc m'" "size v < m'"
      "size_list (size_prod (\<lambda>_. 0) size) kvs < m'" by (cases m) auto
  from Cons.prems kv have v: "wf_json v" "parses v" by auto
  show ?case
  proof (cases "kvs = []")
    case True
    with v m kv show ?thesis
      by (simp add: quote_def parse_string_quoted skip_ws_stringify json_ws_def)
  next
    case False
    with Cons m have IH: "parse_members m' (join_with CHR '','' (map member_str kvs) @ CHR ''}'' # r) = Some (kvs, r)"
      by simp
    have "skip_ws (join_with CHR '','' (map member_str kvs) @ CHR ''}'' # r)
        = join_with CHR '','' (map member_str kvs) @ CHR ''}'' # r"
      using False by (cases kvs rule: remdups_adj.cases) (auto simp: join_with_Cons quote_def json_ws_def)
    with IH v m kv False show ?thesis
      by (simp add: join_with_Cons quote_def parse_string_quoted skip_ws_stringify json_ws_def)
  qed
qed simp

theorem parse_value_stringify: "wf_json v \<Longrightarrow> parses v"
proof (induction v)
  case (JNum s)
  then show ?case using parse_value_number by (auto simp: gr0_conv_Suc)
next
  case (JStr s)
  then show ?case by (auto simp: gr0_conv_Suc quote_def parse_string_quoted)
next
  case (JArr vs)
  show ?case
  proof (intro allI impI)
    fix n r
    assume n: "size (JArr vs) < n" and r: "num_delim r"
    then obtain n' where n': "n = Suc n'" "size_list size vs < n'" by (cases n) auto
    show "parse_value n (stringify (JArr vs) @ r) = Some (JArr vs, r)"
    proof (cases "vs = []")
      case True
      with n' show ?thesis by (simp add: json_ws_def)
    next
      case False
      then obtain w ws where vs: "vs = w # ws" by (cases vs) auto
      have all: "\<forall>v \<in> set vs. wf_json v \<and> parses v"
      proof
        fix v assume v: "v \<in> set vs"
        moreover have "list_all wf_json vs" using JArr.prems by simp
        ultimately have "wf_json v" by (simp add: list_all_iff)
        with JArr.IH v show "wf_json v \<and> parses v" by blast
      qed
      then have "skip_ws (join_with CHR '','' (map stringify vs) @ CHR '']'' # r)
          = join_with CHR '','' (map stringify vs) @ CHR '']'' # r"
        using vs by (cases ws) (simp_all add: skip_ws_stringify join_with_Cons)
      moreover have "parse_elems n' (join_with CHR '','' (map stringify vs) @ CHR '']'' # r) = Some (vs, r)"
        using parse_elems_join all False n' by blast
      moreover obtain c t where ct: "stringify w = c # t" "c \<noteq> CHR '']''"
        using stringify_head [of w] all vs by auto
      moreover obtain x where "join_with CHR '','' (map stringify vs) @ CHR '']'' # r = c # x"
        using ct vs by (cases ws) (simp_all add: join_with_Cons)
      ultimately show ?thesis using n' ct(2) by simp
    qed
  qed
next
  case (JObj kvs)
  show ?case
  proof (intro allI impI)
    fix n r
    assume n: "size (JObj kvs) < n" and r: "num_delim r"
    then obtain n' where n': "n = Suc n'" "size_list (size_prod (\<lambda>_. 0) size) kvs < n'" by (cases n) auto
    show "parse_value n (stringify (JObj kvs) @ r) = Some (JObj kvs, r)"
    proof (cases "kvs = []")
      case True
      with n' show ?thesis by (simp add: json_ws_def)
    next
      case False
      have all: "\<forall>(k, v) \<in> set kvs. wf_json v \<and> parses v"
      proof (intro ballI, clarify)
        fix k v assume kv: "(k, v) \<in> set kvs"
        have "list_all (\<lambda>(k, v). wf_json v) kvs" using JObj.prems by simp
        with kv have w: "wf_json v" by (auto simp: list_all_iff)
        have "v \<in> Basic_BNFs.snds (k, v)" by simp
        with JObj.IH kv w show "wf_json v \<and> parses v" by blast
      qed
      have "parse_members n' (join_with CHR '','' (map member_str kvs) @ CHR ''}'' # r) = Some (kvs, r)"
        using parse_members_join all False n' by blast
      moreover obtain x where "join_with CHR '','' (map member_str kvs) @ CHR ''}'' # r = dq # x"
        using False by (cases kvs rule: remdups_adj.cases) (auto simp: join_with_Cons quote_def)
      ultimately show ?thesis using n' by (simp add: json_ws_def)
    qed
  qed
next
  case JNull
  show ?case
  proof (intro allI impI)
    fix n r assume "size JNull < n"
    then obtain n' where "n = Suc n'" by (cases n) auto
    then show "parse_value n (stringify JNull @ r) = Some (JNull, r)" by (simp add: starts_with_def)
  qed
next
  case (JBool b)
  show ?case
  proof (intro allI impI)
    fix n r assume "size (JBool b) < n"
    then obtain n' where "n = Suc n'" by (cases n) auto
    then show "parse_value n (stringify (JBool b) @ r) = Some (JBool b, r)"
      by (cases b) (simp_all add: starts_with_def)
  qed
qed

lemma length_quote: "length s + 2 \<le> length (quote s)"
proof -
  have "length s \<le> length (concat (map escape_char s))"
  proof (induction s)
    case (Cons c s)
    have "escape_char c \<noteq> []" by (simp add: escape_char_def)
    then have "1 \<le> length (escape_char c)" by (cases "escape_char c") auto
    with Cons show ?case by simp
  qed simp
  then show ?thesis by (simp add: quote_def)
qed

lemma wf_num_nonempty: "wf_json (JNum s) \<Longrightarrow> s \<noteq> []"
  using parse_number_head by fastforce

lemma size_stringify: "wf_json v \<Longrightarrow> size v \<le> 2 * length (stringify v)"
proof (induction v)
  case (JNum s)
  then show ?case using wf_num_nonempty [of s] by (cases s) auto
next
  case (JStr s)
  then show ?case using length_quote [of s] by simp
next
  case (JArr vs)
  have "\<forall>v \<in> set vs. size v \<le> 2 * length (stringify v)"
    using JArr by (simp add: list_all_iff)
  then have "sum_list (map size vs) \<le> 2 * sum_list (map (length \<circ> stringify) vs)"
    by (induction vs) auto
  then show ?case by (simp add: length_join_with size_list_conv_sum_list comp_def)
next
  case (JObj kvs)
  have "\<forall>(k, v) \<in> set kvs. size v \<le> 2 * length (stringify v)"
    using JObj by (fastforce simp: list_all_iff)
  then have "size_list (size_prod (\<lambda>_. 0) size) kvs
      \<le> 2 * sum_list (map (\<lambda>(k, v). length (quote k @ CHR '':'' # stringify v)) kvs)"
  proof (induction kvs)
    case (Cons kv kvs)
    then show ?case using length_quote [of "fst kv"] by (cases kv) auto
  qed simp
  then show ?case by (simp add: length_join_with comp_def case_prod_unfold)
qed simp_all

theorem json_parse_stringify: "wf_json v \<Longrightarrow> json_parse (stringify v) = Some v"
proof -
  assume wf: "wf_json v"
  then have "size v < Suc (2 * length (stringify v))" using size_stringify by (simp add: le_imp_less_Suc)
  with wf parse_value_stringify [of v] num_delim_simps(1) have "parse_value (Suc (2 * length (stringify v))) (stringify v @ []) = Some (v, [])"
    by blast
  with wf show ?thesis using skip_ws_stringify [of v "[]"] by (simp add: json_parse_def)
qed


subsection \<open>Printed values contain no line feed\<close>

lemma hex_digit_mem: "n < 16 \<Longrightarrow> hex_digit n \<in> set ''0123456789abcdef''"
  unfolding hex_digit_def by (rule nth_mem) simp
lemma hex_digit_not_nl: "n < 16 \<Longrightarrow> nl \<noteq> hex_digit n"
  using hex_digit_mem [of n] by auto
lemma escape_char_no_nl: "nl \<notin> set (escape_char c)"
proof -
  have "of_char c < (32::nat) \<Longrightarrow> of_char c div 16 < (16::nat)" by simp
  then show ?thesis
    by (simp add: escape_char_def hex_digit_not_nl)
qed

lemma num_char_simps: "is_digit c \<Longrightarrow> num_char c" "num_char (CHR ''.'')" "num_char (CHR ''e'')"
  "num_char (CHR ''E'')" "num_char (CHR ''+'')" "num_char (CHR ''-'')" "num_char (CHR ''0'')"
  by (auto simp: num_char_def is_digit_def)

lemma scan_digits1_chars: "scan_digits1 s = Some (d, r) \<Longrightarrow> list_all num_char d"
proof -
  assume "scan_digits1 s = Some (d, r)"
  then have "d = takeWhile is_digit s" by (simp add: scan_digits1_def split: if_splits)
  then show ?thesis by (auto simp: list_all_iff num_char_simps dest: set_takeWhileD)
qed

lemma scan_int_chars: "scan_int s = Some (d, r) \<Longrightarrow> list_all num_char d"
  by (cases s) (auto simp: scan_int_def num_char_simps split: if_splits dest: scan_digits1_chars)

lemma scan_frac_chars: "scan_frac s = Some (d, r) \<Longrightarrow> list_all num_char d"
  by (cases s) (auto simp: scan_frac_def num_char_simps split: if_splits dest: scan_digits1_chars)

lemma scan_exp_chars: "scan_exp s = Some (d, r) \<Longrightarrow> list_all num_char d"
  by (cases s) (auto simp: scan_exp_def num_char_simps split: list.splits if_splits dest: scan_digits1_chars)

lemma parse_number_chars:
  assumes "parse_number s = Some (JNum x, r)"
  shows "list_all num_char x"
proof -
  obtain sg s1 where p: "(case s of c # t \<Rightarrow> if c = CHR ''-'' then (''-'', t) else ([], s) | [] \<Rightarrow> ([], [])) = (sg, s1)"
    by fastforce
  have sg: "list_all num_char sg"
    using p by (cases s) (auto simp: num_char_simps split: if_splits)
  from assms p obtain ip s2 fp s3 ep where
      "scan_int s1 = Some (ip, s2)" "scan_frac s2 = Some (fp, s3)" "scan_exp s3 = Some (ep, r)"
      "x = sg @ ip @ fp @ ep"
    by (auto simp: parse_number_def split: option.splits prod.splits)
  with sg show ?thesis by (auto dest!: scan_int_chars scan_frac_chars scan_exp_chars)
qed

lemma num_char_not_nl: "list_all num_char x \<Longrightarrow> nl \<notin> set x"
proof -
  have "\<not> num_char nl" by (simp add: num_char_def)
  then show "list_all num_char x \<Longrightarrow> nl \<notin> set x" by (auto simp: list_all_iff)
qed

lemma quote_no_nl: "nl \<notin> set (quote s)"
  by (auto simp: quote_def escape_char_no_nl)

lemma stringify_no_nl: "wf_json v \<Longrightarrow> nl \<notin> set (stringify v)"
proof (induction v)
  case (JNum s)
  then show ?case using parse_number_chars [of s s "[]"] num_char_not_nl by auto
next
  case (JStr s)
  then show ?case by (simp add: quote_no_nl)
next
  case (JArr vs)
  have "\<forall>v \<in> set vs. nl \<notin> set (stringify v)"
  proof
    fix v assume v: "v \<in> set vs"
    have "list_all wf_json vs" using JArr.prems by simp
    with v have "wf_json v" by (simp add: list_all_iff)
    with JArr.IH v show "nl \<notin> set (stringify v)" by blast
  qed
  then show ?case using set_join_with [of "CHR '',''" "map stringify vs"] by auto
next
  case (JObj kvs)
  have "\<forall>p \<in> set (map member_str kvs). nl \<notin> set p"
  proof
    fix p assume "p \<in> set (map member_str kvs)"
    then obtain k v where kv: "(k, v) \<in> set kvs" "p = quote k @ CHR '':'' # stringify v" by auto
    have "list_all (\<lambda>(k, v). wf_json v) kvs" using JObj.prems by simp
    with kv have "wf_json v" by (auto simp: list_all_iff)
    moreover have "v \<in> Basic_BNFs.snds (k, v)" by simp
    ultimately have "nl \<notin> set (stringify v)" using JObj.IH kv by blast
    with kv show "nl \<notin> set p" by (simp add: quote_no_nl)
  qed
  then show ?case using set_join_with [of "CHR '',''" "map member_str kvs"] by auto
qed simp_all

subsection \<open>Number lexemes scan back alone\<close>

lemma first_not_append [simp]: "d \<noteq> [] \<Longrightarrow> first_not P (d @ t) = first_not P d"
  by (cases d) (simp_all add: first_not_def)

lemma takeWhile_digits_stop:
  "list_all is_digit d \<Longrightarrow> first_not is_digit t \<Longrightarrow> takeWhile is_digit (d @ t) = d \<and> dropWhile is_digit (d @ t) = t"
  by (induction d) (auto simp: first_not_def split: list.splits)

lemma scan_digits1_split:
  assumes "scan_digits1 s = Some (d, r)"
  shows "s = d @ r \<and> d \<noteq> [] \<and> list_all is_digit d \<and> first_not is_digit r
         \<and> (\<forall>t. first_not is_digit t \<longrightarrow> scan_digits1 (d @ t) = Some (d, t))"
proof -
  have d: "d = takeWhile is_digit s" "r = dropWhile is_digit s" "d \<noteq> []"
    using assms by (auto simp: scan_digits1_def split: if_splits)
  have all: "list_all is_digit d" unfolding d(1) by (induction s) auto
  have stop: "first_not is_digit r"
    unfolding d(2) first_not_def by (induction s) (auto split: list.splits)
  show ?thesis using d all stop takeWhile_digits_stop [OF all]
    by (simp add: scan_digits1_def)
qed

lemma scan_int_split:
  assumes "scan_int s = Some (d, r)"
  shows "s = d @ r \<and> d \<noteq> [] \<and> first_not (\<lambda>c. c = CHR ''-'') d
         \<and> (d \<noteq> ''0'' \<longrightarrow> first_not is_digit r)
         \<and> (\<forall>t. (d \<noteq> ''0'' \<longrightarrow> first_not is_digit t) \<longrightarrow> scan_int (d @ t) = Some (d, t))"
proof (cases s)
  case Nil
  with assms show ?thesis by (simp add: scan_int_def)
next
  case (Cons c s')
  show ?thesis
  proof (cases "c = CHR ''0''")
    case True
    with Cons assms show ?thesis by (auto simp: scan_int_def first_not_def)
  next
    case False
    with Cons assms have sd: "scan_digits1 s = Some (d, r)" by (simp add: scan_int_def)
    note sp = scan_digits1_split [OF sd]
    then obtain e d' where d: "d = e # d'" by (cases d) auto
    with sp Cons have "e = c" by simp
    moreover have "is_digit e" using sp d by simp
    ultimately have "d \<noteq> ''0''" "c \<noteq> CHR ''-''" using False d by (auto simp: is_digit_def)
    then show ?thesis using sp d False Cons \<open>e = c\<close>
      by (auto simp: scan_int_def first_not_def)
  qed
qed

lemma scan_frac_split:
  assumes "scan_frac s = Some (d, r)"
  shows "s = d @ r \<and> first_not (\<lambda>c. c \<noteq> CHR ''.'') d
         \<and> (if d = [] then first_not (\<lambda>c. c = CHR ''.'') r else first_not is_digit r)
         \<and> (\<forall>t. (if d = [] then first_not (\<lambda>c. c = CHR ''.'') t else first_not is_digit t)
               \<longrightarrow> scan_frac (d @ t) = Some (d, t))"
proof (cases s)
  case Nil
  with assms show ?thesis by (auto simp: scan_frac_def first_not_def split: list.splits)
next
  case (Cons c s')
  show ?thesis
  proof (cases "c = CHR ''.''")
    case False
    with Cons assms show ?thesis by (auto simp: scan_frac_def first_not_def split: list.splits)
  next
    case True
    with Cons assms obtain d' where sd: "scan_digits1 s' = Some (d', r)" and d: "d = c # d'"
      by (auto simp: scan_frac_def split: option.splits)
    note sp = scan_digits1_split [OF sd]
    show ?thesis using sp d True Cons by (auto simp: scan_frac_def first_not_def)
  qed
qed

lemma scan_exp_split:
  assumes "scan_exp s = Some (d, r)"
  shows "s = d @ r \<and> first_not (\<lambda>c. c \<noteq> CHR ''e'' \<and> c \<noteq> CHR ''E'') d
         \<and> (if d = [] then first_not (\<lambda>c. c = CHR ''e'' \<or> c = CHR ''E'') r else first_not is_digit r)
         \<and> (\<forall>t. (if d = [] then first_not (\<lambda>c. c = CHR ''e'' \<or> c = CHR ''E'') t else first_not is_digit t)
               \<longrightarrow> scan_exp (d @ t) = Some (d, t))"
proof (cases s)
  case Nil
  with assms show ?thesis by (auto simp: scan_exp_def first_not_def split: list.splits)
next
  case (Cons c s')
  show ?thesis
  proof (cases "c = CHR ''e'' \<or> c = CHR ''E''")
    case False
    with Cons assms show ?thesis by (auto simp: scan_exp_def first_not_def split: list.splits)
  next
    case E: True
    show ?thesis
    proof (cases s')
      case Nil
      with Cons E assms show ?thesis by (simp add: scan_exp_def)
    next
      case (Cons g s'')
      show ?thesis
      proof (cases "g = CHR ''+'' \<or> g = CHR ''-''")
        case True
        with Cons \<open>s = c # s'\<close> E assms obtain d' where sd: "scan_digits1 s'' = Some (d', r)" and d: "d = c # g # d'"
          by (auto simp: scan_exp_def split: option.splits)
        note sp = scan_digits1_split [OF sd]
        show ?thesis using sp d True E Cons \<open>s = c # s'\<close> by (auto simp: scan_exp_def first_not_def)
      next
        case False
        with Cons \<open>s = c # s'\<close> E assms obtain d' where sd: "scan_digits1 s' = Some (d', r)" and d: "d = c # d'"
          by (auto simp: scan_exp_def split: option.splits)
        note sp = scan_digits1_split [OF sd]
        obtain h d'' where "d' = h # d''" using sp by (cases d') auto
        moreover have "h = g" using sp Cons \<open>d' = h # d''\<close> by simp
        ultimately have "scan_exp (d @ t) = Some (d, t)" if "first_not is_digit t" for t
          using sp d False E that by (simp add: scan_exp_def)
        then show ?thesis using sp d E \<open>s = c # s'\<close> by (auto simp: first_not_def)
      qed
    qed
  qed
qed


lemma first_not_Nil [simp]: "first_not P []"
  by (simp add: first_not_def)

lemma first_not_exp_head:
  "first_not (\<lambda>c. c \<noteq> CHR ''e'' \<and> c \<noteq> CHR ''E'') ep \<Longrightarrow> first_not is_digit ep \<and> first_not (\<lambda>c. c = CHR ''.'') ep"
  by (auto simp: first_not_def is_digit_def split: list.splits)

lemma parse_number_lexeme:
  assumes "parse_number s = Some (v, r)"
  shows "\<exists>x. v = JNum x \<and> s = x @ r \<and> x \<noteq> [] \<and> parse_number x = Some (JNum x, [])"
proof -
  obtain sg s1 where sign: "(case s of c # t \<Rightarrow> if c = CHR ''-'' then (''-'', t) else ([], s) | [] \<Rightarrow> ([], [])) = (sg, s1)"
    by (metis surj_pair)
  from assms sign obtain ip s2 fp s3 ep where
    i: "scan_int s1 = Some (ip, s2)" and f: "scan_frac s2 = Some (fp, s3)" and e: "scan_exp s3 = Some (ep, r)"
    and v: "v = JNum (sg @ ip @ fp @ ep)"
    by (auto simp: parse_number_def split: option.splits)
  note si = scan_int_split [OF i] and sf = scan_frac_split [OF f] and se = scan_exp_split [OF e]
  have hd_e: "first_not is_digit ep \<and> first_not (\<lambda>c. c = CHR ''.'') ep" using se by (intro first_not_exp_head) simp
  have int_stop: "ip \<noteq> ''0'' \<longrightarrow> first_not is_digit (fp @ ep)"
  proof (cases "fp @ ep = []")
    case False
    then have "first_not is_digit (fp @ ep) = first_not is_digit ((fp @ ep) @ r)"
      by (rule first_not_append [symmetric])
    with si sf se show ?thesis by simp
  qed simp
  have frac_stop: "if fp = [] then first_not (\<lambda>c. c = CHR ''.'') ep else first_not is_digit ep"
    using hd_e by simp
  have re_int: "scan_int (ip @ fp @ ep) = Some (ip, fp @ ep)" using si int_stop by blast
  have re_frac: "scan_frac (fp @ ep) = Some (fp, ep)" using sf frac_stop by blast
  have re_exp: "scan_exp ep = Some (ep, [])" using se by (metis append_Nil2 first_not_Nil)
  have s1: "s1 = ip @ fp @ ep @ r" using si sf se by simp
  have sg: "(case sg @ ip @ fp @ ep of c # t \<Rightarrow> if c = CHR ''-'' then (''-'', t) else ([], sg @ ip @ fp @ ep)
               | [] \<Rightarrow> ([], [])) = (sg, ip @ fp @ ep)"
  proof -
    obtain h ip' where ip: "ip = h # ip'" "h \<noteq> CHR ''-''" using si by (cases ip) (auto simp: first_not_def)
    show ?thesis using sign ip s1 by (cases s) (auto split: if_splits)
  qed
  have "s = (sg @ ip @ fp @ ep) @ r"
    using sign s1 by (cases s) (auto split: if_splits)
  moreover have "parse_number (sg @ ip @ fp @ ep) = Some (JNum (sg @ ip @ fp @ ep), [])"
    unfolding parse_number_def sg using re_int re_frac re_exp by simp
  moreover have "sg @ ip @ fp @ ep \<noteq> []" using si by simp
  ultimately show ?thesis using v by blast
qed

subsection \<open>Parse results: well formed, shorter than the input, independent of spare fuel\<close>

text \<open>The branches of \<open>parse_value\<close> on an opening bracket, and the branches that do
  not recurse.\<close>

lemma parse_value_brace:
  "skip_ws t = d # r' \<Longrightarrow> d \<noteq> CHR ''}'' \<Longrightarrow>
   parse_value (Suc n) (CHR ''{'' # t) = map_option (\<lambda>(kvs, r''). (JObj kvs, r'')) (parse_members n (d # r'))"
  by simp

lemma parse_value_bracket:
  "skip_ws t = d # r' \<Longrightarrow> d \<noteq> CHR '']'' \<Longrightarrow>
   parse_value (Suc n) (CHR ''['' # t) = map_option (\<lambda>(vs, r''). (JArr vs, r'')) (parse_elems n (d # r'))"
  by simp

lemma parse_value_other:
  "c \<noteq> CHR ''{'' \<Longrightarrow> c \<noteq> CHR ''['' \<Longrightarrow> parse_value (Suc n) (c # t) = parse_value (Suc m) (c # t)"
  by (simp only: parse_value.simps if_not_P if_False)

lemma parse_value_close:
  "skip_ws t = CHR ''}'' # r' \<Longrightarrow> parse_value (Suc n) (CHR ''{'' # t) = Some (JObj [], r')"
  "skip_ws t = CHR '']'' # r' \<Longrightarrow> parse_value (Suc n) (CHR ''['' # t) = Some (JArr [], r')"
  "skip_ws t = [] \<Longrightarrow> parse_value (Suc n) (CHR ''{'' # t) = None"
  "skip_ws t = [] \<Longrightarrow> parse_value (Suc n) (CHR ''['' # t) = None"
  by (simp_all del: dropWhile_eq_Nil_conv)

lemma parse_number_wf: "parse_number s = Some (v, r) \<Longrightarrow> wf_json v"
  using parse_number_lexeme by fastforce

lemma parse_results_wf:
  "parse_value n s = Some (v, r) \<Longrightarrow> wf_json v"
  "parse_elems n s = Some (vs, r) \<Longrightarrow> list_all wf_json vs"
  "parse_members n s = Some (kvs, r) \<Longrightarrow> list_all (\<lambda>(k, v). wf_json v) kvs"
proof (induction n s and n s and n s arbitrary: v r and vs r and kvs r
       rule: parse_value_parse_elems_parse_members.induct)
  case (3 n c t)
  then show ?case
    by (auto simp: parse_number_wf split: if_splits list.splits option.splits prod.splits)
next
  case (5 n s)
  from "5.prems" obtain v0 r0 d r' where pv: "parse_value n s = Some (v0, r0)" and sk: "skip_ws r0 = d # r'"
    by (auto split: option.splits list.splits)
  have w: "wf_json v0" using "5.IH"(1) [OF pv] .
  show ?case
  proof (cases "d = CHR '',''")
    case True
    with "5.prems" pv sk obtain vs' where pe: "parse_elems n (skip_ws r') = Some (vs', r)" and vs: "vs = v0 # vs'"
      by (auto split: option.splits)
    have "list_all wf_json vs'" using "5.IH"(2) [OF pv refl sk True pe] .
    with w vs show ?thesis by simp
  next
    case False
    with "5.prems" pv sk w show ?thesis by (auto split: if_splits)
  qed
next
  case (7 n s)
  from "7.prems" obtain r1 k r2 r3 v0 r4 where s: "s = dq # r1" and ps: "parse_string r1 = Some (k, r2)"
    and sk: "skip_ws r2 = CHR '':'' # r3" and pv: "parse_value n (skip_ws r3) = Some (v0, r4)"
    by (auto split: list.splits if_splits option.splits)
  have w: "wf_json v0" using "7.IH"(1) [OF s _ ps refl sk _ pv] by simp
  from "7.prems" s ps sk pv obtain f r5 where sk2: "skip_ws r4 = f # r5"
    by (auto split: list.splits)
  show ?case
  proof (cases "f = CHR '',''")
    case True
    with "7.prems" s ps sk pv sk2 obtain kvs' where pm: "parse_members n (skip_ws r5) = Some (kvs', r)"
      and kvs: "kvs = (k, v0) # kvs'"
      by (auto split: option.splits)
    have "list_all (\<lambda>(k, v). wf_json v) kvs'" using "7.IH"(2) [OF s _ ps refl sk _ pv refl sk2 True pm] by simp
    with w kvs show ?thesis by simp
  next
    case False
    with "7.prems" s ps sk pv sk2 w show ?thesis by (auto split: if_splits)
  qed
qed simp_all

lemma length_skip_ws [simp]: "length (skip_ws r) \<le> length r"
  by (rule length_dropWhile_le)

lemma skip_ws_Cons_shorter: "skip_ws t = x # y \<Longrightarrow> length y < length t"
  using length_skip_ws [of t] by simp

lemma parse_string_shorter: "parse_string s = Some (t, r) \<Longrightarrow> length r < length s"
  by (induction s arbitrary: t rule: parse_string.induct)
     (fastforce split: if_splits list.splits option.splits prod.splits)+

lemma parse_number_shorter: "parse_number s = Some (v, r) \<Longrightarrow> length r < length s"
  using parse_number_lexeme by fastforce

lemma parse_shorter:
  "parse_value n s = Some (v, r) \<Longrightarrow> length r < length s"
  "parse_elems n s = Some (vs, r) \<Longrightarrow> length r < length s"
  "parse_members n s = Some (kvs, r) \<Longrightarrow> length r < length s"
proof (induction n s and n s and n s arbitrary: v r and vs r and kvs r
       rule: parse_value_parse_elems_parse_members.induct)
  case (3 n c t)
  then show ?case
    by (auto simp: starts_with_def dest!: parse_string_shorter parse_number_shorter dest: skip_ws_Cons_shorter
        split: if_splits list.splits option.splits prod.splits) (fastforce dest: skip_ws_Cons_shorter)+
next
  case (5 n s)
  from "5.prems" obtain v0 r0 d r' where pv: "parse_value n s = Some (v0, r0)" and sk: "skip_ws r0 = d # r'"
    by (auto split: option.splits list.splits)
  have l0: "length r0 < length s" using "5.IH"(1) [OF pv] .
  have l1: "length r' < length r0" using sk by (rule skip_ws_Cons_shorter)
  show ?case
  proof (cases "d = CHR '',''")
    case True
    with "5.prems" pv sk obtain vs' where pe: "parse_elems n (skip_ws r') = Some (vs', r)"
      by (auto split: option.splits)
    have "length r < length (skip_ws r')" using "5.IH"(2) [OF pv refl sk True pe] .
    with l0 l1 length_skip_ws [of r'] show ?thesis by linarith
  next
    case False
    with "5.prems" pv sk l0 l1 show ?thesis by (auto split: if_splits)
  qed
next
  case (7 n s)
  from "7.prems" obtain r1 k r2 r3 v0 r4 where s: "s = dq # r1" and ps: "parse_string r1 = Some (k, r2)"
    and sk: "skip_ws r2 = CHR '':'' # r3" and pv: "parse_value n (skip_ws r3) = Some (v0, r4)"
    by (auto split: list.splits if_splits option.splits)
  have l0: "length r4 < length (skip_ws r3)" using "7.IH"(1) [OF s _ ps refl sk _ pv] by simp
  have l1: "length r3 < length r2" using sk by (rule skip_ws_Cons_shorter)
  have l2: "length r2 < length r1" using ps by (rule parse_string_shorter)
  have l: "length r4 < length s" using l0 l1 l2 length_skip_ws [of r3] s by (simp del: length_skip_ws)
  from "7.prems" s ps sk pv obtain f r5 where sk2: "skip_ws r4 = f # r5"
    by (auto split: list.splits)
  have l3: "length r5 < length r4" using sk2 by (rule skip_ws_Cons_shorter)
  show ?case
  proof (cases "f = CHR '',''")
    case True
    with "7.prems" s ps sk pv sk2 obtain kvs' where pm: "parse_members n (skip_ws r5) = Some (kvs', r)"
      by (auto split: option.splits)
    have "length r < length (skip_ws r5)" using "7.IH"(2) [OF s _ ps refl sk _ pv refl sk2 True pm] by simp
    with l l3 length_skip_ws [of r5] show ?thesis by linarith
  next
    case False
    with "7.prems" s ps sk pv sk2 l l3 show ?thesis by (auto split: if_splits)
  qed
qed simp_all

lemma parse_fuel:
  "2 * length s < n \<Longrightarrow> 2 * length s < m \<Longrightarrow> parse_value n s = parse_value m s"
  "2 * length s + 1 < n \<Longrightarrow> 2 * length s + 1 < m \<Longrightarrow> parse_elems n s = parse_elems m s"
  "2 * length s + 1 < n \<Longrightarrow> 2 * length s + 1 < m \<Longrightarrow> parse_members n s = parse_members m s"
proof (induction n s and n s and n s arbitrary: m and m and m
       rule: parse_value_parse_elems_parse_members.induct)
  case (2 n)
  then show ?case by (cases m) simp_all
next
  case (3 n c t)
  obtain m' where m: "m = Suc m'" using "3.prems" by (cases m) auto
  have b: "2 * length t + 1 < n" "2 * length t + 1 < m'" using "3.prems" m by simp_all
  have members: "parse_members n (d # r') = parse_members m' (d # r')" 
    if "c = CHR ''{''" "skip_ws t = d # r'" "d \<noteq> CHR ''}''" for d r'
  proof -
    have "length (d # r') \<le> length t" using that(2) length_skip_ws [of t] by (simp del: length_skip_ws)
    then show ?thesis using "3.IH"(1) [OF that] b by simp
  qed
  have elems: "parse_elems n (d # r') = parse_elems m' (d # r')"
    if "c \<noteq> CHR ''{''" "c = CHR ''[''" "skip_ws t = d # r'" "d \<noteq> CHR '']''" for d r'
  proof -
    have "length (d # r') \<le> length t" using that(3) length_skip_ws [of t] by (simp del: length_skip_ws)
    then show ?thesis using "3.IH"(2) [OF that] b by simp
  qed
  show ?case unfolding m
  proof (cases "c = CHR ''{'' \<or> c = CHR ''[''")
    case False
    then show "parse_value (Suc n) (c # t) = parse_value (Suc m') (c # t)"
      by (simp add: parse_value_other)
  next
    case True
    show "parse_value (Suc n) (c # t) = parse_value (Suc m') (c # t)"
    proof (cases "skip_ws t")
      case Nil
      from True show ?thesis by (elim disjE) (simp_all only: Nil parse_value_close(3,4))
    next
      case (Cons d r')
      then show ?thesis using True
        by (cases "c = CHR ''{''"; cases "d = CHR ''}''"; cases "d = CHR '']''")
           (simp_all only: parse_value_close(1,2) parse_value_brace parse_value_bracket
              members elems simp_thms char.inject refl)
    qed
  qed
next
  case (5 n s)
  obtain m' where m: "m = Suc m'" using "5.prems" by (cases m) auto
  have b: "2 * length s < n" "2 * length s < m'" using "5.prems" m by simp_all
  have pv: "parse_value n s = parse_value m' s" using "5.IH"(1) [OF b] .
  have rest: "parse_elems n (skip_ws r') = parse_elems m' (skip_ws r')"
    if "parse_value n s = Some (v, r)" "skip_ws r = d # r'" "d = CHR '',''" for v r d r'
  proof -
    have "length r < length s" using that(1) by (rule parse_shorter)
    moreover have "length r' < length r" using that(2) by (rule skip_ws_Cons_shorter)
    ultimately have "2 * length (skip_ws r') + 1 < n" "2 * length (skip_ws r') + 1 < m'"
      using b length_skip_ws [of r'] by (simp_all del: length_skip_ws)
    then show ?thesis by (rule "5.IH"(2) [OF that(1) refl that(2,3)])
  qed
  show ?case unfolding m
  proof (cases "parse_value n s")
    case (Some vr)
    obtain v r where vr: "vr = (v, r)" by fastforce
    have pvr: "parse_value n s = Some (v, r)" using Some vr by simp
    show "parse_elems (Suc n) s = parse_elems (Suc m') s"
      by (cases "skip_ws r") (simp_all add: pv [symmetric] pvr rest [OF pvr] del: dropWhile_eq_Nil_conv)
  qed (simp add: pv [symmetric])
next
  case (7 n s)
  obtain m' where m: "m = Suc m'" using "7.prems" by (cases m) auto
  have b: "2 * length s < n" "2 * length s < m'" using "7.prems" m by simp_all
  have val: "parse_value n (skip_ws r2) = parse_value m' (skip_ws r2)"
    if "s = d # r" "\<not> d \<noteq> dq" "parse_string r = Some kr" "(k, r1) = kr" "skip_ws r1 = e # r2" "\<not> e \<noteq> CHR '':''"
    for d r kr k r1 e r2
  proof -
    have "length r1 < length r" using that(3,4) parse_string_shorter by blast
    moreover have "length r2 < length r1" using that(5) by (rule skip_ws_Cons_shorter)
    ultimately have "2 * length (skip_ws r2) < n" "2 * length (skip_ws r2) < m'"
      using b that(1) length_skip_ws [of r2] by (simp_all del: length_skip_ws)
    then show ?thesis by (rule "7.IH"(1) [OF that])
  qed
  have mem: "parse_members n (skip_ws r4) = parse_members m' (skip_ws r4)"
    if "s = d # r" "\<not> d \<noteq> dq" "parse_string r = Some kr" "(k, r1) = kr" "skip_ws r1 = e # r2" "\<not> e \<noteq> CHR '':''"
       "parse_value n (skip_ws r2) = Some vr" "(v, r3) = vr" "skip_ws r3 = f # r4" "f = CHR '',''"
    for d r kr k r1 e r2 vr v r3 f r4
  proof -
    have "length r1 < length r" using that(3,4) parse_string_shorter by blast
    moreover have "length r2 < length r1" using that(5) by (rule skip_ws_Cons_shorter)
    moreover have "length r3 < length (skip_ws r2)" using that(7,8) parse_shorter(1) by blast
    moreover have "length r4 < length r3" using that(9) by (rule skip_ws_Cons_shorter)
    ultimately have "2 * length (skip_ws r4) + 1 < n" "2 * length (skip_ws r4) + 1 < m'"
      using b that(1) length_skip_ws [of r2] length_skip_ws [of r4] by (simp_all del: length_skip_ws)
    then show ?thesis by (rule "7.IH"(2) [OF that])
  qed
  show ?case unfolding m
    by (auto simp: val mem simp del: dropWhile_eq_Nil_conv split: list.split option.split prod.split)
qed simp_all

subsection \<open>The round trip as a property\<close>

text \<open>JSON.parse inverts JSON.stringify on every well-formed value, so every frame the relay writes is read back as the value it encodes.\<close>

theorem json_roundtrip: "wf_json v \<Longrightarrow> json_parse (stringify v) = Some v"
  by (rule json_parse_stringify)

theorem json_roundtrip_witness:
  "json_parse (stringify (JObj [(''content'', JStr (''say '' @ [dq] @ ''hi'' @ [dq, nl, bsl, CHR 0x01])),
                               (''n'', JArr [JNum ''-1.5e3'', JNull, JBool False])]))
   = Some (JObj [(''content'', JStr (''say '' @ [dq] @ ''hi'' @ [dq, nl, bsl, CHR 0x01])),
                 (''n'', JArr [JNum ''-1.5e3'', JNull, JBool False])])"
  by (rule json_roundtrip) code_simp

subsection \<open>What \<open>JSON.parse\<close> returns, and its fuel\<close>

text \<open>Every value \<open>JSON.parse\<close> returns is well formed: each number in it is a
  lexeme the parser reads back alone, so the value can be printed and parsed again.\<close>

lemma json_parse_wf: "json_parse s = Some v \<Longrightarrow> wf_json v"
  by (auto simp: json_parse_def split: option.splits if_splits dest: parse_results_wf(1))

text \<open>the fuel 2|s|+1 given to the parser never runs out: any larger fuel gives the
  same result, so JSON.parse fails only on text that is not JSON, never for lack of fuel.\<close>

theorem json_parse_fuel:
  "2 * length s < n \<Longrightarrow>
   json_parse s = (case parse_value n (skip_ws s) of
                     None \<Rightarrow> None
                   | Some (v, r) \<Rightarrow> if skip_ws r = [] then Some v else None)"
  unfolding json_parse_def
  using parse_fuel(1) [of "skip_ws s" n "Suc (2 * length s)"] length_skip_ws [of s]
  by (simp del: length_skip_ws)

theorem json_parse_fuel_witness:
  "json_parse ''[[[]]]'' = (case parse_value 100 (skip_ws ''[[[]]]'') of
                     None \<Rightarrow> None
                   | Some (v, r) \<Rightarrow> if skip_ws r = [] then Some v else None)"
  using json_parse_fuel [of "''[[[]]]''" 100] by simp

end
