(* ===== verification/Relay.thy ===== *)
theory Relay
  imports Json
begin

text \<open>
  The stream transformer of \<open>src/api/chat.js\<close> (lines 155--195): the asynchronous
  function that reads the upstream body, keeps the unfinished tail of the text in
  \<open>buffer\<close>, and for every complete line writes at most two frames to the
  \<open>TransformStream\<close> whose readable side is the HTTP response.  The state of one run
  is the record \<open>relay_state\<close> (the \<open>buffer\<close> and what has been written so far);
  \<open>relay_chunk\<close> is one iteration of the \<open>while\<close> loop, \<open>relay_reads\<close> the loop,
  \<open>relay_stream\<close> the whole function with its \<open>try/finally\<close>.  The text decoder is
  the identity on the model's alphabet: a chunk is the decoded text of one read.
  The upstream's side of the protocol (its SSE framing of typed events) is the datatype
  \<open>upstream_event\<close> with the encoder \<open>sse_frame\<close>, and \<open>relay_spec\<close> is the
  abstract contract of the transformer on such events.
\<close>

subsection \<open>Frames written to the client\<close>

datatype relay_event = Content json | Done

text \<open>\<open>encoder.encode(`data: ${JSON.stringify(...)}\n\n`)\<close>, lines 181 and 184.\<close>

definition encode_event :: "relay_event \<Rightarrow> string" where
  "encode_event e =
     ''data: '' @ stringify (case e of Content t \<Rightarrow> JObj [(''content'', t)]
                                    | Done \<Rightarrow> JObj [(''done'', JBool True)]) @ [nl, nl]"

subsection \<open>One line of the upstream stream\<close>

text \<open>\<open>parsed.delta?.text\<close>: \<open>undefined\<close> when \<open>delta\<close> is missing or \<open>null\<close>.\<close>

definition delta_text :: "json \<Rightarrow> json option" where
  "delta_text parsed =
     (case js_get parsed ''delta'' of
        None \<Rightarrow> None
      | Some d \<Rightarrow> if d = JNull then None else js_get d ''text'')"

text \<open>Lines 180--185, inside the \<open>try\<close>.  For \<open>parsed = null\<close> the read of
  \<open>parsed.type\<close> throws a \<open>TypeError\<close> and the \<open>catch\<close> skips the line.\<close>

definition handle_parsed :: "json \<Rightarrow> relay_event list" where
  "handle_parsed parsed =
     (if parsed = JNull then []
      else
        (if js_get parsed ''type'' = Some (JStr ''content_block_delta'')
         then (case delta_text parsed of Some t \<Rightarrow> if js_truthy t then [Content t] else [] | None \<Rightarrow> [])
         else []) @
        (if js_get parsed ''type'' = Some (JStr ''message_stop'') then [Done] else []))"

text \<open>Lines 175--189: a line that is not a data line is ignored, the sentinel
  \<open>[DONE]\<close> is skipped, a payload that \<open>JSON.parse\<close> rejects is skipped.\<close>

definition process_line :: "string \<Rightarrow> relay_event list" where
  "process_line line =
     (if starts_with ''data: '' line then
        (let data = js_trim (drop 6 line) in
         if data = ''[DONE]'' then []
         else (case json_parse data of None \<Rightarrow> [] | Some parsed \<Rightarrow> handle_parsed parsed))
      else [])"

subsection \<open>The read loop\<close>

record relay_state =
  buffer :: string
  written :: "relay_event list"

definition relay_init :: relay_state where
  "relay_init = \<lparr>buffer = [], written = []\<rparr>"

text \<open>Lines 170--190, one chunk: append it to the buffer, split on \<open>\n\<close>, keep the last
  piece (\<open>lines.pop() || ''\<close>: the last piece is a string, so \<open>|| ''\<close> leaves it as it
  is), process the others in order.\<close>

definition relay_chunk :: "relay_state \<Rightarrow> string \<Rightarrow> relay_state" where
  "relay_chunk st v =
     (let pieces = split_on nl (buffer st @ v)
      in st\<lparr>buffer := last pieces, written := written st @ concat (map process_line (butlast pieces))\<rparr>)"

fun relay_reads :: "relay_state \<Rightarrow> string list \<Rightarrow> relay_state" where
  "relay_reads st [] = st"
| "relay_reads st (v # vs) = relay_reads (relay_chunk st v) vs"

text \<open>How the upstream body ends: \<open>reader.read()\<close> reports \<open>done\<close>, or it rejects.\<close>

datatype stream_end = End_ok | End_error string

record relay_outcome =
  events :: "relay_event list"
  closed :: bool
  unhandled :: "string option"
  leftover :: string

text \<open>Lines 160--195.  On \<open>done\<close> the loop breaks and the buffer is dropped; on a
  read error the exception leaves the loop.  Either way the \<open>finally\<close> closes the
  writer, and the error propagates out of the un-awaited async function as an unhandled
  rejection: nothing is written in band.\<close>

definition relay_stream :: "string list \<Rightarrow> stream_end \<Rightarrow> relay_outcome" where
  "relay_stream chunks fin =
     (let st = relay_reads relay_init chunks
      in \<lparr>events = written st, closed = True,
          unhandled = (case fin of End_ok \<Rightarrow> None | End_error m \<Rightarrow> Some m),
          leftover = buffer st\<rparr>)"

definition wire :: "relay_outcome \<Rightarrow> string" where
  "wire out = concat (map encode_event (events out))"

subsection \<open>The upstream protocol and the transformer's contract\<close>

text \<open>The upstream's typed stream events, each framed as an \<open>event:\<close> line, a
  \<open>data:\<close> line with a JSON object, and a blank line.\<close>

datatype upstream_event = Text_delta string | Message_stop | Other_event string

definition event_payload :: "upstream_event \<Rightarrow> json" where
  "event_payload e =
     (case e of
        Text_delta t \<Rightarrow>
          JObj [(''type'', JStr ''content_block_delta''), (''index'', JNum ''0''),
                (''delta'', JObj [(''type'', JStr ''text_delta''), (''text'', JStr t)])]
      | Message_stop \<Rightarrow> JObj [(''type'', JStr ''message_stop'')]
      | Other_event n \<Rightarrow> JObj [(''type'', JStr n)])"

definition event_name :: "upstream_event \<Rightarrow> string" where
  "event_name e =
     (case e of Text_delta t \<Rightarrow> ''content_block_delta'' | Message_stop \<Rightarrow> ''message_stop''
      | Other_event n \<Rightarrow> n)"

definition sse_frame :: "upstream_event \<Rightarrow> string" where
  "sse_frame e = ''event: '' @ event_name e @ nl # ''data: '' @ stringify (event_payload e) @ [nl, nl]"

definition event_ok :: "upstream_event \<Rightarrow> bool" where
  "event_ok e =
     (case e of Other_event n \<Rightarrow> n \<noteq> ''content_block_delta'' \<and> n \<noteq> ''message_stop'' \<and> nl \<notin> set n
      | _ \<Rightarrow> True)"

text \<open>The contract: each non-empty text delta is forwarded as one content frame, each
  \<open>message_stop\<close> becomes one terminal frame, everything else is dropped.\<close>

fun relay_spec :: "upstream_event \<Rightarrow> relay_event list" where
  "relay_spec (Text_delta t) = (if t = [] then [] else [Content (JStr t)])"
| "relay_spec Message_stop = [Done]"
| "relay_spec (Other_event n) = []"

text \<open>The lines of one upstream frame.\<close>

abbreviation frame_lines :: "upstream_event \<Rightarrow> string list" where
  "frame_lines e \<equiv> [''event: '' @ event_name e, ''data: '' @ stringify (event_payload e), []]"

text \<open>What a reader of the frames accumulates (the chat client appends \<open>String(content)\<close>
  of every truthy content field), and the text the upstream generated.\<close>

definition content_text :: "relay_event list \<Rightarrow> string" where
  "content_text evs = concat (map (\<lambda>e. case e of Content v \<Rightarrow> js_to_string v | Done \<Rightarrow> []) evs)"

definition delta_texts :: "upstream_event list \<Rightarrow> string" where
  "delta_texts es = concat (map (\<lambda>e. case e of Text_delta t \<Rightarrow> t | _ \<Rightarrow> []) es)"

subsection \<open>A client that goes away\<close>

text \<open>The writer of the \<open>TransformStream\<close> as the relay sees it when the browser may
  disconnect: it accepts the first \<open>cap\<close> frames and rejects every later write.  The
  relay awaits each write inside the per-line \<open>try\<close> (lines 180--185), so a rejected
  write is swallowed by the \<open>catch\<close> of line 186 and the loop goes on reading; the
  \<open>finally\<close> then awaits \<open>writer.close()\<close> on the errored stream, which rejects, and that
  rejection replaces a read error as the async function's unhandled one.  \<open>pulled\<close> counts
  the upstream reads.\<close>

record writer =
  sent :: "relay_event list"
  failed_writes :: nat

definition write_frame :: "nat \<Rightarrow> writer \<Rightarrow> relay_event \<Rightarrow> writer" where
  "write_frame cap w e =
     (if length (sent w) < cap then w\<lparr>sent := sent w @ [e]\<rparr> else w\<lparr>failed_writes := Suc (failed_writes w)\<rparr>)"

record relay_w =
  wbuffer :: string
  wstate :: writer
  pulled :: nat

definition relay_chunk_w :: "nat \<Rightarrow> relay_w \<Rightarrow> string \<Rightarrow> relay_w" where
  "relay_chunk_w cap st v =
     (let pieces = split_on nl (wbuffer st @ v)
      in st\<lparr>wbuffer := last pieces,
            wstate := foldl (write_frame cap) (wstate st) (concat (map process_line (butlast pieces))),
            pulled := Suc (pulled st)\<rparr>)"

fun relay_reads_w :: "nat \<Rightarrow> relay_w \<Rightarrow> string list \<Rightarrow> relay_w" where
  "relay_reads_w cap st [] = st"
| "relay_reads_w cap st (v # vs) = relay_reads_w cap (relay_chunk_w cap st v) vs"

datatype rejection = Read_failed string | Close_failed

record relay_w_outcome =
  delivered :: "relay_event list"
  pulled_chunks :: nat
  w_unhandled :: "rejection option"

definition writer_init :: writer where
  "writer_init = \<lparr>sent = [], failed_writes = 0\<rparr>"

text \<open>Lines 160--195 with that writer.\<close>

definition relay_stream_w :: "nat \<Rightarrow> string list \<Rightarrow> stream_end \<Rightarrow> relay_w_outcome" where
  "relay_stream_w cap chunks fin =
     (let st = relay_reads_w cap \<lparr>wbuffer = [], wstate = writer_init, pulled = 0\<rparr> chunks
      in \<lparr>delivered = sent (wstate st), pulled_chunks = pulled st,
          w_unhandled = (if failed_writes (wstate st) = 0
                         then (case fin of End_ok \<Rightarrow> None | End_error m \<Rightarrow> Some (Read_failed m))
                         else Some Close_failed)\<rparr>)"

subsection \<open>The loop refines a function of the concatenated input\<close>

lemma relay_chunk_buffer: "nl \<notin> set (buffer (relay_chunk st v))"
  by (simp add: relay_chunk_def Let_def last_split_on)

lemma relay_reads_buffer: "nl \<notin> set (buffer st) \<Longrightarrow> nl \<notin> set (buffer (relay_reads st cs))"
  by (induction cs arbitrary: st) (simp_all add: relay_chunk_buffer)

lemma relay_reads_batch:
  assumes "nl \<notin> set (buffer st)"
  shows "relay_reads st cs =
           (let pieces = split_on nl (buffer st @ concat cs)
            in st\<lparr>buffer := last pieces, written := written st @ concat (map process_line (butlast pieces))\<rparr>)"
  using assms
proof (induction cs arbitrary: st)
  case Nil
  then show ?case by simp
next
  case (Cons v vs)
  let ?X = "buffer st @ v"
  have IH: "relay_reads (relay_chunk st v) vs =
      (let pieces = split_on nl (buffer (relay_chunk st v) @ concat vs)
       in (relay_chunk st v)\<lparr>buffer := last pieces,
            written := written (relay_chunk st v) @ concat (map process_line (butlast pieces))\<rparr>)"
    using Cons.IH relay_chunk_buffer by blast
  have split: "split_on nl (?X @ concat vs) =
      butlast (split_on nl ?X) @ split_on nl (last (split_on nl ?X) @ concat vs)"
    by (rule split_on_append_last)
  show ?case
    using IH split by (simp add: relay_chunk_def Let_def butlast_append)
qed

lemma relay_stream_batch:
  "relay_stream cs fin =
     \<lparr>events = concat (map process_line (butlast (split_on nl (concat cs)))), closed = True,
      unhandled = (case fin of End_ok \<Rightarrow> None | End_error m \<Rightarrow> Some m),
      leftover = last (split_on nl (concat cs))\<rparr>"
  by (simp add: relay_stream_def relay_reads_batch relay_init_def Let_def)

text \<open>C4: Where the upstream's chunk boundaries fall does not matter: two chunkings of the same text give the same outcome, also when a boundary splits a line.\<close>

theorem relay_chunking_irrelevant:
  "concat cs = concat cs' \<Longrightarrow> relay_stream cs fin = relay_stream cs' fin"
  by (simp add: relay_stream_batch)

lemma relay_stream_lines:
  assumes "\<forall>l \<in> set ls. nl \<notin> set l" "concat cs = concat (map (\<lambda>l. l @ [nl]) ls)"
  shows "events (relay_stream cs fin) = concat (map process_line ls)
         \<and> leftover (relay_stream cs fin) = []"
  using assms by (simp add: relay_stream_batch split_on_terminated)

lemma process_line_data_obj:
  assumes "wf_json (JObj kvs)"
  shows "process_line (''data: '' @ stringify (JObj kvs)) = handle_parsed (JObj kvs)"
proof -
  let ?x = "stringify (JObj kvs)"
  have "js_trim ?x = ?x"
    by (rule js_trim_id) (simp_all add: js_space_def)
  moreover have "?x \<noteq> ''[DONE]''" by simp
  moreover have "json_parse ?x = Some (JObj kvs)" using assms by (rule json_parse_stringify)
  moreover have "starts_with ''data: '' (''data: '' @ ?x)" by (rule starts_with_append)
  moreover have "drop 6 (''data: '' @ ?x) = ?x" by simp
  ultimately show ?thesis by (simp add: process_line_def del: stringify.simps)
qed

lemma process_line_other:
  "process_line (''event: '' @ n) = []" "process_line [] = []"
  by (simp_all add: process_line_def starts_with_def)

lemma wf_event_payload: "wf_json (event_payload e)"
  by (cases e) (simp_all add: event_payload_def parse_number_def scan_int_def scan_frac_def scan_exp_def)

lemma handle_event_payload: "event_ok e \<Longrightarrow> handle_parsed (event_payload e) = relay_spec e"
  by (cases e) (auto simp: handle_parsed_def event_payload_def js_get_def delta_text_def event_ok_def)

lemma sse_frame_lines:
  "sse_frame e = concat (map (\<lambda>l. l @ [nl]) [''event: '' @ event_name e, ''data: '' @ stringify (event_payload e), []])"
  by (simp add: sse_frame_def)

lemma process_data_payload:
  "process_line (''data: '' @ stringify (event_payload e)) = handle_parsed (event_payload e)"
proof -
  obtain kvs where "event_payload e = JObj kvs" by (cases e) (simp_all add: event_payload_def)
  moreover from this wf_event_payload [of e] have "wf_json (JObj kvs)" by simp
  ultimately show ?thesis using process_line_data_obj [of kvs] by simp
qed

lemma process_sse_frame:
  "event_ok e \<Longrightarrow>
     concat (map process_line [''event: '' @ event_name e, ''data: '' @ stringify (event_payload e), []]) = relay_spec e"
  using process_data_payload [of e] process_line_other(1) [of "event_name e"] process_line_other(2) handle_event_payload [of e]
  by (simp del: stringify.simps)

subsection \<open>The transformer meets its contract\<close>

lemma frame_lines_no_nl: "event_ok e \<Longrightarrow> \<forall>l \<in> set (frame_lines e). nl \<notin> set l"
  using stringify_no_nl [OF wf_event_payload [of e]]
  by (cases e) (simp_all add: event_ok_def event_name_def del: stringify.simps)

lemma relay_stream_sse:
  assumes "list_all event_ok es" "concat cs = concat (map sse_frame es)"
  shows "events (relay_stream cs fin) = concat (map relay_spec es) \<and> leftover (relay_stream cs fin) = []"
proof -
  let ?ls = "concat (map frame_lines es)"
  have nl: "\<forall>l \<in> set ?ls. nl \<notin> set l"
    using assms(1) frame_lines_no_nl by (fastforce simp: list_all_iff)
  have "concat (map sse_frame es) = concat (map (\<lambda>l. l @ [nl]) ?ls)"
    by (induction es) (simp_all only: sse_frame_lines list.map concat.simps map_append concat_append)
  with assms(2) have cs: "concat cs = concat (map (\<lambda>l. l @ [nl]) ?ls)" by simp
  have "concat (map process_line ?ls) = concat (map relay_spec es)"
    using assms(1)
  proof (induction es)
    case (Cons e es)
    have "concat (map process_line (concat (map frame_lines (e # es))))
        = concat (map process_line (frame_lines e)) @ concat (map process_line (concat (map frame_lines es)))"
      by (simp only: list.map concat.simps map_append concat_append)
    then show ?case using Cons process_sse_frame [of e] by (simp del: stringify.simps)
  qed simp
  with relay_stream_lines [OF nl cs] show ?thesis by simp
qed

lemma content_text_spec: "content_text (concat (map relay_spec es)) = delta_texts es"
proof (induction es)
  case (Cons e es)
  then show ?case by (cases e) (simp_all add: content_text_def delta_texts_def)
qed (simp add: content_text_def delta_texts_def)

text \<open>C6: The text of the content frames, joined in emission order, is the concatenation of the upstream's text deltas in arrival order: nothing is lost, duplicated or reordered.\<close>

theorem relay_preserves_content:
  assumes "list_all event_ok es" "concat cs = concat (map sse_frame es)"
  shows "content_text (events (relay_stream cs fin)) = delta_texts es"
  using relay_stream_sse [OF assms] content_text_spec by simp

lemma count_Done_spec: "count_list (concat (map relay_spec es)) Done = count_list es Message_stop"
proof (induction es)
  case (Cons e es)
  then show ?case by (cases e) simp_all
qed simp

text \<open>C7: A stream whose only message_stop comes last yields exactly one terminal frame, and it is the last frame written.\<close>

theorem relay_one_done_last:
  assumes "list_all event_ok (pre @ [Message_stop])" "Message_stop \<notin> set pre"
    and "concat cs = concat (map sse_frame (pre @ [Message_stop]))"
  shows "\<exists>xs. events (relay_stream cs fin) = xs @ [Done] \<and> Done \<notin> set xs"
proof -
  have "events (relay_stream cs fin) = concat (map relay_spec pre) @ [Done]"
    using relay_stream_sse [OF assms(1,3)] by simp
  moreover have "count_list (concat (map relay_spec pre)) Done = 0"
    using assms(2) count_Done_spec [of pre] by (simp add: count_list_0_iff)
  ultimately show ?thesis by (auto simp: count_list_0_iff)
qed

text \<open>C23: A read error of the upstream body after the response has started writes nothing in band: the frames are those of a clean end, the writer is closed, and the error only surfaces as an unhandled rejection.\<close>

theorem relay_error_invisible:
  "events (relay_stream cs (End_error m)) = events (relay_stream cs End_ok)
   \<and> closed (relay_stream cs (End_error m)) \<and> unhandled (relay_stream cs (End_error m)) = Some m"
  by (simp add: relay_stream_def Let_def)

subsection \<open>Properties of the transformer\<close>

text \<open>C14: After any sequence of reads the transformer has processed exactly the complete
  lines it has received, in order, and holds back exactly the text after the last line feed:
  every complete line is processed by the read that completes it, and the buffer never holds a
  line feed.\<close>

theorem relay_processes_complete_lines:
  "written (relay_reads relay_init cs) = concat (map process_line (butlast (split_on nl (concat cs))))
   \<and> buffer (relay_reads relay_init cs) = last (split_on nl (concat cs))
   \<and> nl \<notin> set (buffer (relay_reads relay_init cs))"
  using relay_reads_batch [of relay_init cs] last_split_on [of nl "concat cs"]
  by (simp add: relay_init_def Let_def)

text \<open>C1: The transformer implements its contract: on every chunking of an upstream event stream it writes exactly one content frame per non-empty text delta and one terminal frame per message_stop, in arrival order, and leaves nothing in its buffer.\<close>

theorem relay_refines_spec:
  assumes "list_all event_ok es" "concat cs = concat (map sse_frame es)"
  shows "events (relay_stream cs fin) = concat (map relay_spec es) \<and> leftover (relay_stream cs fin) = []"
  using relay_stream_sse [OF assms] .

lemma process_line_ignored:
  "js_trim p = ''[DONE]'' \<or> json_parse (js_trim p) = None \<Longrightarrow> process_line (''data: '' @ p) = []"
proof -
  have "starts_with ''data: '' (''data: '' @ p)" by (rule starts_with_append)
  moreover have "drop 6 (''data: '' @ p) = p" by simp
  moreover assume "js_trim p = ''[DONE]'' \<or> json_parse (js_trim p) = None"
  ultimately show ?thesis by (auto simp: process_line_def Let_def)
qed

text \<open>C15: A data line whose payload is the [DONE] sentinel or is not JSON produces no frame and does not disturb the frames of the lines around it.\<close>

theorem relay_skips_line:
  assumes "js_trim p = ''[DONE]'' \<or> json_parse (js_trim p) = None"
    and "\<forall>l \<in> set (pre @ (''data: '' @ p) # post). nl \<notin> set l"
  shows "events (relay_stream (map (\<lambda>l. l @ [nl]) (pre @ (''data: '' @ p) # post)) fin)
       = events (relay_stream (map (\<lambda>l. l @ [nl]) (pre @ post)) fin)"
proof -
  have a: "events (relay_stream (map (\<lambda>l. l @ [nl]) (pre @ (''data: '' @ p) # post)) fin)
      = concat (map process_line (pre @ (''data: '' @ p) # post))"
    using relay_stream_lines [of "pre @ (''data: '' @ p) # post"] assms(2) by simp
  have b: "events (relay_stream (map (\<lambda>l. l @ [nl]) (pre @ post)) fin) = concat (map process_line (pre @ post))"
    using relay_stream_lines [of "pre @ post"] assms(2) by simp
  show ?thesis using a b process_line_ignored [OF assms(1)] by simp
qed

subsection \<open>Witnesses\<close>

text \<open>The end-to-end scenario of the specification, with the stream cut in the middle of
  its second frame.\<close>

subsection \<open>Disconnection\<close>

lemma foldl_write_frame:
  "length (sent w) \<le> cap \<Longrightarrow>
   foldl (write_frame cap) w es =
     w\<lparr>sent := sent w @ take (cap - length (sent w)) es,
       failed_writes := failed_writes w + (length es - (cap - length (sent w)))\<rparr>"
proof (induction es arbitrary: w)
  case (Cons e es)
  show ?case
  proof (cases "length (sent w) < cap")
    case True
    then have "length (sent (write_frame cap w e)) \<le> cap" by (simp add: write_frame_def)
    moreover have "cap - length (sent w) = Suc (cap - Suc (length (sent w)))" using True by arith
    ultimately show ?thesis using Cons.IH [of "write_frame cap w e"] True by (simp add: write_frame_def)
  next
    case False
    with Cons.prems have "length (sent w) = cap" by simp
    then show ?thesis using Cons.IH [of "write_frame cap w e"] by (simp add: write_frame_def)
  qed
qed simp

lemma relay_reads_w_abs:
  "relay_reads_w cap \<lparr>wbuffer = buffer r, wstate = foldl (write_frame cap) w0 (written r), pulled = n\<rparr> cs
   = \<lparr>wbuffer = buffer (relay_reads r cs), wstate = foldl (write_frame cap) w0 (written (relay_reads r cs)),
      pulled = n + length cs\<rparr>"
proof (induction cs arbitrary: r n)
  case (Cons v cs)
  show ?case using Cons.IH [of "relay_chunk r v" "Suc n"] by (simp add: relay_chunk_w_def relay_chunk_def Let_def)
qed simp

text \<open>C24: When the browser disconnects, the relay does not stop: whatever the number of
  frames the client accepted, it receives exactly that prefix of the frames of a connected run,
  every chunk of the upstream is still read to the end, and once a write has failed the final
  close rejects unhandled in place of the upstream's own error.\<close>

theorem relay_disconnect_drains:
  "relay_stream_w cap cs fin =
     \<lparr>delivered = take cap (events (relay_stream cs fin)), pulled_chunks = length cs,
      w_unhandled = (if length (events (relay_stream cs fin)) \<le> cap
                     then map_option Read_failed (unhandled (relay_stream cs fin)) else Some Close_failed)\<rparr>"
proof -
  have "relay_reads_w cap \<lparr>wbuffer = [], wstate = writer_init, pulled = 0\<rparr> cs
      = \<lparr>wbuffer = buffer (relay_reads relay_init cs),
         wstate = foldl (write_frame cap) writer_init (written (relay_reads relay_init cs)), pulled = length cs\<rparr>"
    using relay_reads_w_abs [of cap relay_init writer_init 0 cs] by (simp add: relay_init_def)
  then show ?thesis unfolding relay_stream_w_def relay_stream_def Let_def
    by (simp add: foldl_write_frame writer_init_def split: stream_end.split)
qed

text \<open>A client that leaves before the first frame: nothing is delivered, both upstream
  reads are still made, and the close is the unhandled rejection.\<close>

lemma disconnect_still_reads:
  "relay_stream_w 0 [sse_frame (Text_delta ''Hi''), sse_frame Message_stop] End_ok
   = \<lparr>delivered = [], pulled_chunks = 2, w_unhandled = Some Close_failed\<rparr>"
  by code_simp

theorem relay_refines_spec_witness:
  "events (relay_stream
     [take 60 (concat (map sse_frame [Other_event ''message_start'', Text_delta ''VotePoll'',
                                      Text_delta '' and AgencyBooking.'', Message_stop])),
      drop 60 (concat (map sse_frame [Other_event ''message_start'', Text_delta ''VotePoll'',
                                      Text_delta '' and AgencyBooking.'', Message_stop]))] End_ok)
   = [Content (JStr ''VotePoll''), Content (JStr '' and AgencyBooking.''), Done]"
proof -
  let ?es = "[Other_event ''message_start'', Text_delta ''VotePoll'', Text_delta '' and AgencyBooking.'', Message_stop]"
  have ok: "list_all event_ok ?es" by (simp add: event_ok_def)
  have cs: "concat [take 60 (concat (map sse_frame ?es)), drop 60 (concat (map sse_frame ?es))]
      = concat (map sse_frame ?es)" by (simp only: concat.simps append_Nil2 append_take_drop_id)
  from relay_refines_spec [OF ok cs, of End_ok] show ?thesis by simp
qed

theorem relay_chunking_irrelevant_witness:
  "relay_stream [''dat'', ''a: {\"type\":\"content_block_delta\",\"delta\":{\"text\":\"hi\"}}'' @ [nl, nl]] End_ok
   = relay_stream [''data: {\"type\":\"content_block_delta\",\"delta\":{\"text\":\"hi\"}}'' @ [nl, nl]] End_ok
   \<and> events (relay_stream [''dat'', ''a: {\"type\":\"content_block_delta\",\"delta\":{\"text\":\"hi\"}}'' @ [nl, nl]] End_ok)
     = [Content (JStr ''hi'')]"
proof
  show "relay_stream [''dat'', ''a: {\"type\":\"content_block_delta\",\"delta\":{\"text\":\"hi\"}}'' @ [nl, nl]] End_ok
      = relay_stream [''data: {\"type\":\"content_block_delta\",\"delta\":{\"text\":\"hi\"}}'' @ [nl, nl]] End_ok"
    by (rule relay_chunking_irrelevant) simp
  show "events (relay_stream [''dat'', ''a: {\"type\":\"content_block_delta\",\"delta\":{\"text\":\"hi\"}}'' @ [nl, nl]] End_ok)
      = [Content (JStr ''hi'')]"
    by code_simp
qed

theorem relay_skips_line_witness:
  "events (relay_stream (map (\<lambda>l. l @ [nl])
      [''data: {\"type\":\"message_stop\"}'', ''data: {bad'', ''data: [DONE]'']) End_ok)
   = events (relay_stream (map (\<lambda>l. l @ [nl]) [''data: {\"type\":\"message_stop\"}'', ''data: [DONE]'']) End_ok)"
proof -
  have h1: "js_trim ''{bad'' = ''[DONE]'' \<or> json_parse (js_trim ''{bad'') = None" by code_simp
  have h2: "\<forall>l \<in> set ([''data: {\"type\":\"message_stop\"}''] @ (''data: '' @ ''{bad'') # [''data: [DONE]'']). nl \<notin> set l"
    by simp
  from relay_skips_line [OF h1 h2, of End_ok] show ?thesis by simp
qed

theorem relay_preserves_content_witness:
  "content_text (events (relay_stream
      [concat (map sse_frame [Text_delta ''Vote'', Other_event ''ping'', Text_delta ''Poll'', Message_stop])] End_ok))
   = ''VotePoll''"
proof -
  let ?es = "[Text_delta ''Vote'', Other_event ''ping'', Text_delta ''Poll'', Message_stop]"
  have ok: "list_all event_ok ?es" by (simp add: event_ok_def)
  have cs: "concat [concat (map sse_frame ?es)] = concat (map sse_frame ?es)" by simp
  from relay_preserves_content [OF ok cs, of End_ok] show ?thesis by (simp add: delta_texts_def)
qed

theorem relay_one_done_last_witness:
  "\<exists>xs. events (relay_stream [concat (map sse_frame [Text_delta ''Hi'', Message_stop])] End_ok) = xs @ [Done]
        \<and> Done \<notin> set xs"
proof -
  have ok: "list_all event_ok ([Text_delta ''Hi''] @ [Message_stop])" by (simp add: event_ok_def)
  have ms: "Message_stop \<notin> set [Text_delta ''Hi'']" by simp
  have cs: "concat [concat (map sse_frame [Text_delta ''Hi'', Message_stop])]
      = concat (map sse_frame ([Text_delta ''Hi''] @ [Message_stop]))" by simp
  from relay_one_done_last [OF ok ms cs, of End_ok] show ?thesis .
qed

end
