(* ===== verification/Handler.thy ===== *)
theory Handler
  imports Relay Prompt
begin

text \<open>
  The request handler of \<open>src/api/chat.js\<close> (\<open>handler\<close>, lines 94--210).  It is
  split at its only call to the network: \<open>chat_front\<close> is everything before
  \<open>fetch\<close> (method check, credential check, body parse, \<open>messages\<close> check, the
  projection of the conversation, the upstream request), \<open>chat_back\<close> everything after
  it (the error reply, the streaming reply, the \<open>catch\<close>).  \<open>chat_handler\<close> composes
  them over an upstream given as a function, and also returns the list of upstream requests
  made, so that "no upstream call" is a statement about that list.  An exception that leaves
  the handler (outside its \<open>try\<close>) is the result \<open>Throws\<close>: the platform then answers
  with its own error page, not with a JSON body of the code.
\<close>

record request =
  req_method :: string
  body :: string

datatype resp_body = Json_body json | Stream_body relay_outcome

record response =
  status :: nat
  headers :: "(string \<times> string) list"
  resp_body :: resp_body

datatype handler_result = Respond response | Throws string

record upstream_request =
  url :: string
  req_headers :: "(string \<times> string) list"
  req_body :: json

text \<open>How the upstream answers \<open>fetch\<close>: the promise rejects (network failure), or it
  resolves with a status and a body that is read as chunks and then ends.\<close>

datatype upstream_reply = Fetch_rejected string | Reply nat "string list" stream_end

subsection \<open>Responses the code builds\<close>

definition json_response :: "nat \<Rightarrow> json \<Rightarrow> response" where
  "json_response st v = \<lparr>status = st, headers = [(''Content-Type'', ''application/json'')],
                         resp_body = Json_body v\<rparr>"

definition error_json :: "string \<Rightarrow> json" where
  "error_json msg = JObj [(''error'', JStr msg)]"

definition sse_headers :: "(string \<times> string) list" where
  "sse_headers = [(''Content-Type'', ''text/event-stream''), (''Cache-Control'', ''no-cache''),
                  (''Connection'', ''keep-alive'')]"

subsection \<open>Before the upstream call\<close>

definition opt_field :: "string \<Rightarrow> json option \<Rightarrow> (string \<times> json) list" where
  "opt_field k v = (case v of None \<Rightarrow> [] | Some x \<Rightarrow> [(k, x)])"

text \<open>Lines 118--121: \<open>messages.map(m => ({role: m.role, content: m.content}))\<close>.
  A \<open>null\<close> element makes \<open>m.role\<close> throw; a property that is \<open>undefined\<close> is
  left out when the object is stringified.\<close>

fun anthropic_messages :: "json list \<Rightarrow> json list option" where
  "anthropic_messages [] = Some []"
| "anthropic_messages (m # ms) =
     (if m = JNull then None
      else map_option (\<lambda>rest. JObj (opt_field ''role'' (js_get m ''role'') @
                                     opt_field ''content'' (js_get m ''content'')) # rest)
             (anthropic_messages ms))"

text \<open>Lines 124--138: the request to the completion endpoint.\<close>

definition upstream_request :: "string \<Rightarrow> json list \<Rightarrow> upstream_request" where
  "upstream_request key ams =
     \<lparr>url = ''https://api.anthropic.com/v1/messages'',
      req_headers = [(''Content-Type'', ''application/json''), (''x-api-key'', key),
                     (''anthropic-version'', ''2023-06-01'')],
      req_body = JObj [(''model'', JStr ''claude-haiku-4-5-20251001''), (''max_tokens'', JNum ''1024''),
                       (''system'', JStr system_prompt), (''messages'', JArr ams),
                       (''stream'', JBool True)]\<rparr>"

datatype front = Finish handler_result | Call upstream_request

text \<open>Lines 95--138 up to the \<open>fetch\<close>.  \<open>key\<close> is
  \<open>process.env.ANTHROPIC_API_KEY\<close>; an empty value is falsy like a missing one.
  \<open>await req.json()\<close> and the destructuring of its result are outside the \<open>try\<close>.\<close>

definition chat_front :: "string option \<Rightarrow> request \<Rightarrow> front" where
  "chat_front key req =
     (if req_method req \<noteq> ''POST'' then Finish (Respond (json_response 405 (error_json ''Method not allowed'')))
      else
        (case key of
           None \<Rightarrow> Finish (Respond (json_response 500 (error_json ''ANTHROPIC_API_KEY is not configured'')))
         | Some k \<Rightarrow>
             if k = [] then Finish (Respond (json_response 500 (error_json ''ANTHROPIC_API_KEY is not configured'')))
             else
               (case json_parse (body req) of
                  None \<Rightarrow> Finish (Throws ''SyntaxError'')
                | Some v \<Rightarrow>
                    if v = JNull then Finish (Throws ''TypeError'')
                    else
                      (case js_get v ''messages'' of
                         Some (JArr ms) \<Rightarrow>
                           (case anthropic_messages ms of
                              None \<Rightarrow> Finish (Throws ''TypeError'')
                            | Some ams \<Rightarrow> Call (upstream_request k ams))
                       | _ \<Rightarrow> Finish (Respond (json_response 400 (error_json ''messages array is required'')))))))"

subsection \<open>After the upstream call\<close>

text \<open>Lines 141--148: \<open>errData.error?.message\<close> if the error body is JSON and the
  field is truthy, the fixed message otherwise (a parse error, or \<open>null.error\<close>, is
  caught).\<close>

definition upstream_error_message :: "string \<Rightarrow> json" where
  "upstream_error_message err_text =
     (let fallback = JStr ''Anthropic API request failed'' in
      case json_parse err_text of
        None \<Rightarrow> fallback
      | Some d \<Rightarrow>
          if d = JNull then fallback
          else
            (case js_get d ''error'' of
               None \<Rightarrow> fallback
             | Some e \<Rightarrow>
                 if e = JNull then fallback
                 else (case js_get e ''message'' of
                         Some m \<Rightarrow> if js_truthy m then m else fallback
                       | None \<Rightarrow> fallback)))"

definition connect_error :: "string \<Rightarrow> response" where
  "connect_error m = json_response 502 (JObj [(''error'', JStr ''Cannot connect to Anthropic API''), (''detail'', JStr m)])"

text \<open>Lines 140--153, 155--203 and the \<open>catch\<close> of lines 204--209.  For an error
  status \<open>response.text()\<close> reads the whole body; if that read fails the exception is
  caught as a connection failure.  For a success status the relay of \<open>Relay\<close> runs on
  the body and the response streams what it writes.\<close>

definition chat_back :: "upstream_reply \<Rightarrow> handler_result" where
  "chat_back rep =
     (case rep of
        Fetch_rejected m \<Rightarrow> Respond (connect_error m)
      | Reply st chunks fin \<Rightarrow>
          if 200 \<le> st \<and> st \<le> 299 then
            Respond \<lparr>status = 200, headers = sse_headers, resp_body = Stream_body (relay_stream chunks fin)\<rparr>
          else
            (case fin of
               End_error m \<Rightarrow> Respond (connect_error m)
             | End_ok \<Rightarrow>
                 Respond (json_response 502
                   (JObj [(''error'', upstream_error_message (concat chunks)), (''detail'', JStr (concat chunks))]))))"

definition chat_handler ::
  "string option \<Rightarrow> request \<Rightarrow> (upstream_request \<Rightarrow> upstream_reply) \<Rightarrow> handler_result \<times> upstream_request list" where
  "chat_handler key req upstream =
     (case chat_front key req of
        Finish r \<Rightarrow> (r, [])
      | Call q \<Rightarrow> (chat_back (upstream q), [q]))"

subsection \<open>Validation, forwarding and error replies\<close>

text \<open>C16: A request whose method is not POST is answered 405 with a JSON error, whatever its body and the configuration, and no upstream request is made.\<close>

theorem handler_rejects_method:
  "req_method req \<noteq> ''POST'' \<Longrightarrow>
     chat_handler key req up = (Respond (json_response 405 (error_json ''Method not allowed'')), [])"
  by (simp add: chat_handler_def chat_front_def)

text \<open>C17: A POST without a configured credential (absent or empty) is answered 500 with a JSON error before the body is read, and no upstream request is made.\<close>

theorem handler_missing_key:
  "req_method req = ''POST'' \<Longrightarrow> key = None \<or> key = Some [] \<Longrightarrow>
     chat_handler key req up = (Respond (json_response 500 (error_json ''ANTHROPIC_API_KEY is not configured'')), [])"
  by (auto simp: chat_handler_def chat_front_def)

text \<open>C18: A POST whose JSON body has no messages array is answered 400 with a JSON error and no upstream request is made.\<close>

theorem handler_requires_messages_array:
  "req_method req = ''POST'' \<Longrightarrow> key = Some k \<Longrightarrow> k \<noteq> [] \<Longrightarrow> json_parse (body req) = Some v \<Longrightarrow> v \<noteq> JNull \<Longrightarrow>
     (\<forall>ms. js_get v ''messages'' \<noteq> Some (JArr ms)) \<Longrightarrow>
     chat_handler key req up = (Respond (json_response 400 (error_json ''messages array is required'')), [])"
  by (auto simp: chat_handler_def chat_front_def split: option.splits json.splits)

text \<open>C22: A POST whose body is not JSON is not answered 400: the parse error escapes the handler.\<close>

theorem handler_malformed_body_throws:
  "req_method req = ''POST'' \<Longrightarrow> key = Some k \<Longrightarrow> k \<noteq> [] \<Longrightarrow> json_parse (body req) = None \<Longrightarrow>
     chat_handler key req up = (Throws ''SyntaxError'', [])"
  by (simp add: chat_handler_def chat_front_def)


text \<open>C19: A valid request makes exactly one upstream request, and that request is the one
  lines 124--138 build: the fixed endpoint; the JSON content type, the credential as
  \<open>x-api-key\<close> and the API version in its headers; and a body with the fixed model, the token
  limit of 1024, the system prompt of lines 1--88, the projected conversation and the
  streaming flag.  The handler's answer is what \<open>chat_back\<close> makes of the reply.\<close>

theorem handler_forwards:
  assumes "req_method req = ''POST''" "key = Some k" "k \<noteq> []" "json_parse (body req) = Some v"
    "js_get v ''messages'' = Some (JArr ms)" "anthropic_messages ms = Some ams"
  shows "\<exists>q. chat_handler key req up = (chat_back (up q), [q])
     \<and> url q = ''https://api.anthropic.com/v1/messages''
     \<and> map_of (req_headers q) ''Content-Type'' = Some ''application/json''
     \<and> map_of (req_headers q) ''x-api-key'' = Some k
     \<and> map_of (req_headers q) ''anthropic-version'' = Some ''2023-06-01''
     \<and> js_get (req_body q) ''model'' = Some (JStr ''claude-haiku-4-5-20251001'')
     \<and> js_get (req_body q) ''max_tokens'' = Some (JNum ''1024'')
     \<and> js_get (req_body q) ''system'' = Some (JStr (join_with nl prompt_lines))
     \<and> js_get (req_body q) ''messages'' = Some (JArr ams)
     \<and> js_get (req_body q) ''stream'' = Some (JBool True)"
proof -
  have "v \<noteq> JNull" using assms(5) by (auto simp: js_get_def)
  with assms have "chat_handler key req up = (chat_back (up (upstream_request k ams)), [upstream_request k ams])"
    by (simp add: chat_handler_def chat_front_def)
  then show ?thesis
    by (intro exI [of _ "upstream_request k ams"]) (simp add: upstream_request_def js_get_def system_prompt_def)
qed

lemma anthropic_messages_turns:
  "anthropic_messages (map (\<lambda>(r, c). JObj [(''role'', JStr r), (''content'', JStr c)]) turns)
   = Some (map (\<lambda>(r, c). JObj [(''role'', JStr r), (''content'', JStr c)]) turns)"
  by (induction turns) (auto simp: js_get_def opt_field_def)

text \<open>An upstream success status is answered 200 with the event-stream headers and the relay's output as body.\<close>

theorem chat_back_stream:
  "200 \<le> st \<Longrightarrow> st \<le> 299 \<Longrightarrow>
     chat_back (Reply st chunks fin) =
       Respond \<lparr>status = 200, headers = sse_headers, resp_body = Stream_body (relay_stream chunks fin)\<rparr>"
  by (simp add: chat_back_def)

text \<open>C20: When the upstream rejects the request with a JSON error body, the reply's error field is the upstream's error message.\<close>

theorem upstream_error_message_extracts:
  assumes "m \<noteq> []" "list_all (\<lambda>(k, v). wf_json v) fs"
  shows "upstream_error_message (stringify (JObj [(''type'', JStr ''error''),
            (''error'', JObj (fs @ [(''message'', JStr m)]))])) = JStr m"
proof -
  have "wf_json (JObj [(''type'', JStr ''error''), (''error'', JObj (fs @ [(''message'', JStr m)]))])"
    using assms(2) by simp
  then have "json_parse (stringify (JObj [(''type'', JStr ''error''), (''error'', JObj (fs @ [(''message'', JStr m)]))]))
      = Some (JObj [(''type'', JStr ''error''), (''error'', JObj (fs @ [(''message'', JStr m)]))])"
    by (rule json_parse_stringify)
  with assms(1) show ?thesis
    by (simp add: upstream_error_message_def js_get_def Let_def del: stringify.simps)
qed

text \<open>C21: Every response the handler builds has status 200, 400, 405, 500 or 502.\<close>

theorem chat_handler_status:
  "fst (chat_handler key req up) = Respond r \<Longrightarrow> status r \<in> {200, 400, 405, 500, 502}"
  by (auto simp: chat_handler_def chat_front_def chat_back_def json_response_def connect_error_def
      split: front.splits option.splits json.splits if_splits upstream_reply.splits stream_end.splits)

subsection \<open>Witnesses\<close>

lemma js_get_wf: "wf_json v \<Longrightarrow> js_get v k = Some x \<Longrightarrow> wf_json x"
  by (cases v) (auto simp: js_get_def list_all_iff dest!: map_of_SomeD)

lemma anthropic_messages_wf:
  "list_all wf_json ms \<Longrightarrow> anthropic_messages ms = Some ams \<Longrightarrow> list_all wf_json ams"
proof (induction ms arbitrary: ams)
  case (Cons m ms)
  then show ?case
    by (auto simp: opt_field_def js_get_wf split: if_splits option.splits)
qed simp

lemma upstream_request_wf: "list_all wf_json ams \<Longrightarrow> wf_json (req_body (upstream_request k ams))"
  by (simp add: upstream_request_def parse_number_def scan_int_def scan_digits1_def scan_frac_def
      scan_exp_def is_digit_def)

lemma chat_front_call:
  "chat_front key req = Call u \<Longrightarrow>
   \<exists>k v ms ams. json_parse (body req) = Some v \<and> js_get v ''messages'' = Some (JArr ms) \<and>
     anthropic_messages ms = Some ams \<and> u = upstream_request k ams"
  by (auto simp: chat_front_def split: if_splits option.splits json.splits)

text \<open>whenever the handler calls the upstream, the request body it sends is JSON that
  the upstream reads back as exactly the value the handler built: the conversation it forwards
  comes from a parsed body, so every number in it is a valid lexeme.\<close>

theorem chat_front_body_wf:
  "chat_front key req = Call u \<Longrightarrow> json_parse (stringify (req_body u)) = Some (req_body u)"
proof -
  assume "chat_front key req = Call u"
  then obtain k v ms ams where p: "json_parse (body req) = Some v" "js_get v ''messages'' = Some (JArr ms)"
      "anthropic_messages ms = Some ams" "u = upstream_request k ams"
    by (blast dest: chat_front_call)
  have "wf_json (JArr ms)" using p(1,2) by (blast intro: js_get_wf json_parse_wf)
  then have "list_all wf_json ams" using p(3) by (simp add: anthropic_messages_wf)
  then show ?thesis using p(4) by (simp add: upstream_request_wf json_parse_stringify)
qed

theorem handler_rejects_method_witness:
  "chat_handler (Some ''k'') \<lparr>req_method = ''GET'', body = ''{\"messages\":[]}''\<rparr> (\<lambda>q. Fetch_rejected ''unused'')
   = (Respond (json_response 405 (error_json ''Method not allowed'')), [])"
  by (rule handler_rejects_method) simp

theorem handler_missing_key_witness:
  "chat_handler None \<lparr>req_method = ''POST'', body = ''not json''\<rparr> (\<lambda>q. Fetch_rejected ''unused'')
   = (Respond (json_response 500 (error_json ''ANTHROPIC_API_KEY is not configured'')), [])"
  by (rule handler_missing_key) simp_all

theorem handler_requires_messages_array_witness:
  "chat_handler (Some ''k'') \<lparr>req_method = ''POST'', body = ''{\"messages\":\"hi\"}''\<rparr> (\<lambda>q. Fetch_rejected ''unused'')
   = (Respond (json_response 400 (error_json ''messages array is required'')), [])"
proof (rule handler_requires_messages_array [where k = "''k''"])
  show "json_parse (body \<lparr>req_method = ''POST'', body = ''{\"messages\":\"hi\"}''\<rparr>)
      = Some (JObj [(''messages'', JStr ''hi'')])" by code_simp
  show "\<forall>ms. js_get (JObj [(''messages'', JStr ''hi'')]) ''messages'' \<noteq> Some (JArr ms)"
    by (simp add: js_get_def)
qed simp_all

theorem handler_malformed_body_throws_witness:
  "chat_handler (Some ''k'') \<lparr>req_method = ''POST'', body = ''{messages: []}''\<rparr> (\<lambda>q. Fetch_rejected ''unused'')
   = (Throws ''SyntaxError'', [])"
  by (rule handler_malformed_body_throws) code_simp+

theorem handler_forwards_witness:
  "\<exists>q. chat_handler (Some ''k'') \<lparr>req_method = ''POST'', body = ''{\"messages\":[{\"role\":\"user\",\"content\":\"Hi\"}]}''\<rparr>
         (\<lambda>q. Fetch_rejected ''offline'') = (Respond (connect_error ''offline''), [q])
     \<and> map_of (req_headers q) ''x-api-key'' = Some ''k''
     \<and> js_get (req_body q) ''messages'' = Some (JArr [JObj [(''role'', JStr ''user''), (''content'', JStr ''Hi'')]])"
proof -
  have "\<exists>q. chat_handler (Some ''k'') \<lparr>req_method = ''POST'', body = ''{\"messages\":[{\"role\":\"user\",\"content\":\"Hi\"}]}''\<rparr>
         (\<lambda>q. Fetch_rejected ''offline'') = (chat_back ((\<lambda>q. Fetch_rejected ''offline'') q), [q])
     \<and> url q = ''https://api.anthropic.com/v1/messages''
     \<and> map_of (req_headers q) ''Content-Type'' = Some ''application/json''
     \<and> map_of (req_headers q) ''x-api-key'' = Some ''k''
     \<and> map_of (req_headers q) ''anthropic-version'' = Some ''2023-06-01''
     \<and> js_get (req_body q) ''model'' = Some (JStr ''claude-haiku-4-5-20251001'')
     \<and> js_get (req_body q) ''max_tokens'' = Some (JNum ''1024'')
     \<and> js_get (req_body q) ''system'' = Some (JStr (join_with nl prompt_lines))
     \<and> js_get (req_body q) ''messages'' = Some (JArr [JObj [(''role'', JStr ''user''), (''content'', JStr ''Hi'')]])
     \<and> js_get (req_body q) ''stream'' = Some (JBool True)"
  proof (rule handler_forwards [where k = "''k''"])
    show "anthropic_messages [JObj [(''role'', JStr ''user''), (''content'', JStr ''Hi'')]]
        = Some [JObj [(''role'', JStr ''user''), (''content'', JStr ''Hi'')]]"
      by (simp add: js_get_def opt_field_def)
    show "json_parse (body \<lparr>req_method = ''POST'', body = ''{\"messages\":[{\"role\":\"user\",\"content\":\"Hi\"}]}''\<rparr>)
        = Some (JObj [(''messages'', JArr [JObj [(''role'', JStr ''user''), (''content'', JStr ''Hi'')]])])"
      by code_simp
  qed (simp_all add: js_get_def opt_field_def)
  then show ?thesis by (auto simp: chat_back_def)
qed

theorem upstream_error_message_extracts_witness:
  "upstream_error_message (stringify (JObj [(''type'', JStr ''error''),
     (''error'', JObj ([(''type'', JStr ''rate_limit_error'')] @ [(''message'', JStr ''Overloaded'')]))]))
   = JStr ''Overloaded''"
  by (rule upstream_error_message_extracts) simp_all

theorem chat_back_stream_witness:
  "chat_back (Reply 200 [''data: [DONE]''] End_ok)
   = Respond \<lparr>status = 200, headers = sse_headers, resp_body = Stream_body (relay_stream [''data: [DONE]''] End_ok)\<rparr>"
  by (rule chat_back_stream) simp_all

theorem chat_handler_status_witness:
  "status (json_response 405 (error_json ''Method not allowed'')) \<in> {200, 400, 405, 500, 502}"
proof (rule chat_handler_status)
  show "fst (chat_handler None \<lparr>req_method = ''PUT'', body = []\<rparr> (\<lambda>q. Fetch_rejected []))
      = Respond (json_response 405 (error_json ''Method not allowed''))"
    by (simp add: chat_handler_def chat_front_def)
qed

theorem chat_front_body_wf_witness:
  "chat_front (Some ''k'') \<lparr>req_method = ''POST'', body = ''{\"messages\":[{\"role\":\"user\",\"content\":\"Hi\"}]}''\<rparr>
     = Call (upstream_request ''k'' [JObj [(''role'', JStr ''user''), (''content'', JStr ''Hi'')]])
   \<and> json_parse (stringify (req_body (upstream_request ''k'' [JObj [(''role'', JStr ''user''), (''content'', JStr ''Hi'')]])))
     = Some (req_body (upstream_request ''k'' [JObj [(''role'', JStr ''user''), (''content'', JStr ''Hi'')]]))"
proof
  show c: "chat_front (Some ''k'') \<lparr>req_method = ''POST'', body = ''{\"messages\":[{\"role\":\"user\",\"content\":\"Hi\"}]}''\<rparr>
     = Call (upstream_request ''k'' [JObj [(''role'', JStr ''user''), (''content'', JStr ''Hi'')]])"
  proof -
    have "json_parse ''{\"messages\":[{\"role\":\"user\",\"content\":\"Hi\"}]}''
        = Some (JObj [(''messages'', JArr [JObj [(''role'', JStr ''user''), (''content'', JStr ''Hi'')]])])"
      by code_simp
    then show ?thesis by (simp add: chat_front_def js_get_def opt_field_def)
  qed
  then show "json_parse (stringify (req_body (upstream_request ''k'' [JObj [(''role'', JStr ''user''), (''content'', JStr ''Hi'')]])))
     = Some (req_body (upstream_request ''k'' [JObj [(''role'', JStr ''user''), (''content'', JStr ''Hi'')]]))"
    by (rule chat_front_body_wf)
qed

end
