(* ===== verification/Client.thy ===== *)
theory Client
  imports Handler
begin

text \<open>
  The chat window of \<open>src/app/src/components/ChatWindow.tsx\<close> and the part of
  \<open>src/app/src/App.tsx\<close> that mounts it.  Its state (\<open>messages\<close>, \<open>input\<close>,
  \<open>isLoading\<close>) is the record \<open>chat_state\<close>; \<open>sendMessage\<close> is split at its
  \<open>await fetch\<close> into \<open>send_start\<close> (the synchronous prefix, which builds the
  request body) and \<open>send_finish\<close> (the rest, given what \<open>fetch\<close> settles with); the
  stream reader of lines 75--103 is \<open>read_line\<close>, \<open>read_chunk\<close> and \<open>read_all\<close>.
  The user's events and the settling of a fetch form the datatype \<open>ui_event\<close>, and
  \<open>chat_event\<close> is the window's step function over a \<open>session\<close> (the state plus the
  placeholder id held by a suspended \<open>sendMessage\<close>).  Results: the invariant of
  reachable sessions, the shape of every request the window sends, no second request while
  one is in flight, the text the window shows for a stream read in whole frames, and the
  loss of a frame split across two reads (the reader keeps no carry-over buffer).
\<close>

subsection \<open>Messages and state (lines 5--24)\<close>

datatype chat_role = User | Assistant

fun role_name :: "chat_role \<Rightarrow> string" where
  "role_name User = ''user''"
| "role_name Assistant = ''assistant''"

text \<open>The \<open>id\<close> of a message is \<open>Date.now().toString()\<close> (or that plus one); the model
  keeps the number, \<open>toString\<close> being injective on it, so the welcome message's
  \<open>'0'\<close> is \<open>0\<close>.\<close>

record message =
  msg_id :: nat
  role :: chat_role
  content :: string

record chat_state =
  messages :: "message list"
  input :: string
  is_loading :: bool

definition welcome_text :: string where
  "welcome_text = ''Hi! I'' @ [CHR 0x27] @ ''m Mouad'' @ [CHR 0x27]
     @ ''s AI assistant. Ask me anything about his skills, projects, or experience!''"

definition welcome_message :: message where
  "welcome_message = \<lparr>msg_id = 0, role = Assistant, content = welcome_text\<rparr>"

definition chat_init :: chat_state where
  "chat_init = \<lparr>messages = [welcome_message], input = [], is_loading = False\<rparr>"

subsection \<open>\<open>sendMessage\<close> up to its \<open>fetch\<close> (lines 36--64)\<close>

text \<open>The body of the request: every message but the welcome, as \<open>{role, content}\<close>.\<close>

definition msg_json :: "message \<Rightarrow> json" where
  "msg_json m = JObj [(''role'', JStr (role_name (role m))), (''content'', JStr (content m))]"

definition request_body :: "message list \<Rightarrow> string" where
  "request_body ms = stringify (JObj [(''messages'', JArr (map msg_json (filter (\<lambda>m. msg_id m \<noteq> 0) ms)))])"

text \<open>\<open>(overrideText || input).trim()\<close>; an empty text or a pending request returns
  early.  Otherwise the user's message (id \<open>now\<close>) and an empty assistant placeholder
  (id \<open>now + 1\<close>) are appended, the input cleared, the window marked loading; the result
  is the new state, the placeholder's id and the body posted.\<close>

definition send_start :: "nat \<Rightarrow> string option \<Rightarrow> chat_state \<Rightarrow> (chat_state \<times> nat \<times> string) option" where
  "send_start now override st =
     (let trimmed = js_trim (case override of Some t \<Rightarrow> if t = [] then input st else t | None \<Rightarrow> input st)
      in if trimmed = [] \<or> is_loading st then None
         else (let updated = messages st @ [\<lparr>msg_id = now, role = User, content = trimmed\<rparr>]
               in Some (st\<lparr>messages := updated @ [\<lparr>msg_id = Suc now, role = Assistant, content = []\<rparr>],
                           input := [], is_loading := True\<rparr>,
                        Suc now, request_body updated)))"

subsection \<open>The rest of \<open>sendMessage\<close> (lines 66--129)\<close>

text \<open>Lines 66--72: the message of the error thrown on a non-2xx status.  \<open>response.json()\<close>
  reads the whole body and rejects if the read fails or the body is not JSON; a falsy or
  missing \<open>error\<close> keeps the default.\<close>

definition server_error :: "nat \<Rightarrow> string \<Rightarrow> stream_end \<Rightarrow> string" where
  "server_error code bdy fin =
     (let dflt = ''Server responded with '' @ nat_str code
      in case fin of End_error e \<Rightarrow> dflt
         | End_ok \<Rightarrow> (case json_parse bdy of
                       None \<Rightarrow> dflt
                     | Some v \<Rightarrow> (case js_get v ''error'' of
                                   Some e \<Rightarrow> if js_truthy e then js_to_string e else dflt
                                 | None \<Rightarrow> dflt)))"

text \<open>Lines 89--101, one line that starts with \<open>data: \<close>: \<open>JSON.parse(line.slice(6))\<close>
  and, if \<open>data.content\<close> is truthy, the text appended to \<open>fullContent\<close>; a parse error
  or a \<open>null\<close> is caught and skipped.\<close>

definition data_content :: "string \<Rightarrow> string option" where
  "data_content l =
     (case json_parse (drop 6 l) of
        None \<Rightarrow> None
      | Some v \<Rightarrow> (case js_get v ''content'' of
                    Some c \<Rightarrow> if js_truthy c then Some (js_to_string c) else None
                  | None \<Rightarrow> None))"

text \<open>Lines 93--97: the placeholder's content is replaced by the text so far.\<close>

definition set_content :: "nat \<Rightarrow> string \<Rightarrow> message list \<Rightarrow> message list" where
  "set_content aid c ms = map (\<lambda>m. if msg_id m = aid then m\<lparr>content := c\<rparr> else m) ms"

definition read_line :: "nat \<Rightarrow> string \<times> message list \<Rightarrow> string \<Rightarrow> string \<times> message list" where
  "read_line aid acc l =
     (case data_content l of
        None \<Rightarrow> acc
      | Some c \<Rightarrow> (fst acc @ c, set_content aid (fst acc @ c) (snd acc)))"

text \<open>Lines 85--102: one read is split on line feeds by itself; no part of it is kept for
  the next read.\<close>

definition read_chunk :: "nat \<Rightarrow> string \<times> message list \<Rightarrow> string \<Rightarrow> string \<times> message list" where
  "read_chunk aid acc chunk = foldl (read_line aid) acc (filter (starts_with ''data: '') (split_on nl chunk))"

definition read_all :: "nat \<Rightarrow> string \<times> message list \<Rightarrow> string list \<Rightarrow> string \<times> message list" where
  "read_all aid acc chunks = foldl (read_chunk aid) acc chunks"

definition sorry_text :: "string \<Rightarrow> string" where
  "sorry_text e = ''Sorry, something went wrong: '' @ e @ ''. You can still explore the portfolio directly!''"

definition fallback_text :: string where
  "fallback_text = ''Sorry, I didn'' @ [CHR 0x27] @ ''t get a response. Please try again!''"

text \<open>What \<open>sendMessage\<close> does once \<open>fetch\<close> settles: a rejection, a non-2xx status or a
  failed read ends in the \<open>catch\<close> (the placeholder shows the error); a stream with no
  content gets the fallback; \<open>finally\<close> clears \<open>isLoading\<close>.\<close>

definition send_finish :: "nat \<Rightarrow> upstream_reply \<Rightarrow> chat_state \<Rightarrow> chat_state" where
  "send_finish aid r st =
     (case r of
        Fetch_rejected e \<Rightarrow> st\<lparr>messages := set_content aid (sorry_text e) (messages st), is_loading := False\<rparr>
      | Reply code chunks fin \<Rightarrow>
          (if \<not> (200 \<le> code \<and> code \<le> 299)
           then st\<lparr>messages := set_content aid (sorry_text (server_error code (concat chunks) fin)) (messages st),
                   is_loading := False\<rparr>
           else (let (full, ms) = read_all aid ([], messages st) chunks
                 in case fin of
                      End_error e \<Rightarrow> st\<lparr>messages := set_content aid (sorry_text e) ms, is_loading := False\<rparr>
                    | End_ok \<Rightarrow> st\<lparr>messages := (if full = [] then set_content aid fallback_text ms else ms),
                                   is_loading := False\<rparr>)))"

subsection \<open>The window's events (lines 132--144, 229--259; \<open>App.tsx\<close> lines 23, 79--83)\<close>

definition suggestions :: "string list" where
  "suggestions = [''What projects has Mouad built?'', ''What technologies does he know?'', ''Tell me about his education'']"

text \<open>A session is the window's state and, while a \<open>sendMessage\<close> is suspended at its
  \<open>fetch\<close>, the placeholder id it holds.\<close>

record session =
  view :: chat_state
  inflight :: "nat option"

definition session_init :: session where
  "session_init = \<lparr>view = chat_init, inflight = None\<rparr>"

text \<open>Typing (\<open>onChange\<close>; the input is disabled while loading), the send button (disabled
  when the trimmed input is empty or a request is pending), Enter without Shift in the input,
  a suggestion (shown only while the welcome is the only message), the settling of the
  pending \<open>fetch\<close> (a reply for another placeholder reaches an unmounted window and changes
  nothing), and closing the window, which unmounts it so that it is next mounted afresh.
  The \<open>nat\<close> of a send is \<open>Date.now()\<close>.  A step returns the request bodies it posts.\<close>

datatype ui_event =
    Type_input string
  | Click_send nat
  | Key_enter nat bool
  | Click_suggestion nat nat
  | Fetch_settles nat upstream_reply
  | Close_chat

definition start :: "nat \<Rightarrow> string option \<Rightarrow> session \<Rightarrow> session \<times> string list" where
  "start now override s =
     (case send_start now override (view s) of
        None \<Rightarrow> (s, [])
      | Some (v, aid, b) \<Rightarrow> (\<lparr>view = v, inflight = Some aid\<rparr>, [b]))"

fun chat_event :: "ui_event \<Rightarrow> session \<Rightarrow> session \<times> string list" where
  "chat_event (Type_input t) s =
     (if is_loading (view s) then (s, []) else (s\<lparr>view := (view s)\<lparr>input := t\<rparr>\<rparr>, []))"
| "chat_event (Click_send now) s =
     (if js_trim (input (view s)) = [] \<or> is_loading (view s) then (s, []) else start now None s)"
| "chat_event (Key_enter now shift) s =
     (if shift \<or> is_loading (view s) then (s, []) else start now None s)"
| "chat_event (Click_suggestion now i) s =
     (if length (messages (view s)) = 1 \<and> i < length suggestions
      then start now (Some (suggestions ! i)) s else (s, []))"
| "chat_event (Fetch_settles aid r) s =
     (if inflight s = Some aid then (\<lparr>view = send_finish aid r (view s), inflight = None\<rparr>, []) else (s, []))"
| "chat_event Close_chat s = (session_init, [])"

subsection \<open>What the window renders (lines 146--227)\<close>

text \<open>Each message is a bubble keyed by its id: a user's on the right (\<open>flex-row-reverse\<close>)
  with the user icon, an assistant's on the left with the bot icon, and its text, or the three
  animated dots while the text is empty (\<open>message.content || ...\<close>).\<close>

datatype avatar = User_icon | Bot_icon

datatype bubble_body = Text string | Typing_dots

record bubble =
  bubble_key :: nat
  row_reverse :: bool
  bubble_avatar :: avatar
  bubble_body :: bubble_body

definition message_bubble :: "message \<Rightarrow> bubble" where
  "message_bubble m =
     \<lparr>bubble_key = msg_id m, row_reverse = (role m = User),
      bubble_avatar = (if role m = User then User_icon else Bot_icon),
      bubble_body = (if content m = [] then Typing_dots else Text (content m))\<rparr>"

definition chat_bubbles :: "chat_state \<Rightarrow> bubble list" where
  "chat_bubbles st = map message_bubble (messages st)"

text \<open>The positions of the bubbles that show the typing dots.\<close>

definition dot_positions :: "chat_state \<Rightarrow> nat list" where
  "dot_positions st = [i \<leftarrow> [0..<length (chat_bubbles st)]. bubble_body (chat_bubbles st ! i) = Typing_dots]"

text \<open>Lines 79--103 while the read loop runs: the window after the loop has handled the
  data lines \<open>ls\<close> of a 2xx body, each content line rewriting the placeholder with the text so
  far (lines 93--97), before the loop ends and \<open>finally\<close> clears \<open>isLoading\<close>.  With
  \<open>ls = []\<close> it is the window waiting for the response.\<close>

definition streaming_view :: "nat \<Rightarrow> string list \<Rightarrow> chat_state \<Rightarrow> chat_state" where
  "streaming_view aid ls st = st\<lparr>messages := snd (foldl (read_line aid) ([], messages st) ls)\<rparr>"

text \<open>Lines 148--179: a click on the backdrop or on the close button calls \<open>onClose\<close>;
  a click anywhere else inside the panel stops at the panel's \<open>stopPropagation\<close>.\<close>

datatype click_target = Backdrop | Close_button | Inside_panel

fun click_closes :: "click_target \<Rightarrow> bool" where
  "click_closes Backdrop = True"
| "click_closes Close_button = True"
| "click_closes Inside_panel = False"

definition panel_click :: "click_target \<Rightarrow> session \<Rightarrow> session \<times> string list" where
  "panel_click t s = (if click_closes t then chat_event Close_chat s else (s, []))"

subsection \<open>Reference definitions\<close>

text \<open>The lines of a sequence of reads that the reader looks at, and the text they
  contribute: what the reader would show if it kept no state.\<close>

definition data_lines :: "string list \<Rightarrow> string list" where
  "data_lines cs = concat (map (\<lambda>c. filter (starts_with ''data: '') (split_on nl c)) cs)"

definition line_text :: "string \<Rightarrow> string" where
  "line_text l = (case data_content l of None \<Rightarrow> [] | Some c \<Rightarrow> c)"

definition stream_text :: "string list \<Rightarrow> string" where
  "stream_text cs = concat (map line_text (data_lines cs))"

text \<open>The text that settling with a reply leaves in the placeholder.\<close>

definition shown_text :: "upstream_reply \<Rightarrow> string" where
  "shown_text r =
     (case r of
        Fetch_rejected e \<Rightarrow> sorry_text e
      | Reply code chunks fin \<Rightarrow>
          (if \<not> (200 \<le> code \<and> code \<le> 299) then sorry_text (server_error code (concat chunks) fin)
           else case fin of
                  End_error e \<Rightarrow> sorry_text e
                | End_ok \<Rightarrow> (if stream_text chunks = [] then fallback_text else stream_text chunks)))"

text \<open>The text a relay frame carries to the window, and the frames whose JSON prints and
  parses back.\<close>

fun ev_text :: "relay_event \<Rightarrow> string" where
  "ev_text (Content t) = (if js_truthy t then js_to_string t else [])"
| "ev_text Done = []"

fun event_wf :: "relay_event \<Rightarrow> bool" where
  "event_wf (Content t) = wf_json t"
| "event_wf Done = True"

text \<open>A body of the form the window builds: \<open>JSON.stringify({messages})\<close> with one
  \<open>{role, content}\<close> object per turn.\<close>

definition client_body :: "(string \<times> string) list \<Rightarrow> string" where
  "client_body turns =
     stringify (JObj [(''messages'', JArr (map (\<lambda>(r, c). JObj [(''role'', JStr r), (''content'', JStr c)]) turns))])"

text \<open>The conversation the upstream API accepts: it starts and ends with a user turn,
  the roles alternate, and the last turn is not empty.\<close>

definition turns_ok :: "(string \<times> string) list \<Rightarrow> bool" where
  "turns_ok turns \<longleftrightarrow> odd (length turns) \<and> snd (last turns) \<noteq> []
     \<and> (\<forall>i < length turns. fst (turns ! i) = (if even i then ''user'' else ''assistant''))"

subsection \<open>The invariant of the window\<close>

fun next_role :: "chat_role \<Rightarrow> chat_role" where
  "next_role User = Assistant"
| "next_role Assistant = User"

fun alternating :: "chat_role \<Rightarrow> message list \<Rightarrow> bool" where
  "alternating r [] = True"
| "alternating r (m # ms) = (role m = r \<and> alternating (next_role r) ms)"

text \<open>The welcome message comes first and is never changed; after it, user and assistant
  messages alternate in pairs, none with the welcome's id; a session is loading exactly when
  a \<open>sendMessage\<close> is suspended, and then the last message is its placeholder.\<close>

definition chat_inv :: "session \<Rightarrow> bool" where
  "chat_inv s \<longleftrightarrow>
     (case messages (view s) of
        [] \<Rightarrow> False
      | w # ms \<Rightarrow> w = welcome_message \<and> alternating User ms \<and> even (length ms)
                  \<and> list_all (\<lambda>m. 0 < msg_id m) ms
                  \<and> (case inflight s of
                       None \<Rightarrow> \<not> is_loading (view s)
                     | Some aid \<Rightarrow> is_loading (view s) \<and> ms \<noteq> [] \<and> msg_id (last ms) = aid
                                  \<and> role (last ms) = Assistant))"

text \<open>\<open>Date.now()\<close> is positive.\<close>

fun clock_ok :: "ui_event \<Rightarrow> bool" where
  "clock_ok (Click_send now) = (0 < now)"
| "clock_ok (Key_enter now shift) = (0 < now)"
| "clock_ok (Click_suggestion now i) = (0 < now)"
| "clock_ok e = True"

inductive reachable :: "session \<Rightarrow> bool" where
  init: "reachable session_init"
| step: "reachable s \<Longrightarrow> clock_ok e \<Longrightarrow> reachable (fst (chat_event e s))"

text \<open>A sequence of events, one after the other, collecting the bodies they post; and the
  event that settles the pending \<open>fetch\<close>, if there is one, with a given reply.\<close>

fun chat_run :: "ui_event list \<Rightarrow> session \<Rightarrow> session \<times> string list" where
  "chat_run [] s = (s, [])"
| "chat_run (e # es) s =
     (let (s1, bs1) = chat_event e s; (s2, bs2) = chat_run es s1 in (s2, bs1 @ bs2))"

definition settle_pending :: "upstream_reply \<Rightarrow> session \<Rightarrow> ui_event list" where
  "settle_pending r s = (case inflight s of None \<Rightarrow> [] | Some aid \<Rightarrow> [Fetch_settles aid r])"

text \<open>Only the pending placeholder is empty: with no request in flight every message has
  text; with one, the last message is empty and every other has text.\<close>

definition typing_ok :: "session \<Rightarrow> bool" where
  "typing_ok s \<longleftrightarrow>
     (case inflight s of
        None \<Rightarrow> list_all (\<lambda>m. content m \<noteq> []) (messages (view s))
      | Some aid \<Rightarrow> messages (view s) \<noteq> [] \<and> content (last (messages (view s))) = []
                   \<and> list_all (\<lambda>m. content m \<noteq> []) (butlast (messages (view s))))"

subsection \<open>The reader\<close>

lemma set_content_twice [simp]: "set_content aid c (set_content aid c' ms) = set_content aid c ms"
  by (simp add: set_content_def)

lemma line_text_None: "list_all (\<lambda>l. data_content l = None) ls \<Longrightarrow> concat (map line_text ls) = []"
  by (induction ls) (simp_all add: line_text_def)

lemma foldl_read_line:
  "foldl (read_line aid) (t, ms) ls =
     (t @ concat (map line_text ls),
      if list_all (\<lambda>l. data_content l = None) ls then ms
      else set_content aid (t @ concat (map line_text ls)) ms)"
proof (induction ls arbitrary: t ms)
  case (Cons l ls)
  show ?case
  proof (cases "data_content l")
    case None
    then show ?thesis using Cons by (simp add: read_line_def line_text_def)
  next
    case (Some c)
    then have lc: "line_text l = c" by (simp add: line_text_def)
    show ?thesis
    proof (cases "list_all (\<lambda>l. data_content l = None) ls")
      case True
      then have nil: "concat (map line_text ls) = []" by (rule line_text_None)
      from True Some lc show ?thesis using Cons [of "t @ c" "set_content aid (t @ c) ms"]
        by (simp add: read_line_def nil)
    next
      case False
      with Some lc show ?thesis using Cons [of "t @ c" "set_content aid (t @ c) ms"]
        by (simp add: read_line_def)
    qed
  qed
qed simp

lemma read_all_lines: "read_all aid a cs = foldl (read_line aid) a (data_lines cs)"
  unfolding read_all_def data_lines_def read_chunk_def
  by (induction cs arbitrary: a) simp_all

lemma read_all_shown:
  "read_all aid ([], ms) cs =
     (stream_text cs, if list_all (\<lambda>l. data_content l = None) (data_lines cs) then ms
                      else set_content aid (stream_text cs) ms)"
  by (simp add: read_all_lines foldl_read_line stream_text_def)

lemma stream_text_Nil_lines:
  "list_all (\<lambda>l. data_content l = None) (data_lines cs) \<Longrightarrow> stream_text cs = []"
  unfolding stream_text_def by (rule line_text_None)

lemma send_finish_update:
  "send_finish aid r st = st\<lparr>messages := set_content aid (shown_text r) (messages st), is_loading := False\<rparr>"
proof (cases r)
  case (Fetch_rejected e)
  then show ?thesis by (simp add: send_finish_def shown_text_def)
next
  case (Reply code chunks fin)
  show ?thesis
  proof (cases "200 \<le> code \<and> code \<le> 299")
    case False
    with Reply show ?thesis by (simp add: send_finish_def shown_text_def)
  next
    case ok: True
    show ?thesis
    proof (cases fin)
      case (End_error e)
      with Reply ok show ?thesis by (simp add: send_finish_def shown_text_def read_all_shown)
    next
      case End_ok
      with Reply ok show ?thesis
        using stream_text_Nil_lines [of chunks]
        by (auto simp: send_finish_def shown_text_def read_all_shown)
    qed
  qed
qed

text \<open>C11: Whatever the fetch settles with, the rest of \<open>sendMessage\<close> (its read loop, which
  rewrites the placeholder after every line that carries content, its fallback, its
  \<open>catch\<close> and its \<open>finally\<close>) amounts to one update: the placeholder's content becomes
  \<open>shown_text\<close> of the reply and the window stops loading.  A failed read replaces the
  text streamed so far.\<close>

theorem send_finish_shown:
  "send_finish aid r st = st\<lparr>messages := set_content aid (shown_text r) (messages st), is_loading := False\<rparr>"
  by (rule send_finish_update)

subsection \<open>Reading the relay's frames\<close>

lemma split_on_line: "nl \<notin> set l \<Longrightarrow> split_on nl (l @ nl # rest) = l # split_on nl rest"
  by (simp add: split_on_append)

lemma encode_event_line:
  assumes "event_wf e"
  shows "\<exists>l. encode_event e = l @ [nl, nl] \<and> nl \<notin> set l \<and> starts_with ''data: '' l \<and> line_text l = ev_text e"
proof -
  let ?j = "case e of Content t \<Rightarrow> JObj [(''content'', t)] | Done \<Rightarrow> JObj [(''done'', JBool True)]"
  have wf: "wf_json ?j" using assms by (cases e) simp_all
  have "data_content (''data: '' @ stringify ?j) = (case js_get ?j ''content'' of
           Some c \<Rightarrow> if js_truthy c then Some (js_to_string c) else None | None \<Rightarrow> None)"
    using json_parse_stringify [OF wf] by (simp add: data_content_def del: stringify.simps)
  then have "line_text (''data: '' @ stringify ?j) = ev_text e"
    by (cases e) (simp_all add: line_text_def js_get_def del: stringify.simps)
  moreover have "nl \<notin> set (''data: '' @ stringify ?j)" using stringify_no_nl [OF wf] by simp
  moreover have "starts_with ''data: '' (''data: '' @ stringify ?j)" by (rule starts_with_append)
  ultimately show ?thesis by (simp add: encode_event_def del: stringify.simps)
qed

lemma frames_text:
  "list_all event_wf es \<Longrightarrow>
   concat (map line_text (filter (starts_with ''data: '') (split_on nl (concat (map encode_event es) @ rest))))
   = concat (map ev_text es) @ concat (map line_text (filter (starts_with ''data: '') (split_on nl rest)))"
proof (induction es)
  case (Cons e es)
  then obtain l where l: "encode_event e = l @ [nl, nl]" "nl \<notin> set l" "starts_with ''data: '' l"
    "line_text l = ev_text e" using encode_event_line by auto
  have "\<not> starts_with ''data: '' []" by (simp add: starts_with_def)
  with Cons l show ?case by (simp add: split_on_line)
qed simp

lemma stream_text_frames:
  "list_all event_wf (concat gs) \<Longrightarrow>
   stream_text (map (\<lambda>g. concat (map encode_event g)) gs) = concat (map ev_text (concat gs))"
proof (induction gs)
  case (Cons g gs)
  have "\<not> starts_with ''data: '' []" by (simp add: starts_with_def)
  with Cons show ?case using frames_text [of g "[]"]
    by (simp add: stream_text_def data_lines_def)
qed (simp add: stream_text_def data_lines_def)

text \<open>C12: If every read of the response holds whole frames of the relay, the placeholder
  ends up showing exactly the text of the frames' content, in order, or the fallback when
  they carry none.\<close>

theorem window_shows_frames:
  assumes "list_all event_wf (concat gs)" "200 \<le> code" "code \<le> 299"
  shows "send_finish aid (Reply code (map (\<lambda>g. concat (map encode_event g)) gs) End_ok) st
       = st\<lparr>messages := set_content aid (let txt = concat (map ev_text (concat gs))
                                       in if txt = [] then fallback_text else txt) (messages st),
            is_loading := False\<rparr>"
  using assms by (simp add: send_finish_update shown_text_def stream_text_frames Let_def)

text \<open>C5: The reader keeps no carry-over buffer: when a frame with content reaches the
  window split across two reads (here after its third character), neither part is
  recognised, and the window shows the fallback instead of the text that the same frame
  read whole would show.\<close>

theorem window_loses_split_frame:
  assumes "wf_json t" "js_truthy t" "js_to_string t \<noteq> []"
  shows "stream_text [encode_event (Content t)] = js_to_string t
       \<and> send_finish aid (Reply 200 [take 3 (encode_event (Content t)), drop 3 (encode_event (Content t))] End_ok) st
         = st\<lparr>messages := set_content aid fallback_text (messages st), is_loading := False\<rparr>"
proof -
  let ?j = "JObj [(''content'', t)]"
  have wf: "wf_json ?j" using assms(1) by simp
  have nl: "nl \<notin> set (stringify ?j)" using stringify_no_nl [OF wf] .
  have whole: "stream_text [encode_event (Content t)] = js_to_string t"
    using stream_text_frames [of "[[Content t]]"] assms by simp
  have tk: "take 3 (encode_event (Content t)) = ''dat''" by (simp add: encode_event_def)
  have dr: "drop 3 (encode_event (Content t)) = (''a: '' @ stringify ?j) @ nl # nl # []"
    by (simp add: encode_event_def)
  have "\<not> starts_with ''data: '' (''a: '' @ stringify ?j)" "\<not> starts_with ''data: '' []"
    "\<not> starts_with ''data: '' ''dat''" by (simp_all add: starts_with_def)
  then have "stream_text [take 3 (encode_event (Content t)), drop 3 (encode_event (Content t))] = []"
    unfolding tk dr using nl
    by (simp add: stream_text_def data_lines_def split_on_line del: stringify.simps)
  with whole show ?thesis by (simp add: send_finish_update shown_text_def)
qed

subsection \<open>The invariant and the requests the window posts\<close>

lemma next_role_twice [simp]: "next_role (next_role r) = r"
  by (cases r) simp_all

lemma alternating_snoc:
  "alternating r (ms @ [x]) \<longleftrightarrow> alternating r ms \<and> role x = (if even (length ms) then r else next_role r)"
  by (induction ms arbitrary: r) auto

lemma alternating_nth:
  "alternating r ms \<Longrightarrow> i < length ms \<Longrightarrow> role (ms ! i) = (if even i then r else next_role r)"
proof (induction ms arbitrary: r i)
  case (Cons m ms)
  then show ?case by (cases i) auto
qed simp

lemma set_content_roles [simp]:
  "alternating r (set_content aid c ms) = alternating r ms"
  "length (set_content aid c ms) = length ms"
  "list_all (\<lambda>m. 0 < msg_id m) (set_content aid c ms) = list_all (\<lambda>m. 0 < msg_id m) ms"
  by (induction ms arbitrary: r) (simp_all add: set_content_def)

lemma set_content_last:
  "ms \<noteq> [] \<Longrightarrow> msg_id (last (set_content aid c ms)) = msg_id (last ms) \<and> role (last (set_content aid c ms)) = role (last ms)"
  by (simp add: set_content_def last_map)

lemma set_content_welcome: "0 < aid \<Longrightarrow> set_content aid c (welcome_message # ms) = welcome_message # set_content aid c ms"
  by (simp add: set_content_def welcome_message_def)

lemma send_start_Some:
  "send_start now ov st = Some (v, aid, b) \<Longrightarrow>
   \<exists>t. t \<noteq> [] \<and> \<not> is_loading st \<and> aid = Suc now
     \<and> v = st\<lparr>messages := messages st @ [\<lparr>msg_id = now, role = User, content = t\<rparr>, \<lparr>msg_id = Suc now, role = Assistant, content = []\<rparr>],
              input := [], is_loading := True\<rparr>
     \<and> b = request_body (messages st @ [\<lparr>msg_id = now, role = User, content = t\<rparr>])"
  by (auto simp: send_start_def Let_def split: if_splits)

lemma chat_event_posts:
  "b \<in> set (snd (chat_event e s)) \<Longrightarrow> clock_ok e \<Longrightarrow>
   \<exists>now ov v aid. 0 < now \<and> send_start now ov (view s) = Some (v, aid, b)
     \<and> fst (chat_event e s) = \<lparr>view = v, inflight = Some aid\<rparr>"
  by (cases e) (force simp: start_def split: option.splits if_splits)+

lemma chat_event_silent:
  "snd (chat_event e s) = [] \<Longrightarrow> fst (chat_event e s) = s
     \<or> (\<exists>t. fst (chat_event e s) = s\<lparr>view := (view s)\<lparr>input := t\<rparr>\<rparr> \<and> \<not> is_loading (view s))
     \<or> fst (chat_event e s) = session_init
     \<or> (\<exists>aid r. inflight s = Some aid \<and> fst (chat_event e s) = \<lparr>view = send_finish aid r (view s), inflight = None\<rparr>)"
  by (cases e) (force simp: start_def split: option.splits if_splits)+

lemma chat_inv_init: "chat_inv session_init"
  by (simp add: chat_inv_def session_init_def chat_init_def)

lemma chat_inv_start:
  assumes "chat_inv s" "0 < now" "send_start now ov (view s) = Some (v, aid, b)"
  shows "chat_inv \<lparr>view = v, inflight = Some aid\<rparr>"
proof -
  obtain ms where ms: "messages (view s) = welcome_message # ms" "alternating User ms" "even (length ms)"
    "list_all (\<lambda>m. 0 < msg_id m) ms"
    using assms(1) by (auto simp: chat_inv_def split: list.splits)
  from send_start_Some [OF assms(3)] obtain t where t: "aid = Suc now"
    "v = (view s)\<lparr>messages := messages (view s) @ [\<lparr>msg_id = now, role = User, content = t\<rparr>,
            \<lparr>msg_id = Suc now, role = Assistant, content = []\<rparr>], input := [], is_loading := True\<rparr>"
    by blast
  have "alternating User (ms @ [\<lparr>msg_id = now, role = User, content = t\<rparr>, \<lparr>msg_id = Suc now, role = Assistant, content = []\<rparr>])"
    using ms(2,3) alternating_snoc [of User "ms @ [\<lparr>msg_id = now, role = User, content = t\<rparr>]"]
      alternating_snoc [of User ms] by simp
  with ms t assms(2) show ?thesis by (simp add: chat_inv_def)
qed

lemma chat_inv_finish:
  assumes "chat_inv s" "inflight s = Some aid"
  shows "chat_inv \<lparr>view = send_finish aid r (view s), inflight = None\<rparr>"
proof -
  obtain ms where ms: "messages (view s) = welcome_message # ms" "alternating User ms" "even (length ms)"
    "list_all (\<lambda>m. 0 < msg_id m) ms" "ms \<noteq> []" "msg_id (last ms) = aid"
    using assms by (auto simp: chat_inv_def split: list.splits)
  then have "0 < aid" by (auto simp: list_all_iff)
  with ms show ?thesis by (simp add: chat_inv_def send_finish_update set_content_welcome)
qed

lemma chat_inv_step: "chat_inv s \<Longrightarrow> clock_ok e \<Longrightarrow> chat_inv (fst (chat_event e s))"
proof (cases "snd (chat_event e s)")
  case Nil
  assume inv: "chat_inv s"
  from chat_event_silent [OF Nil] show ?thesis
  proof (elim disjE exE conjE)
    fix t assume "fst (chat_event e s) = s\<lparr>view := (view s)\<lparr>input := t\<rparr>\<rparr>"
    with inv show ?thesis by (simp add: chat_inv_def split: list.splits option.splits)
  next
    fix aid r assume "inflight s = Some aid" "fst (chat_event e s) = \<lparr>view = send_finish aid r (view s), inflight = None\<rparr>"
    with inv chat_inv_finish show ?thesis by simp
  qed (use inv chat_inv_init in simp_all)
next
  case (Cons b bs)
  assume inv: "chat_inv s" and ck: "clock_ok e"
  then obtain now ov v aid where "0 < now" "send_start now ov (view s) = Some (v, aid, b)"
    "fst (chat_event e s) = \<lparr>view = v, inflight = Some aid\<rparr>"
    using chat_event_posts [of b e s] Cons by auto
  with inv show ?thesis using chat_inv_start by simp
qed

lemma reachable_inv: "reachable s \<Longrightarrow> chat_inv s"
  by (induction rule: reachable.induct) (simp_all add: chat_inv_init chat_inv_step)

lemma shown_text_not_Nil: "shown_text r \<noteq> []"
  by (simp add: shown_text_def sorry_text_def fallback_text_def split: upstream_reply.split stream_end.split)

lemma set_content_nonempty:
  "c \<noteq> [] \<Longrightarrow> list_all (\<lambda>m. content m \<noteq> []) ms \<Longrightarrow> list_all (\<lambda>m. content m \<noteq> []) (set_content aid c ms)"
  by (induction ms) (simp_all add: set_content_def)

lemma set_content_last_filled:
  "c \<noteq> [] \<Longrightarrow> ms \<noteq> [] \<Longrightarrow> msg_id (last ms) = aid \<Longrightarrow> list_all (\<lambda>m. content m \<noteq> []) (butlast ms)
   \<Longrightarrow> list_all (\<lambda>m. content m \<noteq> []) (set_content aid c ms)"
proof (induction ms rule: rev_induct)
  case (snoc m ms)
  then show ?case using set_content_nonempty [of c ms aid] by (simp add: set_content_def)
qed simp

lemma typing_ok_init: "typing_ok session_init"
  by (simp add: typing_ok_def session_init_def chat_init_def welcome_message_def welcome_text_def)

lemma typing_ok_step:
  assumes inv: "chat_inv s" and ok: "typing_ok s" and ck: "clock_ok e"
  shows "typing_ok (fst (chat_event e s))"
proof (cases "snd (chat_event e s)")
  case Nil
  from chat_event_silent [OF Nil] show ?thesis
  proof (elim disjE exE conjE)
    fix aid r assume fl: "inflight s = Some aid"
      and st: "fst (chat_event e s) = \<lparr>view = send_finish aid r (view s), inflight = None\<rparr>"
    have "messages (view s) \<noteq> []" "msg_id (last (messages (view s))) = aid"
      using inv fl by (auto simp: chat_inv_def split: list.splits)
    with ok fl st show ?thesis
      by (simp add: typing_ok_def send_finish_update set_content_last_filled shown_text_not_Nil)
  qed (use ok typing_ok_init in \<open>simp_all add: typing_ok_def split: option.splits\<close>)
next
  case (Cons b bs)
  then obtain now ov v aid where ss: "send_start now ov (view s) = Some (v, aid, b)"
    and st: "fst (chat_event e s) = \<lparr>view = v, inflight = Some aid\<rparr>"
    using chat_event_posts [of b e s] ck by auto
  from send_start_Some [OF ss] obtain t where t: "t \<noteq> []" "\<not> is_loading (view s)"
    "v = (view s)\<lparr>messages := messages (view s) @ [\<lparr>msg_id = now, role = User, content = t\<rparr>,
            \<lparr>msg_id = Suc now, role = Assistant, content = []\<rparr>], input := [], is_loading := True\<rparr>"
    by blast
  have "inflight s = None" using inv t(2) by (auto simp: chat_inv_def split: list.splits option.splits)
  with ok t st show ?thesis by (simp add: typing_ok_def butlast_append)
qed

lemma reachable_typing_ok: "reachable s \<Longrightarrow> typing_ok s"
  by (induction rule: reachable.induct) (simp_all add: typing_ok_init typing_ok_step reachable_inv)

lemma no_empty_positions:
  "list_all (\<lambda>m. content m \<noteq> []) ms \<Longrightarrow> [i \<leftarrow> [0..<length ms]. content (ms ! i) = []] = []"
  by (simp add: filter_empty_conv list_all_length)

lemma last_empty_position:
  assumes "ms \<noteq> []" "content (last ms) = []" "list_all (\<lambda>m. content m \<noteq> []) (butlast ms)"
  shows "[i \<leftarrow> [0..<length ms]. content (ms ! i) = []] = [length ms - 1]"
proof -
  obtain xs x where ms: "ms = xs @ [x]" using assms(1) by (cases ms rule: rev_cases) auto
  have "[i \<leftarrow> [0..<length xs]. content ((xs @ [x]) ! i) = []] = []"
    using assms(3) ms by (simp add: filter_empty_conv list_all_length nth_append)
  then show ?thesis using assms(2) ms by simp
qed

lemma bubble_dots: "bubble_body (message_bubble m) = Typing_dots \<longleftrightarrow> content m = []"
  by (simp add: message_bubble_def)

lemma request_body_turns:
  "request_body ms = client_body (map (\<lambda>m. (role_name (role m), content m)) (filter (\<lambda>m. msg_id m \<noteq> 0) ms))"
  by (simp add: request_body_def client_body_def msg_json_def comp_def)

lemma posted_turns:
  assumes "reachable s" "clock_ok e" "b \<in> set (snd (chat_event e s))"
  shows "\<exists>ms. b = request_body ms \<and> turns_ok (map (\<lambda>m. (role_name (role m), content m)) (filter (\<lambda>m. msg_id m \<noteq> 0) ms))"
proof -
  obtain now ov v aid where now: "0 < now" and ss: "send_start now ov (view s) = Some (v, aid, b)"
    using chat_event_posts [OF assms(3,2)] by blast
  from send_start_Some [OF ss] obtain t where t: "t \<noteq> []"
    "b = request_body (messages (view s) @ [\<lparr>msg_id = now, role = User, content = t\<rparr>])" by blast
  obtain ms where ms: "messages (view s) = welcome_message # ms" "alternating User ms" "even (length ms)"
    "list_all (\<lambda>m. 0 < msg_id m) ms"
    using reachable_inv [OF assms(1)] by (auto simp: chat_inv_def split: list.splits)
  let ?us = "ms @ [\<lparr>msg_id = now, role = User, content = t\<rparr>]"
  have flt: "filter (\<lambda>m. msg_id m \<noteq> 0) (welcome_message # ?us) = ?us"
    using ms(4) now by (simp add: welcome_message_def list_all_iff)
  have alt: "alternating User ?us" using ms(2,3) by (simp add: alternating_snoc)
  have "turns_ok (map (\<lambda>m. (role_name (role m), content m)) ?us)"
    unfolding turns_ok_def
  proof (intro conjI allI impI)
    fix i assume "i < length (map (\<lambda>m. (role_name (role m), content m)) ?us)"
    then have i: "i < length ?us" by simp
    then have "fst (map (\<lambda>m. (role_name (role m), content m)) ?us ! i) = role_name (role (?us ! i))"
      by (simp only: nth_map fst_conv)
    then show "fst (map (\<lambda>m. (role_name (role m), content m)) ?us ! i) = (if even i then ''user'' else ''assistant'')"
      unfolding alternating_nth [OF alt i] by simp
  qed (use ms(3) t(1) in simp_all)
  with t ms(1) flt show ?thesis by auto
qed

text \<open>C9: In every session the window can reach, the welcome message is first and
  unchanged, user and assistant messages then alternate in complete pairs, and the window is
  loading exactly when a request is pending, whose placeholder is the last message.\<close>

theorem chat_invariant: "reachable s \<Longrightarrow> chat_inv s"
  by (rule reachable_inv)

text \<open>C8: Every request the window posts has a body of the chat window's form whose
  conversation the upstream accepts: the welcome message is left out, the turns start and
  end with the user, alternate, and the last one is not empty.\<close>

theorem requests_well_formed:
  assumes "reachable s" "clock_ok e" "b \<in> set (snd (chat_event e s))"
  shows "\<exists>turns. b = client_body turns \<and> turns_ok turns"
  using posted_turns [OF assms] by (auto simp: request_body_turns)

text \<open>C10: While a request is pending, no event of the window posts another one.\<close>

theorem one_request_in_flight:
  assumes "reachable s" "inflight s \<noteq> None"
  shows "snd (chat_event e s) = []"
proof -
  have "is_loading (view s)"
    using reachable_inv [OF assms(1)] assms(2) by (auto simp: chat_inv_def split: list.splits option.splits)
  then show ?thesis by (cases e) (simp_all add: start_def send_start_def Let_def)
qed

subsection \<open>Witnesses\<close>

lemma chat_run_append:
  "chat_run (xs @ ys) s =
     (let (s1, bs1) = chat_run xs s; (s2, bs2) = chat_run ys s1 in (s2, bs1 @ bs2))"
  by (induction xs arbitrary: s) (auto split: prod.splits)

lemma send_finish_idle: "\<not> is_loading (send_finish aid r st)"
  by (simp add: send_finish_def split: upstream_reply.split stream_end.split prod.split)

lemma settle_pending_idle:
  assumes "chat_inv s"
  shows "\<not> is_loading (view (fst (chat_run (settle_pending r s) s)))
         \<and> snd (chat_run (settle_pending r s) s) = []"
  using assms by (cases "inflight s") (simp_all add: settle_pending_def chat_inv_def send_finish_idle split: list.splits)

lemma send_after_idle:
  assumes "\<not> is_loading (view s)" "js_trim t \<noteq> []"
  shows "chat_run [Type_input t, Click_send now] s =
           (\<lparr>view = (view s)\<lparr>messages := messages (view s) @ [\<lparr>msg_id = now, role = User, content = js_trim t\<rparr>,
                                   \<lparr>msg_id = Suc now, role = Assistant, content = []\<rparr>],
                              input := [], is_loading := True\<rparr>,
             inflight = Some (Suc now)\<rparr>,
            [request_body (messages (view s) @ [\<lparr>msg_id = now, role = User, content = js_trim t\<rparr>])])"
  using assms by (simp add: start_def send_start_def Let_def)

text \<open>C29: The window never gets stuck: from every session it can reach, whatever the
  pending request (if any) settles with, typing a non-blank text and pressing the send button
  posts exactly one request, for the conversation so far and the trimmed text, and leaves the
  window waiting for its reply.\<close>

theorem window_can_send_again:
  assumes "reachable s" "js_trim t \<noteq> []"
  shows "chat_run (settle_pending r s @ [Type_input t, Click_send now]) s =
           (let s1 = fst (chat_run (settle_pending r s) s) in
            (\<lparr>view = (view s1)\<lparr>messages := messages (view s1) @ [\<lparr>msg_id = now, role = User, content = js_trim t\<rparr>,
                                   \<lparr>msg_id = Suc now, role = Assistant, content = []\<rparr>],
                              input := [], is_loading := True\<rparr>,
             inflight = Some (Suc now)\<rparr>,
             [request_body (messages (view s1) @ [\<lparr>msg_id = now, role = User, content = js_trim t\<rparr>])]))"
proof -
  obtain s1 bs1 where p: "chat_run (settle_pending r s) s = (s1, bs1)" by fastforce
  have "\<not> is_loading (view s1)" "bs1 = []"
    using settle_pending_idle [OF reachable_inv [OF assms(1)], of r] p by simp_all
  then show ?thesis using send_after_idle [OF _ assms(2)] p by (simp add: chat_run_append)
qed

lemma dot_positions_content:
  "dot_positions st = [i \<leftarrow> [0..<length (messages st)]. content (messages st ! i) = []]"
  unfolding dot_positions_def chat_bubbles_def length_map by (rule filter_cong) (simp_all add: bubble_dots)

lemma set_content_last_empty:
  "ms \<noteq> [] \<Longrightarrow> msg_id (last ms) = aid \<Longrightarrow> content (last (set_content aid [] ms)) = []"
  by (induction ms rule: rev_induct) (simp_all add: set_content_def)

lemma length_set_content [simp]: "length (set_content aid c ms) = length ms"
  by (simp add: set_content_def)

lemma last_set_content_index:
  "ms \<noteq> [] \<Longrightarrow> set_content aid c ms ! (length ms - 1) = last (set_content aid c ms)"
  by (simp add: last_conv_nth set_content_def)

text \<open>C32: The typing dots follow the stream.  In every reachable session no bubble shows the
  dots when no request is in flight; while one is, at every point of the read loop, no bubble
  shows them once the text streamed so far is non-empty, the reply's placeholder (the last
  bubble) shows them while it is empty, and it is the only one before any content line.\<close>

theorem typing_dots_pending:
  assumes "reachable s"
  shows "(inflight s = None \<longrightarrow> dot_positions (view s) = [])
   \<and> (\<forall>aid ls. inflight s = Some aid \<longrightarrow>
        (concat (map line_text ls) \<noteq> [] \<longrightarrow> dot_positions (streaming_view aid ls (view s)) = [])
      \<and> (concat (map line_text ls) = [] \<longrightarrow>
           length (messages (view s)) - 1 \<in> set (dot_positions (streaming_view aid ls (view s))))
      \<and> (list_all (\<lambda>l. data_content l = None) ls \<longrightarrow>
           dot_positions (streaming_view aid ls (view s)) = [length (messages (view s)) - 1]))"
proof -
  have ok: "typing_ok s" using assms by (rule reachable_typing_ok)
  have inv: "chat_inv s" using assms by (rule reachable_inv)
  have idle: "dot_positions (view s) = []" if "inflight s = None"
    using ok that by (simp add: typing_ok_def dot_positions_content no_empty_positions)
  have busy: "(concat (map line_text ls) \<noteq> [] \<longrightarrow> dot_positions (streaming_view aid ls (view s)) = [])
      \<and> (concat (map line_text ls) = [] \<longrightarrow>
           length (messages (view s)) - 1 \<in> set (dot_positions (streaming_view aid ls (view s))))
      \<and> (list_all (\<lambda>l. data_content l = None) ls \<longrightarrow>
           dot_positions (streaming_view aid ls (view s)) = [length (messages (view s)) - 1])"
    if fl: "inflight s = Some aid" for aid ls
  proof -
    let ?ms = "messages (view s)" and ?t = "concat (map line_text ls)"
    have ne: "?ms \<noteq> []" and lst: "content (last ?ms) = []"
      and others: "list_all (\<lambda>m. content m \<noteq> []) (butlast ?ms)"
      using ok fl by (simp_all add: typing_ok_def)
    have id: "msg_id (last ?ms) = aid"
      using inv fl by (auto simp: chat_inv_def split: list.splits)
    have sv: "messages (streaming_view aid ls (view s))
        = (if list_all (\<lambda>l. data_content l = None) ls then ?ms else set_content aid ?t ?ms)"
      by (simp add: streaming_view_def foldl_read_line)
    have none: "dot_positions (streaming_view aid ls (view s)) = [length ?ms - 1]"
      if "list_all (\<lambda>l. data_content l = None) ls"
      using that sv last_empty_position [OF ne lst others] by (simp add: dot_positions_content)
    have full: "dot_positions (streaming_view aid ls (view s)) = []" if "?t \<noteq> []"
    proof -
      have "\<not> list_all (\<lambda>l. data_content l = None) ls" using that line_text_None by blast
      then show ?thesis
        using sv no_empty_positions [OF set_content_last_filled [OF that ne id others]]
        by (simp add: dot_positions_content)
    qed
    have empty: "length ?ms - 1 \<in> set (dot_positions (streaming_view aid ls (view s)))" if "?t = []"
    proof (cases "list_all (\<lambda>l. data_content l = None) ls")
      case True then show ?thesis using none by simp
    next
      case False
      have "content (set_content aid [] ?ms ! (length ?ms - 1)) = []"
        using set_content_last_empty [OF ne id] last_set_content_index [OF ne] by simp
      then show ?thesis using False sv that ne by (simp add: dot_positions_content)
    qed
    show ?thesis using none full empty by blast
  qed
  show ?thesis using idle busy by blast
qed

lemma suggestion_session:
  "chat_event (Click_suggestion 1000 0) session_init =
     (\<lparr>view = \<lparr>messages = [welcome_message, \<lparr>msg_id = 1000, role = User, content = ''What projects has Mouad built?''\<rparr>,
                             \<lparr>msg_id = 1001, role = Assistant, content = []\<rparr>],
               input = [], is_loading = True\<rparr>, inflight = Some 1001\<rparr>,
      [request_body [welcome_message, \<lparr>msg_id = 1000, role = User, content = ''What projects has Mouad built?''\<rparr>]])"
  by (simp add: session_init_def chat_init_def suggestions_def start_def send_start_def js_trim_def js_space_def Let_def)

theorem chat_invariant_witness:
  "chat_inv (fst (chat_event (Click_suggestion 1000 0) session_init))"
proof -
  have "reachable (fst (chat_event (Click_suggestion 1000 0) session_init))"
    by (rule reachable.step [OF reachable.init]) simp
  then show ?thesis by (rule chat_invariant)
qed

theorem requests_well_formed_witness:
  "\<exists>turns. request_body [welcome_message, \<lparr>msg_id = 1000, role = User, content = ''What projects has Mouad built?''\<rparr>]
     = client_body turns \<and> turns_ok turns"
  by (rule requests_well_formed [OF reachable.init, of "Click_suggestion 1000 0"]) (simp_all add: suggestion_session del: chat_event.simps)

theorem one_request_in_flight_witness:
  "snd (chat_event (Key_enter 2000 False) (fst (chat_event (Click_suggestion 1000 0) session_init))) = []"
proof (rule one_request_in_flight)
  show "reachable (fst (chat_event (Click_suggestion 1000 0) session_init))"
    by (rule reachable.step [OF reachable.init]) simp
  show "inflight (fst (chat_event (Click_suggestion 1000 0) session_init)) \<noteq> None"
    by (simp add: suggestion_session del: chat_event.simps)
qed

theorem window_shows_frames_witness:
  "send_finish 1001 (Reply 200 (map (\<lambda>g. concat (map encode_event g)) [[Content (JStr ''Hi'')], [Content (JStr '' there''), Done]]) End_ok) chat_init
   = chat_init\<lparr>messages := set_content 1001 ''Hi there'' (messages chat_init), is_loading := False\<rparr>"
  using window_shows_frames [of "[[Content (JStr ''Hi'')], [Content (JStr '' there''), Done]]" 200 1001 chat_init]
  by (simp del: stringify.simps)

theorem window_loses_split_frame_witness:
  "stream_text [encode_event (Content (JStr ''hello''))] = ''hello''
   \<and> send_finish 1001 (Reply 200 [take 3 (encode_event (Content (JStr ''hello''))), drop 3 (encode_event (Content (JStr ''hello'')))] End_ok) chat_init
     = chat_init\<lparr>messages := set_content 1001 fallback_text (messages chat_init), is_loading := False\<rparr>"
  using window_loses_split_frame [of "JStr ''hello''" 1001 chat_init] by simp

theorem window_can_send_again_witness:
  "chat_run (settle_pending (Fetch_rejected ''offline'') (fst (chat_event (Click_suggestion 1000 0) session_init))
               @ [Type_input '' Hi '', Click_send 3000])
            (fst (chat_event (Click_suggestion 1000 0) session_init))
   = (\<lparr>view = \<lparr>messages = [welcome_message, \<lparr>msg_id = 1000, role = User, content = ''What projects has Mouad built?''\<rparr>,
                          \<lparr>msg_id = 1001, role = Assistant, content = sorry_text ''offline''\<rparr>,
                          \<lparr>msg_id = 3000, role = User, content = ''Hi''\<rparr>,
                          \<lparr>msg_id = 3001, role = Assistant, content = []\<rparr>],
                 input = [], is_loading = True\<rparr>,
       inflight = Some 3001\<rparr>,
      [request_body [welcome_message, \<lparr>msg_id = 1000, role = User, content = ''What projects has Mouad built?''\<rparr>,
                     \<lparr>msg_id = 1001, role = Assistant, content = sorry_text ''offline''\<rparr>,
                     \<lparr>msg_id = 3000, role = User, content = ''Hi''\<rparr>]])"
proof -
  define s0 where "s0 = fst (chat_event (Click_suggestion 1000 0) session_init)"
  have r: "reachable s0" unfolding s0_def by (rule reachable.step [OF reachable.init]) simp
  have tr: "js_trim '' Hi '' = ''Hi''" by (simp add: js_trim_def js_space_def)
  have "chat_run (settle_pending (Fetch_rejected ''offline'') s0 @ [Type_input '' Hi '', Click_send 3000]) s0
      = (let s1 = fst (chat_run (settle_pending (Fetch_rejected ''offline'') s0) s0) in
            (\<lparr>view = (view s1)\<lparr>messages := messages (view s1) @ [\<lparr>msg_id = 3000, role = User, content = js_trim '' Hi ''\<rparr>,
                                   \<lparr>msg_id = Suc 3000, role = Assistant, content = []\<rparr>],
                              input := [], is_loading := True\<rparr>,
             inflight = Some (Suc 3000)\<rparr>,
             [request_body (messages (view s1) @ [\<lparr>msg_id = 3000, role = User, content = js_trim '' Hi ''\<rparr>])]))"
    by (rule window_can_send_again [OF r]) (simp add: tr)
  also have "\<dots> = (\<lparr>view = \<lparr>messages = [welcome_message, \<lparr>msg_id = 1000, role = User, content = ''What projects has Mouad built?''\<rparr>,
                          \<lparr>msg_id = 1001, role = Assistant, content = sorry_text ''offline''\<rparr>,
                          \<lparr>msg_id = 3000, role = User, content = ''Hi''\<rparr>,
                          \<lparr>msg_id = 3001, role = Assistant, content = []\<rparr>],
                 input = [], is_loading = True\<rparr>,
       inflight = Some 3001\<rparr>,
      [request_body [welcome_message, \<lparr>msg_id = 1000, role = User, content = ''What projects has Mouad built?''\<rparr>,
                     \<lparr>msg_id = 1001, role = Assistant, content = sorry_text ''offline''\<rparr>,
                     \<lparr>msg_id = 3000, role = User, content = ''Hi''\<rparr>]])"
    by (simp add: s0_def suggestion_session tr settle_pending_def send_finish_def set_content_def
        welcome_message_def del: chat_event.simps(4))
  finally show ?thesis unfolding s0_def .
qed

theorem typing_dots_pending_witness:
  "dot_positions (streaming_view 1001 [] (view (fst (chat_event (Click_suggestion 1000 0) session_init)))) = [2]
   \<and> dot_positions (streaming_view 1001 [''data: {\"content\":\"Hi\"}''] (view (fst (chat_event (Click_suggestion 1000 0) session_init)))) = []"
proof -
  have r: "reachable (fst (chat_event (Click_suggestion 1000 0) session_init))"
    by (rule reachable.step [OF reachable.init]) simp
  have fl: "inflight (fst (chat_event (Click_suggestion 1000 0) session_init)) = Some 1001"
    by (simp add: suggestion_session del: chat_event.simps)
  have hi: "line_text ''data: {\"content\":\"Hi\"}'' = ''Hi''"
    by code_simp
  have "list_all (\<lambda>l. data_content l = None) ([] :: string list)" by simp
  then show ?thesis
    using typing_dots_pending [OF r, THEN conjunct2, rule_format, OF fl, of "[]"]
          typing_dots_pending [OF r, THEN conjunct2, rule_format, OF fl, of "[''data: {\"content\":\"Hi\"}'']"]
    by (simp add: hi suggestion_session numeral_2_eq_2 del: chat_event.simps)
qed

subsection \<open>Two behaviours of the window\<close>

text \<open>The texts the window writes into a placeholder itself (the error and fallback
  messages) stay in the conversation and are sent to the upstream as assistant turns of the
  next request, as if the model had written them.\<close>

lemma failed_reply_forwarded:
  "snd (chat_event (Click_send 3000)
     (fst (chat_event (Type_input ''Hi'')
       (fst (chat_event (Fetch_settles 1001 (Fetch_rejected ''Failed to fetch''))
         (fst (chat_event (Click_suggestion 1000 0) session_init)))))))
   = [client_body [(''user'', ''What projects has Mouad built?''),
                   (''assistant'', sorry_text ''Failed to fetch''), (''user'', ''Hi'')]]"
  by (simp add: suggestion_session send_finish_update shown_text_def set_content_def start_def
      send_start_def Let_def js_trim_def js_space_def request_body_turns welcome_message_def
      del: chat_event.simps(4))

text \<open>Message ids come from \<open>Date.now()\<close>.  When the clock steps back between two sends
  (here by one millisecond), the new placeholder gets the id of an earlier message, and the
  streamed reply overwrites that message as well: the user's first question now reads as the
  second answer.\<close>

lemma clock_step_back_overwrites:
  "messages (view (fst (chat_event (Fetch_settles 1000 (Reply 200 [encode_event (Content (JStr ''B''))] End_ok))
     (fst (chat_event (Click_send 999)
       (fst (chat_event (Type_input ''Hi'')
         (fst (chat_event (Fetch_settles 1001 (Reply 200 [encode_event (Content (JStr ''A''))] End_ok))
           (fst (chat_event (Click_suggestion 1000 0) session_init)))))))))))
   = [welcome_message, \<lparr>msg_id = 1000, role = User, content = ''B''\<rparr>,
      \<lparr>msg_id = 1001, role = Assistant, content = ''A''\<rparr>, \<lparr>msg_id = 999, role = User, content = ''Hi''\<rparr>,
      \<lparr>msg_id = 1000, role = Assistant, content = ''B''\<rparr>]"
proof -
  have st: "stream_text [encode_event (Content (JStr t))] = t" if "t \<noteq> []" for t
    using stream_text_frames [of "[[Content (JStr t)]]"] that by simp
  show ?thesis
    by (simp add: suggestion_session send_finish_update shown_text_def st set_content_def start_def
        send_start_def Let_def js_trim_def js_space_def welcome_message_def del: chat_event.simps(4))
qed

end
