(* ===== verification/App.thy ===== *)
theory App
  imports Client
begin

text \<open>
  The application shell: \<open>App.tsx\<close> (its fade-in timer, the \<open>isChatOpen\<close> flag that
  mounts the chat window, the \<open>onChatOpen\<close> and \<open>onClose\<close> callbacks it hands down)
  and \<open>components/Spline3DModel.tsx\<close>, the About section's 3D model, which detects a
  mobile width, defers loading the scene and opens the chat when clicked.  Time is an
  explicit clock in milliseconds; a timer is its deadline, and it fires when the clock has
  reached it.  The chat window is the session of \<open>Client\<close>, stepped by
  \<open>chat_event\<close> while it is mounted.
\<close>

subsection \<open>The 3D model (\<open>Spline3DModel.tsx\<close>)\<close>

record spline_state =
  is_mobile :: bool
  should_load :: bool
  load_timer :: "nat option"

text \<open>Lines 53--65 on mount at time \<open>now\<close> with window width \<open>w\<close>.  Both effects run after
  the first render, when \<open>isMobile\<close> is still \<open>false\<close>: the first schedules
  \<open>isMobile := w < 768\<close>, the second starts the 1500 ms timer.  If the width is a mobile one
  the re-render changes \<open>isMobile\<close>, the second effect's cleanup clears the timer and it
  returns early.\<close>

definition spline_mount :: "nat \<Rightarrow> nat \<Rightarrow> spline_state" where
  "spline_mount w now =
     (let started = \<lparr>is_mobile = False, should_load = False, load_timer = Some (now + 1500)\<rparr>
      in if w < 768 then started\<lparr>is_mobile := True, load_timer := None\<rparr> else started)"

text \<open>Line 56: the \<open>resize\<close> listener.  Only a change of \<open>isMobile\<close> re-runs the second
  effect: its cleanup clears the pending timer, and on a desktop width it starts a new one.\<close>

definition spline_resize :: "nat \<Rightarrow> nat \<Rightarrow> spline_state \<Rightarrow> spline_state" where
  "spline_resize w now st =
     (let m = w < 768 in
      if m = is_mobile st then st
      else if m then st\<lparr>is_mobile := True, load_timer := None\<rparr>
      else st\<lparr>is_mobile := False, load_timer := Some (now + 1500)\<rparr>)"

text \<open>Line 63: the timer fires once the clock reaches its deadline.\<close>

definition spline_tick :: "nat \<Rightarrow> spline_state \<Rightarrow> spline_state" where
  "spline_tick now st =
     (case load_timer st of
        Some d \<Rightarrow> if d \<le> now then st\<lparr>should_load := True, load_timer := None\<rparr> else st
      | None \<Rightarrow> st)"

datatype spline_view = Mobile_fallback | Loading_fallback | Scene

text \<open>Lines 68--92: what the component renders.  \<open>Spline\<close> is a \<open>React.lazy\<close> component
  (line 5): once \<open>shouldLoad\<close> is set its \<open>Suspense\<close> shows \<open>LoadingFallback\<close> until
  the chunk has arrived (\<open>loaded\<close>), and the scene from then on.\<close>

definition spline_render :: "bool \<Rightarrow> spline_state \<Rightarrow> spline_view" where
  "spline_render loaded st =
     (if is_mobile st then Mobile_fallback else if should_load st \<and> loaded then Scene else Loading_fallback)"

subsection \<open>The shell (\<open>App.tsx\<close>)\<close>

record app_state =
  clock :: nat
  is_loaded :: bool
  loaded_timer :: "nat option"
  chat_open :: bool
  chat :: session
  about :: "spline_state option"
  spline_loaded :: bool

text \<open>Lines 22--33: the flags start \<open>false\<close> and the fade-in timer is due at 100 ms.  The
  About section is lazy (line 7): its model is mounted when its chunk arrives.  The chunk
  of the 3D scene (\<open>Spline3DModel.tsx\<close> line 5) has not arrived yet.\<close>

definition app_init :: app_state where
  "app_init = \<lparr>clock = 0, is_loaded = False, loaded_timer = Some 100, chat_open = False,
               chat = session_init, about = None, spline_loaded = False\<rparr>"

text \<open>Time passing, a resize, the About section mounting at a width, a click on the 3D model
  (the desktop container of line 81 or the mobile button of line 32, both \<open>onChatOpen\<close>),
  an event of the chat window, and the arrival of the scene's chunk.\<close>

datatype app_event = Elapse nat | Resize nat | About_mounts nat | Click_model | Chat ui_event | Spline_arrives

text \<open>Line 31: the fade-in timer.\<close>

definition app_tick :: "app_state \<Rightarrow> app_state" where
  "app_tick a =
     (case loaded_timer a of
        Some d \<Rightarrow> if d \<le> clock a then a\<lparr>is_loaded := True, loaded_timer := None\<rparr> else a
      | None \<Rightarrow> a)"

text \<open>Lines 59 and 79--83: \<open>onChatOpen\<close> sets \<open>isChatOpen\<close>, which mounts a fresh
  \<open>ChatWindow\<close>; its \<open>onClose\<close> (\<open>Close_chat\<close>) clears it, which unmounts the window and
  drops its state.  Events of the window reach it only while it is mounted; a \<open>fetch\<close> that
  settles after the unmount writes to the state of a component that is gone.  The scene's
  chunk is requested when \<open><Spline>\<close> first renders, which is when \<open>shouldLoad\<close> is set
  (the timer runs only on a desktop width); it can arrive only after that, and stays loaded.\<close>

fun app_step :: "app_event \<Rightarrow> app_state \<Rightarrow> app_state \<times> string list" where
  "app_step (Elapse d) a =
     (let a' = app_tick (a\<lparr>clock := clock a + d\<rparr>)
      in (a'\<lparr>about := map_option (spline_tick (clock a')) (about a')\<rparr>, []))"
| "app_step (Resize w) a = (a\<lparr>about := map_option (spline_resize w (clock a)) (about a)\<rparr>, [])"
| "app_step (About_mounts w) a =
     (case about a of None \<Rightarrow> (a\<lparr>about := Some (spline_mount w (clock a))\<rparr>, []) | Some _ \<Rightarrow> (a, []))"
| "app_step Click_model a =
     (if about a = None \<or> chat_open a then (a, []) else (a\<lparr>chat_open := True, chat := session_init\<rparr>, []))"
| "app_step (Chat e) a =
     (if \<not> chat_open a then (a, [])
      else if e = Close_chat then (a\<lparr>chat_open := False, chat := session_init\<rparr>, [])
      else (let (s, bs) = chat_event e (chat a) in (a\<lparr>chat := s\<rparr>, bs)))"
| "app_step Spline_arrives a =
     (case about a of
        Some st \<Rightarrow> if should_load st then (a\<lparr>spline_loaded := True\<rparr>, []) else (a, [])
      | None \<Rightarrow> (a, []))"

fun app_run :: "app_event list \<Rightarrow> app_state \<Rightarrow> app_state \<times> string list" where
  "app_run [] a = (a, [])"
| "app_run (e # es) a = (let (a1, bs1) = app_step e a; (a2, bs2) = app_run es a1 in (a2, bs1 @ bs2))"

fun app_clock_ok :: "app_event \<Rightarrow> bool" where
  "app_clock_ok (Chat e) = clock_ok e"
| "app_clock_ok _ = True"

inductive app_reachable :: "app_state \<Rightarrow> bool" where
  init: "app_reachable app_init"
| step: "app_reachable a \<Longrightarrow> app_clock_ok e \<Longrightarrow> app_reachable (fst (app_step e a))"

subsection \<open>Invariant\<close>

text \<open>A pending load timer of the 3D model is due within the next 1500 ms and only on a
  desktop width; with none pending, the width is a mobile one or the scene has loaded.\<close>

definition spline_ok :: "nat \<Rightarrow> spline_state \<Rightarrow> bool" where
  "spline_ok now st \<longleftrightarrow>
     (case load_timer st of
        Some d \<Rightarrow> now < d \<and> d \<le> now + 1500 \<and> \<not> is_mobile st
      | None \<Rightarrow> is_mobile st \<or> should_load st)"

text \<open>The mounted chat window is a session the window can reach on its own, and a fresh one
  while closed; the fade-in timer is pending until 100 ms and the page is shown after it.\<close>

definition app_inv :: "app_state \<Rightarrow> bool" where
  "app_inv a \<longleftrightarrow>
     reachable (chat a) \<and> (\<not> chat_open a \<longrightarrow> chat a = session_init)
     \<and> (is_loaded a \<longleftrightarrow> 100 \<le> clock a)
     \<and> loaded_timer a = (if 100 \<le> clock a then None else Some 100)
     \<and> (case about a of None \<Rightarrow> True | Some st \<Rightarrow> spline_ok (clock a) st)"

lemma spline_ok_mount: "spline_ok now (spline_mount w now)"
  by (simp add: spline_ok_def spline_mount_def Let_def)

lemma spline_ok_resize: "spline_ok now st \<Longrightarrow> spline_ok now (spline_resize w now st)"
  by (auto simp: spline_ok_def spline_resize_def Let_def split: option.splits)

lemma spline_ok_tick: "spline_ok now st \<Longrightarrow> now \<le> now' \<Longrightarrow> spline_ok now' (spline_tick now' st)"
  by (auto simp: spline_ok_def spline_tick_def split: option.splits)

lemma app_tick_keeps [simp]: "about (app_tick a) = about a" "clock (app_tick a) = clock a"
  "spline_loaded (app_tick a) = spline_loaded a"
  by (simp_all add: app_tick_def split: option.split)

lemma app_inv_init: "app_inv app_init"
  by (simp add: app_inv_def app_init_def reachable.init)

lemma app_inv_step:
  assumes "app_inv a" "app_clock_ok e"
  shows "app_inv (fst (app_step e a))"
proof (cases e)
  case (Elapse d)
  then show ?thesis using assms(1)
    by (auto simp: app_inv_def app_tick_def Let_def intro: spline_ok_tick split: option.splits)
next
  case (Chat c)
  obtain s bs where ce: "chat_event c (chat a) = (s, bs)" by fastforce
  have "reachable s"
    using reachable.step [of "chat a" c] ce assms Chat by (simp add: app_inv_def)
  then show ?thesis using assms(1) Chat ce
    by (auto simp: app_inv_def reachable.init split: option.splits)
qed (use assms(1) in \<open>auto simp: app_inv_def spline_ok_mount spline_ok_resize split: option.splits\<close>)

lemma app_reachable_inv: "app_reachable a \<Longrightarrow> app_inv a"
  by (induction rule: app_reachable.induct) (simp_all add: app_inv_init app_inv_step)

subsection \<open>Properties of the shell\<close>

text \<open>C30: every request the application posts comes from its chat window while the
  window is open, and is a conversation of the window's form whose turns alternate from the
  user: the shell adds no way to post of its own.\<close>

theorem app_posts_conversations:
  assumes "app_reachable a" "app_clock_ok e" "b \<in> set (snd (app_step e a))"
  shows "chat_open a \<and> (\<exists>turns. b = client_body turns \<and> turns_ok turns)"
proof (cases e)
  case (Chat c)
  have inv: "reachable (chat a)" using app_reachable_inv [OF assms(1)] by (simp add: app_inv_def)
  have open_: "chat_open a" and post: "b \<in> set (snd (chat_event c (chat a)))"
    using assms(3) Chat by (auto split: if_splits prod.splits)
  have "clock_ok c" using assms(2) Chat by simp
  from posted_turns [OF inv this post] open_ show ?thesis by (auto simp: request_body_turns)
qed (use assms(3) in \<open>auto simp: Let_def split: if_splits option.splits\<close>)

text \<open>C31: On a desktop width the About section's 3D model never waits more than
  1500 ms to ask for its scene: from any moment the application can reach, once 1500 ms have
  passed the scene's chunk has been requested (\<open>shouldLoad\<close> holds); the model shows its
  loading fallback until the chunk arrives, and the scene as soon as it has.\<close>

theorem scene_requested_within_1500:
  assumes "app_reachable a" "about a = Some st" "\<not> is_mobile st" "1500 \<le> d"
  shows "map_option should_load (about (fst (app_step (Elapse d) a))) = Some True
    \<and> map_option (spline_render (spline_loaded (fst (app_step (Elapse d) a)))) (about (fst (app_step (Elapse d) a)))
        = Some (if spline_loaded a then Scene else Loading_fallback)
    \<and> map_option (spline_render (spline_loaded (fst (app_step Spline_arrives (fst (app_step (Elapse d) a))))))
        (about (fst (app_step Spline_arrives (fst (app_step (Elapse d) a))))) = Some Scene"
proof -
  have ok: "spline_ok (clock a) st"
    using app_reachable_inv [OF assms(1)] assms(2) by (simp add: app_inv_def)
  have tick: "spline_tick (clock a + d) st = st\<lparr>should_load := True, load_timer := None\<rparr>
              \<or> (load_timer st = None \<and> should_load st \<and> spline_tick (clock a + d) st = st)"
  proof (cases "load_timer st")
    case None
    then show ?thesis using ok assms(3) by (simp add: spline_ok_def spline_tick_def)
  next
    case (Some t)
    then have "t \<le> clock a + d" using ok assms(4) by (simp add: spline_ok_def)
    then show ?thesis using Some by (simp add: spline_tick_def)
  qed
  then show ?thesis using assms(2,3)
    by (elim disjE conjE) (simp_all add: Let_def spline_render_def)
qed

text \<open>The page fades in exactly once its 100 ms timer has run: in every state the
  application reaches, \<open>isLoaded\<close> holds exactly when the clock has reached 100 ms.\<close>

theorem page_fades_in_at_100: "app_reachable a \<Longrightarrow> is_loaded a \<longleftrightarrow> 100 \<le> clock a"
  by (drule app_reachable_inv) (simp add: app_inv_def)

lemma app_open_session:
  "fst (app_step Click_model (fst (app_step (About_mounts 1024) app_init)))
   = app_init\<lparr>chat_open := True, about := Some (spline_mount 1024 0)\<rparr>"
  by (simp add: app_init_def)

theorem app_posts_conversations_witness:
  "chat_open (app_init\<lparr>chat_open := True, about := Some (spline_mount 1024 0)\<rparr>)
   \<and> (\<exists>turns. request_body [welcome_message, \<lparr>msg_id = 1000, role = User, content = ''What projects has Mouad built?''\<rparr>]
                = client_body turns \<and> turns_ok turns)"
proof (rule app_posts_conversations)
  show "app_reachable (app_init\<lparr>chat_open := True, about := Some (spline_mount 1024 0)\<rparr>)"
  proof -
    have "app_reachable (fst (app_step Click_model (fst (app_step (About_mounts 1024) app_init))))"
      by (intro app_reachable.step app_reachable.init) simp_all
    then show ?thesis by (simp only: app_open_session)
  qed
  show "request_body [welcome_message, \<lparr>msg_id = 1000, role = User, content = ''What projects has Mouad built?''\<rparr>]
      \<in> set (snd (app_step (Chat (Click_suggestion 1000 0)) (app_init\<lparr>chat_open := True, about := Some (spline_mount 1024 0)\<rparr>)))"
    by (simp add: app_init_def suggestion_session del: chat_event.simps)
qed simp

theorem scene_requested_within_1500_witness:
  "map_option (spline_render (spline_loaded (fst (app_step (Elapse 1500) (fst (app_step (About_mounts 1024) app_init))))))
     (about (fst (app_step (Elapse 1500) (fst (app_step (About_mounts 1024) app_init))))) = Some Loading_fallback
   \<and> map_option (spline_render (spline_loaded (fst (app_step Spline_arrives (fst (app_step (Elapse 1500) (fst (app_step (About_mounts 1024) app_init))))))))
     (about (fst (app_step Spline_arrives (fst (app_step (Elapse 1500) (fst (app_step (About_mounts 1024) app_init))))))) = Some Scene"
proof -
  have r: "app_reachable (fst (app_step (About_mounts 1024) app_init))"
    by (rule app_reachable.step [OF app_reachable.init]) simp
  have ab: "about (fst (app_step (About_mounts 1024) app_init)) = Some (spline_mount 1024 0)"
    by (simp add: app_init_def)
  have nl: "\<not> spline_loaded (fst (app_step (About_mounts 1024) app_init))"
    by (simp add: app_init_def)
  have "\<not> is_mobile (spline_mount 1024 0)" by (simp add: spline_mount_def)
  from scene_requested_within_1500 [OF r ab this, of 1500] nl show ?thesis by simp
qed

theorem page_fades_in_at_100_witness:
  "is_loaded (fst (app_step (Elapse 150) app_init)) \<and> \<not> is_loaded (fst (app_step (Elapse 50) app_init))"
proof -
  have r: "app_reachable (fst (app_step (Elapse d) app_init))" for d
    by (rule app_reachable.step [OF app_reachable.init]) simp
  have "clock (fst (app_step (Elapse d) app_init)) = d" for d
    by (simp add: app_init_def app_tick_def Let_def)
  then show ?thesis using page_fades_in_at_100 [OF r [of 150]] page_fades_in_at_100 [OF r [of 50]] by simp
qed

end
