(* ===== verification/Site.thy ===== *)
theory Site
  imports Complex_Main Prompt
begin

text \<open>
  The site's content and the page logic that lays it out: the data of
  \<open>src/app/src/data/projects.ts\<close>, \<open>data/timeline.ts\<close> and \<open>config/site.ts\<close>,
  the skill categories of \<open>sections/SkillsShowcaseSection.tsx\<close>, the logo lists of
  \<open>sections/HeroSection.tsx\<close> and \<open>sections/ProjectShowcase.tsx\<close>, the navigation of
  \<open>components/Header.tsx\<close> and \<open>components/MobileMenu.tsx\<close>, the footer's links, and
  the functions that decide what a project card, a timeline card or a skill card shows and
  where.  Results: the assistant's system prompt agrees with the data the page renders
  (skills, projects, timeline, profile); every in-page link reaches a section; the timeline
  alternates its columns; React's list keys are distinct; the orbit of logos fits the hero
  and spreads its logos evenly.
\<close>

subsection \<open>Projects (\<open>data/projects.ts\<close>)\<close>

datatype project_category = Web | Mobile_app | Backend | Fullstack

fun category_name :: "project_category \<Rightarrow> string" where
  "category_name Web = ''web''"
| "category_name Mobile_app = ''mobile''"
| "category_name Backend = ''backend''"
| "category_name Fullstack = ''fullstack''"

record project =
  proj_id :: string
  title :: string
  description :: string
  image :: string
  gradient :: string
  tags :: "string list"
  github_url :: "string option"
  live_url :: "string option"
  category :: project_category

definition projects_data :: "project list" where
  "projects_data =
    [\<lparr>proj_id = ''1'', title = ''VotePoll - Real-Time Polling System'',
      description = ''Collaborative polling platform with real-time updates via Socket.IO, hybrid authentication (JWT + OAuth Google), and public/private group system. Built with Next.js 16, React 19, TypeScript, and Express.js.'',
      image = ''/assets/projects/neovote.webp'', gradient = ''from-blue-600 via-indigo-500 to-purple-500'',
      tags = [''Next.js'', ''React'', ''TypeScript'', ''Socket.IO'', ''MySQL''],
      github_url = Some ''https://github.com/Jamil-Mouad/vote-sondage-system'', live_url = None, category = Fullstack\<rparr>,
     \<lparr>proj_id = ''2'', title = ''AgencyBooking - Reservation Platform'',
      description = ''Multi-role agency reservation platform connecting users with agencies and agents. Features real-time WebSocket locking system, STOMP live updates, JWT authentication with Spring Security, email notifications, and role-based dashboards. Built with Angular 18 + Spring Boot 3.'',
      image = ''/assets/projects/agencybooking.webp'', gradient = ''from-emerald-600 via-teal-500 to-cyan-400'',
      tags = [''Angular 18'', ''Spring Boot 3'', ''Java 21'', ''PostgreSQL'', ''WebSocket'', ''Docker''],
      github_url = Some ''https://github.com/Jamil-Mouad/AgencyBooking'', live_url = None, category = Fullstack\<rparr>,
     \<lparr>proj_id = ''3'', title = ''DevOps Pipeline - Full CI/CD Infrastructure'',
      description = ''Complete DevOps infrastructure from scratch: KVM virtualization, Terraform provisioning, GitLab CI/CD pipeline, SonarQube analysis, Docker containerization, and Prometheus/Grafana monitoring.'',
      image = ''/assets/projects/pipelinedevos.webp'', gradient = ''from-orange-600 via-amber-500 to-yellow-400'',
      tags = [''Docker'', ''GitLab CI'', ''Terraform'', ''Prometheus'', ''Grafana''],
      github_url = None, live_url = None, category = Backend\<rparr>,
     \<lparr>proj_id = ''4'', title = ''Evaluation Sheet Digitalization'',
      description = ''Web-based evaluation sheet generator for EST. Professors log in, input grades through dynamic cascading forms, and generate print-ready A4 documents with digital signatures. Features CSRF protection, prepared SQL statements, and configurable grade weighting per program.'',
      image = ''/assets/projects/evaluationfile0.webp'', gradient = ''from-purple-600 via-violet-500 to-pink-400'',
      tags = [''PHP 8'', ''MariaDB'', ''JavaScript'', ''HTML5 Canvas''],
      github_url = Some ''https://github.com/Jamil-Mouad/evaluation_file'', live_url = None, category = Web\<rparr>]"

subsection \<open>Timeline (\<open>data/timeline.ts\<close>)\<close>

datatype timeline_type = Education | Certification

record timeline_item =
  item_id :: string
  year :: string
  item_title :: string
  institution :: string
  item_description :: string
  item_image :: "string option"
  item_type :: timeline_type
  technologies :: "string list option"

definition timeline_data :: "timeline_item list" where
  "timeline_data =
    [\<lparr>item_id = ''1'', year = ''2023 - 2025'', item_title = ''DUT in Computer Engineering'',
      institution = ''EST Fquih Ben Salah'',
      item_description = ''Two-year university technology diploma covering algorithms, programming (C, Java, PHP), databases, networks, operating systems, and software engineering with UML.'',
      item_image = None, item_type = Education, technologies = Some [''Java'', ''PHP'', ''MySQL'', ''C'']\<rparr>,
     \<lparr>item_id = ''2'', year = ''2024'', item_title = ''Internship - Evaluation Sheet Digitalization'',
      institution = ''EST Fquih Ben Salah'',
      item_description = ''Built a complete web application for digitizing internship evaluation sheets. Managed 52 students across 4 programs with automatic PDF generation.'',
      item_image = None, item_type = Education, technologies = Some [''PHP'', ''MySQL'', ''JavaScript'']\<rparr>,
     \<lparr>item_id = ''3'', year = ''2025'', item_title = ''PFE - AgencyBooking Reservation System'',
      institution = ''EST Fquih Ben Salah'',
      item_description = ''Developed a full booking platform with WebSocket real-time notifications, JWT authentication, multi-role system, and automated email confirmations.'',
      item_image = Some ''/assets/spring.webp'', item_type = Education,
      technologies = Some [''Spring Boot'', ''Java 21'', ''PostgreSQL'', ''WebSocket'']\<rparr>,
     \<lparr>item_id = ''4'', year = ''2025 - 2026'', item_title = ''Licence DAIA (Bac+3)'',
      institution = ''EST Casablanca'',
      item_description = ''Specialization in Application Development and Artificial Intelligence. Covering advanced OOP, machine learning, full-stack development (Node.js, React, Angular), DevOps, and containerization.'',
      item_image = Some ''/assets/react-removebg-preview.webp'', item_type = Education,
      technologies = Some [''React'', ''Node.js'', ''Docker'', ''Machine Learning'']\<rparr>,
     \<lparr>item_id = ''5'', year = ''2026'', item_title = ''DevOps Pipeline Project'',
      institution = ''EST Casablanca'',
      item_description = ''Built complete DevOps infrastructure: KVM virtualization, Terraform provisioning, GitLab CI/CD, SonarQube analysis, Docker containerization, and Prometheus/Grafana monitoring.'',
      item_image = Some ''/assets/docker.webp'', item_type = Education,
      technologies = Some [''Docker'', ''Terraform'', ''GitLab CI'', ''Prometheus'']\<rparr>]"

subsection \<open>Profile (\<open>config/site.ts\<close>)\<close>

text \<open>The \<open>bio\<close> field is left out: it contains an em dash, a code unit above 255.\<close>

record social =
  github :: string
  linkedin :: string
  twitter :: string

record site_config =
  site_name :: string
  site_title :: string
  email :: string
  location :: string
  years_experience :: nat
  specialties :: "string list"
  site_social :: social
  resume_url :: string

definition site :: site_config where
  "site =
    \<lparr>site_name = ''JAMIL Mouad'', site_title = ''Full-Stack Developer | DevOps Enthusiast'',
     email = ''jamilmouad25000@gmail.com'', location = ''Khouribga, Morocco'', years_experience = 2,
     specialties = [''Full-Stack Development'', ''DevOps & CI/CD'', ''Real-Time Applications'', ''Microservices Architecture''],
     site_social = \<lparr>github = ''https://github.com/Jamil-Mouad'', linkedin = ''https://linkedin.com/in/username'',
                    twitter = ''https://twitter.com/username''\<rparr>,
     resume_url = ''/cv.pdf''\<rparr>"

subsection \<open>Skills (\<open>sections/SkillsShowcaseSection.tsx\<close>, lines 4--83)\<close>

record skill =
  skill_name :: string
  logo :: "string option"
  color :: string
  logo_bg :: "string option"

record skill_category =
  cat_name :: string
  skills :: "skill list"

definition sk :: "string \<Rightarrow> string \<Rightarrow> string \<Rightarrow> skill" where
  "sk n l c = \<lparr>skill_name = n, logo = Some l, color = c, logo_bg = None\<rparr>"

definition skill_categories :: "skill_category list" where
  "skill_categories =
    [\<lparr>cat_name = ''Programming Languages'', skills =
       [sk ''Java'' ''/assets/logo-java.webp'' ''from-orange-500 to-red-600'',
        sk ''Python'' ''/assets/python.webp'' ''from-blue-500 to-yellow-500'',
        sk ''JavaScript'' ''/assets/js-removebg-preview.webp'' ''from-yellow-400 to-yellow-600'',
        sk ''TypeScript'' ''/assets/ts-removebg-preview.webp'' ''from-blue-500 to-blue-700'',
        sk ''C'' ''/assets/c.webp'' ''from-blue-600 to-blue-800'',
        sk ''PHP'' ''/assets/php.webp'' ''from-indigo-500 to-purple-600'']\<rparr>,
     \<lparr>cat_name = ''Frontend'', skills =
       [sk ''React'' ''/assets/react-removebg-preview.webp'' ''from-cyan-400 to-blue-500'',
        sk ''Angular'' ''/assets/anguar-removebg-preview.webp'' ''from-red-500 to-red-700'',
        sk ''Next.js'' ''/assets/nextjs-removebg-preview.webp'' ''from-gray-700 to-gray-900'',
        sk ''HTML'' ''/assets/html-removebg-preview.webp'' ''from-orange-500 to-orange-700'',
        sk ''CSS'' ''/assets/css-removebg-preview.webp'' ''from-blue-500 to-blue-700'']\<rparr>,
     \<lparr>cat_name = ''Backend'', skills =
       [sk ''Spring Boot'' ''/assets/spring.webp'' ''from-green-500 to-emerald-600'',
        sk ''Node.js'' ''/assets/nodejs-removebg-preview.webp'' ''from-green-600 to-green-700'',
        sk ''J2EE'' ''/assets/jee.webp'' ''from-orange-500 to-red-600'']\<rparr>,
     \<lparr>cat_name = ''Mobile'', skills =
       [sk ''Flutter'' ''/assets/logo-flutter.webp'' ''from-cyan-400 to-blue-600'']\<rparr>,
     \<lparr>cat_name = ''Databases'', skills =
       [sk ''PostgreSQL'' ''/assets/logo-postgres.webp'' ''from-blue-600 to-blue-800'',
        sk ''MySQL'' ''/assets/logo-mysql.webp'' ''from-blue-600 to-orange-500'',
        sk ''Oracle'' ''/assets/logo-oracle.webp'' ''from-red-600 to-red-700'',
        sk ''MongoDB'' ''/assets/logo-mongodb.webp'' ''from-green-500 to-green-700'',
        sk ''SQLite'' ''/assets/logo-sqlite.webp'' ''from-blue-400 to-blue-600'',
        sk ''SQL/PL-SQL'' ''/assets/sql_plsql.webp'' ''from-orange-500 to-red-500'']\<rparr>,
     \<lparr>cat_name = ''DevOps & Tools'', skills =
       [sk ''Docker'' ''/assets/docker.webp'' ''from-blue-400 to-blue-600'',
        sk ''Git'' ''/assets/git.webp'' ''from-orange-500 to-red-600'',
        sk ''GitHub'' ''/assets/github.webp'' ''from-gray-700 to-gray-900'',
        sk ''GitLab'' ''/assets/gitlab.webp'' ''from-orange-500 to-red-600'',
        sk ''Postman'' ''/assets/postman-removebg-preview.webp'' ''from-orange-500 to-orange-700'']\<rparr>,
     \<lparr>cat_name = ''Operating Systems & Virtualization'', skills =
       [sk ''Linux'' ''/assets/linux-removebg-preview.webp'' ''from-yellow-500 to-yellow-700'',
        sk ''Ubuntu'' ''/assets/ubuntu-removebg-preview.webp'' ''from-orange-500 to-red-600'',
        sk ''Windows'' ''/assets/windows-removebg-preview.webp'' ''from-blue-500 to-blue-700'',
        sk ''VMware'' ''/assets/vmware-removebg-preview.webp'' ''from-gray-600 to-gray-800'',
        sk ''KVM/QEMU'' ''/assets/kmv-removebg-preview.webp'' ''from-orange-500 to-red-600'']\<rparr>]"

text \<open>Lines 85--148 and 169--192: a skill card shows its logo, or the first character of the
  name when there is none; its animation index is \<open>categoryIndex * 6 + skillIndex\<close>.\<close>

datatype badge = Logo_img string | Initial string

definition skill_badge :: "skill \<Rightarrow> badge" where
  "skill_badge s = (case logo s of Some l \<Rightarrow> if l = [] then Initial (take 1 (skill_name s)) else Logo_img l
                                 | None \<Rightarrow> Initial (take 1 (skill_name s)))"

definition skill_card_index :: "nat \<Rightarrow> nat \<Rightarrow> nat" where
  "skill_card_index ci si = ci * 6 + si"

definition skill_cards :: "skill_category list \<Rightarrow> (nat \<times> skill) list" where
  "skill_cards cats =
     concat (map (\<lambda>(ci, c). map (\<lambda>(si, s). (skill_card_index ci si, s)) (enumerate 0 (skills c))) (enumerate 0 cats))"

text \<open>Lines 202--215: the figures the section states.\<close>

definition skill_stats :: "(string \<times> string) list" where
  "skill_stats = [(''30+'', ''Technologies''), (''5+'', ''Projects''), (''2+'', ''Years Learning'')]"

subsection \<open>Logos (\<open>sections/HeroSection.tsx\<close>, \<open>components/OrbitingLogos.tsx\<close>,
  \<open>sections/ProjectShowcase.tsx\<close>)\<close>

record logo_item =
  src :: string
  alt :: string

definition orbit_logos :: "logo_item list" where
  "orbit_logos =
    [\<lparr>src = ''/assets/logo-java.webp'', alt = ''Java''\<rparr>, \<lparr>src = ''/assets/python.webp'', alt = ''Python''\<rparr>,
     \<lparr>src = ''/assets/ts-removebg-preview.webp'', alt = ''TypeScript''\<rparr>, \<lparr>src = ''/assets/spring.webp'', alt = ''Spring''\<rparr>,
     \<lparr>src = ''/assets/logo-flutter.webp'', alt = ''Flutter''\<rparr>, \<lparr>src = ''/assets/logo-postgres.webp'', alt = ''PostgreSQL''\<rparr>,
     \<lparr>src = ''/assets/logo-mysql.webp'', alt = ''MySQL''\<rparr>, \<lparr>src = ''/assets/logo-mongodb.webp'', alt = ''MongoDB''\<rparr>]"

definition left_grid_logos :: "logo_item list" where
  "left_grid_logos =
    [\<lparr>src = ''/assets/docker.webp'', alt = ''Docker''\<rparr>, \<lparr>src = ''/assets/git.webp'', alt = ''Git''\<rparr>,
     \<lparr>src = ''/assets/github.webp'', alt = ''GitHub''\<rparr>, \<lparr>src = ''/assets/gitlab.webp'', alt = ''GitLab''\<rparr>]"

definition right_grid_logos :: "logo_item list" where
  "right_grid_logos =
    [\<lparr>src = ''/assets/react-removebg-preview.webp'', alt = ''React''\<rparr>,
     \<lparr>src = ''/assets/anguar-removebg-preview.webp'', alt = ''Angular''\<rparr>,
     \<lparr>src = ''/assets/nextjs-removebg-preview.webp'', alt = ''Next.js''\<rparr>,
     \<lparr>src = ''/assets/nodejs-removebg-preview.webp'', alt = ''Node.js''\<rparr>]"

definition tech_logos :: "logo_item list" where
  "tech_logos =
    [\<lparr>src = ''/assets/python.webp'', alt = ''Python''\<rparr>, \<lparr>src = ''/assets/logo-java.webp'', alt = ''Java''\<rparr>,
     \<lparr>src = ''/assets/spring.webp'', alt = ''Spring Boot''\<rparr>, \<lparr>src = ''/assets/html-removebg-preview.webp'', alt = ''HTML/CSS''\<rparr>,
     \<lparr>src = ''/assets/js-removebg-preview.webp'', alt = ''JavaScript''\<rparr>,
     \<lparr>src = ''/assets/nodejs-removebg-preview.webp'', alt = ''Node.js''\<rparr>,
     \<lparr>src = ''/assets/anguar-removebg-preview.webp'', alt = ''Angular''\<rparr>, \<lparr>src = ''/assets/logo-flutter.webp'', alt = ''Flutter''\<rparr>,
     \<lparr>src = ''/assets/logo-oracle.webp'', alt = ''Oracle''\<rparr>, \<lparr>src = ''/assets/logo-mysql.webp'', alt = ''MySQL''\<rparr>,
     \<lparr>src = ''/assets/logo-postgres.webp'', alt = ''PostgreSQL''\<rparr>, \<lparr>src = ''/assets/logo-mongodb.webp'', alt = ''MongoDB''\<rparr>,
     \<lparr>src = ''/assets/dart-removebg-preview.webp'', alt = ''Dart''\<rparr>,
     \<lparr>src = ''/assets/expressjs-removebg-preview.webp'', alt = ''Express.js''\<rparr>,
     \<lparr>src = ''/assets/maven-removebg-preview.webp'', alt = ''Maven''\<rparr>]"

text \<open>\<open>OrbitingLogos\<close> (lines 17--34, 63--66): the box is \<open>radius * 2 + 100\<close> pixels
  square and the \<open>i\<close>-th of \<open>n\<close> logos sits at \<open>i * (360 / n)\<close> degrees on the circle
  (the cosine and sine that place it are not modelled).  The hero passes a radius of 260
  inside a 620-pixel box (\<open>HeroSection.tsx\<close> lines 45--54).\<close>

definition orbit_box :: "nat \<Rightarrow> nat" where
  "orbit_box radius = radius * 2 + 100"

definition angle_step :: "nat \<Rightarrow> rat" where
  "angle_step n = 360 / of_nat n"

definition logo_angle :: "nat \<Rightarrow> nat \<Rightarrow> rat" where
  "logo_angle n i = of_nat i * angle_step n"

definition hero_orbit_radius :: nat where
  "hero_orbit_radius = 260"

definition hero_center_box :: nat where
  "hero_center_box = 620"

subsection \<open>Project cards (\<open>sections/ProjectShowcase.tsx\<close>, lines 10--116, 184--191)\<close>

text \<open>What a card shows: the image, the category label, the tags, the title and the
  description, and a link for each URL that is present and not empty (\<open>&&\<close> tests
  truthiness), labelled \<open>Source\<close> and \<open>Live Demo\<close>; the hover overlay repeats the
  same URLs as icons.\<close>

record card =
  card_image :: string
  card_category :: string
  card_tags :: "string list"
  card_title :: string
  card_description :: string
  card_links :: "(string \<times> string) list"

definition url_link :: "string \<Rightarrow> string option \<Rightarrow> (string \<times> string) list" where
  "url_link label u = (case u of Some x \<Rightarrow> if x = [] then [] else [(label, x)] | None \<Rightarrow> [])"

definition project_card :: "project \<Rightarrow> card" where
  "project_card p =
     \<lparr>card_image = image p, card_category = category_name (category p), card_tags = tags p,
      card_title = title p, card_description = description p,
      card_links = url_link ''Source'' (github_url p) @ url_link ''Live Demo'' (live_url p)\<rparr>"

definition skill_bars :: "(string \<times> string \<times> string) list" where
  "skill_bars =
    [(''Backend (Java/Spring)'', ''55%'', ''55%''), (''Frontend (Angular/React)'', ''45%'', ''45%''),
     (''Databases'', ''60%'', ''60%''), (''Mobile (Flutter)'', ''30%'', ''30%''), (''DevOps & CI/CD'', ''30%'', ''30%'')]"

subsection \<open>Timeline cards (\<open>sections/TimelineSection.tsx\<close>, lines 11--134, 172--174)\<close>

datatype side = Left | Right

record tl_card =
  tl_year :: string
  tl_institution :: string
  tl_title :: string
  tl_description :: string
  tl_techs :: "string list"
  tl_image :: "string option"
  tl_education :: bool
  slide_from :: side

definition card_content :: "timeline_item \<Rightarrow> side \<Rightarrow> tl_card" where
  "card_content it sd =
     \<lparr>tl_year = year it, tl_institution = institution it, tl_title = item_title it,
      tl_description = item_description it,
      tl_techs = (case technologies it of Some ts \<Rightarrow> ts | None \<Rightarrow> []),
      tl_image = (case item_image it of Some i \<Rightarrow> if i = [] then None else Some i | None \<Rightarrow> None),
      tl_education = (item_type it = Education), slide_from = sd\<rparr>"

text \<open>\<open>TimelineCard\<close>: on a wide screen the card goes in the left column when its index
  is even and in the right one otherwise; on a narrow screen it is always right of the line.\<close>

record tl_row =
  desktop_left :: "tl_card option"
  desktop_right :: "tl_card option"
  mobile :: tl_card

definition timeline_card :: "nat \<Rightarrow> timeline_item \<Rightarrow> tl_row" where
  "timeline_card i it =
     (let is_left = (i mod 2 = 0)
      in \<lparr>desktop_left = (if is_left then Some (card_content it Left) else None),
          desktop_right = (if \<not> is_left then Some (card_content it Right) else None),
          mobile = card_content it Right\<rparr>)"

definition timeline_rows :: "timeline_item list \<Rightarrow> tl_row list" where
  "timeline_rows items = map (\<lambda>(i, it). timeline_card i it) (enumerate 0 items)"

subsection \<open>Navigation and footer\<close>

text \<open>The page's sections in the order \<open>App.tsx\<close> renders them (lines 57--75), with the
  element ids each one carries.\<close>

definition page_sections :: "(string \<times> string list) list" where
  "page_sections =
    [(''HeroSection'', []), (''AboutSection'', [''about'']), (''MissionSection'', []),
     (''SkillsShowcaseSection'', []), (''ProjectShowcase'', [''projects'', ''skills'']),
     (''TimelineSection'', [''timeline'']), (''Footer'', [''contact''])]"

definition page_ids :: "string list" where
  "page_ids = concat (map snd page_sections)"

definition header_links :: "(string \<times> string) list" where
  "header_links = [(''About'', ''#about''), (''Projects'', ''#projects''), (''Timeline'', ''#timeline''),
                   (''Contact'', ''#contact''), (''CV'', ''/cv.pdf'')]"

definition nav_items :: "(string \<times> string) list" where
  "nav_items = [(''About'', ''#about''), (''Skills'', ''#skills''), (''Projects'', ''#projects''),
                (''Timeline'', ''#timeline''), (''Contact'', ''#contact'')]"

text \<open>The other in-page links: the hero's \<open>View my projects\<close> and the showcase's
  \<open>View all skills\<close>.  The footer's \<open>#\<close> link prevents its default and scrolls to the
  top instead.\<close>

definition content_links :: "(string \<times> string) list" where
  "content_links = [(''View my projects'', ''#projects''), (''View all skills'', ''#skills'')]"

definition anchor_target :: "string \<Rightarrow> string option" where
  "anchor_target h = (case h of CHR ''#'' # x \<Rightarrow> Some x | _ \<Rightarrow> None)"

text \<open>\<open>MobileMenu\<close> (lines 20--25): the sheet opens and closes through
  \<open>onOpenChange\<close>, and following a link closes it.\<close>

datatype menu_event = Open_change bool | Nav_click

fun menu_step :: "menu_event \<Rightarrow> bool \<Rightarrow> bool" where
  "menu_step (Open_change b) is_open = b"
| "menu_step Nav_click is_open = False"

text \<open>\<open>Footer\<close> (lines 7--11, 109--115, 172): the social links, the mail link and the
  copyright line, whose first two code units are the UTF-8 bytes of the copyright sign
  read as Latin-1 (the source holds the characters \<open>U+00C2 U+00A9\<close>).\<close>

definition social_links :: "(string \<times> string) list" where
  "social_links = [(''GitHub'', github (site_social site)), (''LinkedIn'', linkedin (site_social site)),
                   (''Twitter'', twitter (site_social site))]"

definition mail_link :: string where
  "mail_link = ''mailto:'' @ email site"

definition copyright_line :: "nat \<Rightarrow> string" where
  "copyright_line y = [CHR 0xC2, CHR 0xA9] @ '' '' @ nat_str y @ '' '' @ site_name site"

subsection \<open>Reference renderings of the prompt's sections\<close>

text \<open>\<open>Array.prototype.join\<close> with a separator string, and the lines of the prompt
  between a heading and the next \<open>## \<close> heading.\<close>

fun join_sep :: "string \<Rightarrow> string list \<Rightarrow> string" where
  "join_sep sep [] = []"
| "join_sep sep [x] = x"
| "join_sep sep (x # y # ys) = x @ sep @ join_sep sep (y # ys)"

definition prompt_section :: "string \<Rightarrow> string list" where
  "prompt_section h = takeWhile (\<lambda>l. \<not> starts_with ''## '' l) (drop 1 (dropWhile (\<lambda>l. l \<noteq> h) prompt_lines))"

subsection \<open>The prompt agrees with the page\<close>

text \<open>The system prompt's Technical Skills section lists exactly the skill categories
  the Skills section renders, in the same order, each followed by its skills in the same
  order.\<close>

theorem prompt_skills_agree:
  "prompt_section ''## Technical Skills'' =
     concat (map (\<lambda>c. [[], ''### '' @ cat_name c, join_sep '', '' (map skill_name (skills c))]) skill_categories) @ [[]]"
  by (simp add: prompt_section_def prompt_lines_def skill_categories_def sk_def starts_with_def)

text \<open>The system prompt's Projects section names the projects of the showcase in its
  order, with the same titles and tags, and gives a GitHub link exactly for the projects
  that have one, with the same URL.\<close>

theorem prompt_projects_agree:
  "filter (\<lambda>l. starts_with ''### '' l \<or> starts_with ''Tags: '' l \<or> starts_with ''GitHub: '' l) (prompt_section ''## Projects'')
   = concat (map (\<lambda>(i, p). [''### '' @ nat_str (Suc i) @ ''. '' @ title p, ''Tags: '' @ join_sep '', '' (tags p)]
                   @ (case github_url p of Some u \<Rightarrow> [''GitHub: '' @ u] | None \<Rightarrow> [])) (enumerate 0 projects_data))"
  by code_simp

text \<open>The system prompt's Education Timeline numbers the timeline's entries in their
  order, each with its years (without the spaces around the dash), title and institution.\<close>

theorem prompt_timeline_agree:
  "filter (\<lambda>l. l \<noteq> [] \<and> hd l \<in> set ''0123456789'') (prompt_section ''## Education Timeline'')
   = map (\<lambda>(i, t). nat_str (Suc i) @ ''. '' @ filter (\<lambda>c. c \<noteq> CHR '' '') (year t) @ '': '' @ item_title t
                   @ '' at '' @ institution t) (enumerate 0 timeline_data)"
  by code_simp

text \<open>The system prompt's profile, specialties and social links are those of the
  site's configuration, including the LinkedIn URL, which in both is the placeholder
  \<open>https://linkedin.com/in/username\<close>.\<close>

theorem prompt_profile_agree:
  "take 5 (prompt_section ''## About Mouad'') =
     [''- Name: '' @ site_name site, ''- Title: '' @ site_title site, ''- Location: '' @ location site,
      ''- Email: '' @ email site,
      ''- Experience: '' @ nat_str (years_experience site) @ ''+ years of learning and building projects'']
   \<and> prompt_section ''## Specialties'' = map (\<lambda>x. ''- '' @ x) (specialties site) @ [[]]
   \<and> prompt_section ''## Social Links'' =
       [''- GitHub: '' @ github (site_social site), ''- LinkedIn: '' @ linkedin (site_social site), []]
   \<and> linkedin (site_social site) = ''https://linkedin.com/in/username''"
  by code_simp

subsection \<open>Links, keys and layout\<close>

text \<open>Every in-page link of the header and of the page's content targets an element
  id that a rendered section carries, and the mobile menu reaches exactly the page's ids.\<close>

theorem nav_links_resolve:
  "set (List.map_filter (\<lambda>(n, h). anchor_target h) (header_links @ content_links)) \<subseteq> set page_ids
   \<and> set (List.map_filter (\<lambda>(n, h). anchor_target h) nav_items) = set page_ids"
  by code_simp

text \<open>The keys of every list the page renders are distinct: project ids, timeline ids,
  skill category names, skill names within a category, technology names within a timeline
  entry, and the names of the logos, navigation items and social links.\<close>

theorem react_keys_distinct:
  "distinct (map proj_id projects_data) \<and> distinct (map item_id timeline_data)
   \<and> distinct (map cat_name skill_categories)
   \<and> list_all (\<lambda>c. distinct (map skill_name (skills c))) skill_categories
   \<and> list_all (\<lambda>t. case technologies t of Some ts \<Rightarrow> distinct ts | None \<Rightarrow> True) timeline_data
   \<and> distinct (map alt orbit_logos) \<and> distinct (map alt left_grid_logos) \<and> distinct (map alt right_grid_logos)
   \<and> distinct (map alt tech_logos) \<and> distinct (map fst nav_items) \<and> distinct (map fst social_links)"
  by code_simp

lemma map_fst_zip_upt:
  "length ys = length xs \<Longrightarrow> map (\<lambda>x. g (fst x)) (zip ys xs) = map g ys"
  by (induction ys xs rule: list_induct2) simp_all

lemma skill_block:
  "map fst (map (\<lambda>(si, s). (skill_card_index ci si, s)) (enumerate 0 xs)) = map (\<lambda>si. ci * 6 + si) [0..<length xs]"
  using map_fst_zip_upt [of "[0..<length xs]" xs "\<lambda>si. ci * 6 + si"]
  by (simp add: enumerate_eq_zip skill_card_index_def split_def comp_def)

lemma skill_cards_fst:
  "map fst (concat (map (\<lambda>(ci, c). map (\<lambda>(si, s). (skill_card_index ci si, s)) (enumerate 0 (skills c))) (enumerate k cats)))
   = concat (map (\<lambda>(ci, c). map (\<lambda>si. ci * 6 + si) [0..<length (skills c)]) (enumerate k cats))"
  by (induction cats arbitrary: k) (simp_all add: skill_block [simplified])

lemma skill_ranges_distinct:
  "list_all (\<lambda>c. length (skills c) \<le> 6) cats \<Longrightarrow>
   distinct (concat (map (\<lambda>(ci, c). map (\<lambda>si. ci * 6 + si) [0..<length (skills c)]) (enumerate k cats)))
   \<and> (\<forall>x \<in> set (concat (map (\<lambda>(ci, c). map (\<lambda>si. ci * 6 + si) [0..<length (skills c)]) (enumerate k cats))). k * 6 \<le> x)"
proof (induction cats arbitrary: k)
  case (Cons c cats)
  let ?rest = "concat (map (\<lambda>(ci, c). map (\<lambda>si. ci * 6 + si) [0..<length (skills c)]) (enumerate (Suc k) cats))"
  have IH: "distinct ?rest" "\<forall>x \<in> set ?rest. Suc k * 6 \<le> x"
    using Cons.IH [of "Suc k"] Cons.prems by simp_all
  have len: "length (skills c) \<le> 6" using Cons.prems by simp
  have blk: "set (map (\<lambda>si. k * 6 + si) [0..<length (skills c)]) = {k * 6..<k * 6 + length (skills c)}"
    by (auto simp: image_iff)
  have "distinct (map (\<lambda>si. k * 6 + si) [0..<length (skills c)])" by (simp add: distinct_map)
  moreover have "x < y" if "x \<in> set (map (\<lambda>si. k * 6 + si) [0..<length (skills c)])" "y \<in> set ?rest" for x y
    using that blk IH(2) len by fastforce
  ultimately show ?case using IH blk by (fastforce simp: disjoint_iff)
qed simp

text \<open>C26: The animation indices \<open>categoryIndex * 6 + skillIndex\<close> of the skill cards are
  distinct whenever no category has more than six skills, which holds for the site's
  categories.\<close>

theorem skill_indices_distinct:
  "list_all (\<lambda>c. length (skills c) \<le> 6) cats \<Longrightarrow> distinct (map fst (skill_cards cats))"
  using skill_ranges_distinct [of cats 0] by (simp add: skill_cards_def skill_cards_fst)

text \<open>The orbiting logos are spread evenly: for any non-empty list the angles are
  distinct, lie in \<open>[0, 360)\<close> and step by \<open>360 / n\<close>; the hero's orbit box is exactly the
  620-pixel box it is placed in.\<close>

theorem orbit_spread:
  assumes "0 < n"
  shows "inj_on (logo_angle n) {..<n} \<and> (\<forall>i < n. 0 \<le> logo_angle n i \<and> logo_angle n i < 360)
         \<and> orbit_box hero_orbit_radius = hero_center_box"
proof -
  have step: "0 < angle_step n" using assms by (simp add: angle_step_def)
  have "inj_on (logo_angle n) {..<n}" using step by (auto simp: inj_on_def logo_angle_def)
  moreover have "logo_angle n i < 360" if "i < n" for i
  proof -
    have "of_nat i * angle_step n < of_nat n * angle_step n" using that step by simp
    also have "of_nat n * angle_step n = 360" using assms by (simp add: angle_step_def)
    finally show ?thesis by (simp add: logo_angle_def)
  qed
  moreover have "0 \<le> logo_angle n i" for i using step by (simp add: logo_angle_def)
  ultimately show ?thesis by (simp add: orbit_box_def hero_orbit_radius_def hero_center_box_def)
qed

text \<open>C28: On a wide screen every timeline entry is shown in exactly one column, the left
  one exactly when its index is even and sliding in from that side; on a narrow screen it is
  shown right of the line; both cards show the entry's year, institution and title.\<close>

theorem timeline_layout:
  assumes "i < length items"
  shows "(case (desktop_left (timeline_rows items ! i), desktop_right (timeline_rows items ! i)) of
            (Some c, None) \<Rightarrow> even i \<and> slide_from c = Left
                            \<and> (tl_year c, tl_institution c, tl_title c) = (year (items ! i), institution (items ! i), item_title (items ! i))
          | (None, Some c) \<Rightarrow> odd i \<and> slide_from c = Right
                            \<and> (tl_year c, tl_institution c, tl_title c) = (year (items ! i), institution (items ! i), item_title (items ! i))
          | _ \<Rightarrow> False)
         \<and> mobile (timeline_rows items ! i) = card_content (items ! i) Right"
proof -
  have "timeline_rows items ! i = timeline_card i (items ! i)"
    using assms by (simp add: timeline_rows_def nth_enumerate_eq)
  moreover have "(i mod 2 = 0) = even i" by presburger
  ultimately show ?thesis by (cases "even i") (simp_all add: timeline_card_def card_content_def Let_def)
qed

subsection \<open>Page figures\<close>

text \<open>The Skills section states \<open>5+ Projects\<close>, but the showcase lists four projects;
  \<open>30+ Technologies\<close> matches its 31 skills.\<close>

lemma page_stats_vs_data:
  "length (concat (map skills skill_categories)) = 31 \<and> length projects_data = 4
   \<and> skill_stats ! 0 = (''30+'', ''Technologies'') \<and> skill_stats ! 1 = (''5+'', ''Projects'')"
  by code_simp

subsection \<open>Witnesses\<close>

theorem skill_indices_distinct_witness: "distinct (map fst (skill_cards skill_categories))"
  by (rule skill_indices_distinct) (simp add: skill_categories_def sk_def)

theorem orbit_spread_witness:
  "inj_on (logo_angle (length orbit_logos)) {..<length orbit_logos}
   \<and> 0 \<le> logo_angle (length orbit_logos) 7 \<and> logo_angle (length orbit_logos) 7 < 360
   \<and> orbit_box hero_orbit_radius = hero_center_box"
proof -
  have n: "length orbit_logos = 8" by (simp add: orbit_logos_def)
  have "inj_on (logo_angle 8) {..<8} \<and> (\<forall>i < 8. 0 \<le> logo_angle 8 i \<and> logo_angle 8 i < 360)
        \<and> orbit_box hero_orbit_radius = hero_center_box"
    by (rule orbit_spread) simp
  then show ?thesis unfolding n by simp
qed

theorem timeline_layout_witness:
  "(case (desktop_left (timeline_rows timeline_data ! 1), desktop_right (timeline_rows timeline_data ! 1)) of
      (Some c, None) \<Rightarrow> even (1::nat) \<and> slide_from c = Left
                      \<and> (tl_year c, tl_institution c, tl_title c) = (year (timeline_data ! 1), institution (timeline_data ! 1), item_title (timeline_data ! 1))
    | (None, Some c) \<Rightarrow> odd (1::nat) \<and> slide_from c = Right
                      \<and> (tl_year c, tl_institution c, tl_title c) = (year (timeline_data ! 1), institution (timeline_data ! 1), item_title (timeline_data ! 1))
    | _ \<Rightarrow> False)
   \<and> mobile (timeline_rows timeline_data ! 1) = card_content (timeline_data ! 1) Right"
  by (rule timeline_layout) (simp add: timeline_data_def)

end
