(* ===== verification/Pages.thy ===== *)
theory Pages
  imports Site
begin

text \<open>
  The page's links and its presentational components: every anchor that
  \<open>Header.tsx\<close>, \<open>MobileMenu.tsx\<close>, \<open>HeroSection.tsx\<close>, \<open>AboutSection.tsx\<close>,
  \<open>ProjectShowcase.tsx\<close> and \<open>Footer.tsx\<close> render, with its attributes and what a
  click on it does; the mobile menu's sheet; \<open>FadeInView\<close>'s entrance; the rotation of
  \<open>OrbitingLogos\<close> over time; \<open>VerticalLogoGrid\<close>'s entrance; the hero's layout; the
  footer's floating code symbols; the scroll-linked values of \<open>App.tsx\<close> and
  \<open>ClaySculpture.tsx\<close>; the mission statement; and the About section.
\<close>

subsection \<open>Anchors and what a click does\<close>

text \<open>What a click on an anchor runs before the browser follows it: nothing, the mobile
  menu's \<open>handleNavClick\<close> (which closes the sheet), or the footer's \<open>scrollToTop\<close>
  (which prevents the default and scrolls to the top).\<close>

datatype click_action = Follow | Close_sheet | Scroll_to_top

record anchor =
  a_label :: string
  href :: string
  new_tab :: bool
  noopener :: bool
  download :: bool
  a_click :: click_action

text \<open>The three kinds of anchor the page uses: an in-page or same-tab link, a download
  (\<open>download\<close> attribute), and an external link (\<open>target="_blank"\<close> with
  \<open>rel="noopener noreferrer"\<close>).\<close>

definition page_link :: "string \<Rightarrow> string \<Rightarrow> click_action \<Rightarrow> anchor" where
  "page_link l h c = \<lparr>a_label = l, href = h, new_tab = False, noopener = False, download = False, a_click = c\<rparr>"

definition file_link :: "string \<Rightarrow> string \<Rightarrow> click_action \<Rightarrow> anchor" where
  "file_link l h c = \<lparr>a_label = l, href = h, new_tab = False, noopener = False, download = True, a_click = c\<rparr>"

definition ext_link :: "string \<Rightarrow> string \<Rightarrow> anchor" where
  "ext_link l h = \<lparr>a_label = l, href = h, new_tab = True, noopener = True, download = False, a_click = Follow\<rparr>"

text \<open>\<open>Header.tsx\<close> lines 61--92: the desktop navigation.\<close>

definition header_anchors :: "anchor list" where
  "header_anchors =
     [page_link ''About'' ''#about'' Follow, page_link ''Projects'' ''#projects'' Follow,
      page_link ''Timeline'' ''#timeline'' Follow, page_link ''Contact'' ''#contact'' Follow,
      file_link ''CV'' ''/cv.pdf'' Follow]"

text \<open>\<open>MobileMenu.tsx\<close> lines 52--77: one link per entry of \<open>navItems\<close> and the CV
  button, each with \<open>onClick={handleNavClick}\<close>.\<close>

definition sheet_anchors :: "anchor list" where
  "sheet_anchors = map (\<lambda>(n, h). page_link n h Close_sheet) nav_items @ [file_link ''Download CV'' ''/cv.pdf'' Close_sheet]"

text \<open>\<open>HeroSection.tsx\<close> lines 128--139 and \<open>AboutSection.tsx\<close> lines 79--88.\<close>

definition hero_anchors :: "anchor list" where
  "hero_anchors = [page_link ''View my projects'' ''#projects'' Follow]"

definition about_anchors :: "anchor list" where
  "about_anchors = [file_link ''Download CV'' (resume_url site) Follow]"

text \<open>\<open>ProjectShowcase.tsx\<close> lines 36--61 and 89--110: each URL of a card is linked twice,
  as an icon in the hover overlay and as a labelled link below the description, both in a new
  tab; lines 136--144: the \<open>View all skills\<close> link.\<close>

definition project_anchors :: "project \<Rightarrow> anchor list" where
  "project_anchors p =
     map (\<lambda>(l, u). ext_link [] u) (card_links (project_card p)) @
     map (\<lambda>(l, u). ext_link l u) (card_links (project_card p))"

definition showcase_anchors :: "anchor list" where
  "showcase_anchors = concat (map project_anchors projects_data) @ [page_link ''View all skills'' ''#skills'' Follow]"

text \<open>\<open>Footer.tsx\<close>: the \<open>Top\<close> link (lines 78--93), the e-mail address (109--124), a
  card per social link and one for the e-mail (128--164), and the social links of the
  bottom row (178--188).\<close>

definition footer_anchors :: "anchor list" where
  "footer_anchors =
     [page_link ''Top'' ''#'' Scroll_to_top, page_link (email site) mail_link Follow] @
     map (\<lambda>(n, h). ext_link n h) social_links @ [page_link ''Email'' mail_link Follow] @
     map (\<lambda>(n, h). ext_link n h) social_links"

definition page_anchors :: "anchor list" where
  "page_anchors = header_anchors @ sheet_anchors @ hero_anchors @ about_anchors @ showcase_anchors @ footer_anchors"

text \<open>What the browser does on a click: scroll to the top (the default prevented), save a
  file, open a new tab, jump to an element of the page, or leave for another URL
  (\<open>mailto:\<close> included).\<close>

datatype page_effect = Scroll_top | Save_file string | Open_tab string | Jump string | Leave string

definition anchor_effect :: "anchor \<Rightarrow> page_effect" where
  "anchor_effect a =
     (if a_click a = Scroll_to_top then Scroll_top
      else if download a then Save_file (href a)
      else if new_tab a then Open_tab (href a)
      else case anchor_target (href a) of Some i \<Rightarrow> Jump i | None \<Rightarrow> Leave (href a))"

text \<open>What an anchor of the page must do: a jump reaches an element the page renders, a new
  tab is opened without access to the page (\<open>noopener\<close>), a saved file is the CV.\<close>

definition anchor_ok :: "anchor \<Rightarrow> bool" where
  "anchor_ok a \<longleftrightarrow>
     (case anchor_effect a of
        Jump i \<Rightarrow> i \<in> set page_ids
      | Open_tab u \<Rightarrow> noopener a
      | Save_file f \<Rightarrow> f = resume_url site
      | Scroll_top \<Rightarrow> True
      | Leave u \<Rightarrow> starts_with ''mailto:'' u)"

subsection \<open>The mobile menu's sheet (\<open>MobileMenu.tsx\<close>)\<close>

text \<open>The sheet is open or closed (\<open>isOpen\<close>, line 21).  The trigger and the sheet's own
  close controls (overlay, close button, Escape) report through \<open>onOpenChange\<close> (line 28);
  a click on one of its anchors runs the anchor's handler, then the browser performs the
  anchor's effect.  The entries slide in one after the other, \<open>index * 0.05\<close> s apart
  (line 60).\<close>

datatype sheet_event = Sheet_open_change bool | Sheet_click nat

fun sheet_step :: "sheet_event \<Rightarrow> bool \<Rightarrow> bool \<times> page_effect option" where
  "sheet_step (Sheet_open_change b) is_open = (menu_step (Open_change b) is_open, None)"
| "sheet_step (Sheet_click i) is_open =
     (if is_open \<and> i < length sheet_anchors
      then (if a_click (sheet_anchors ! i) = Close_sheet then menu_step Nav_click is_open else is_open,
            Some (anchor_effect (sheet_anchors ! i)))
      else (is_open, None))"

definition sheet_delays :: "rat list" where
  "sheet_delays = map (\<lambda>i. of_nat i * (5 / 100)) [0..<length nav_items]"

subsection \<open>Entrance on scroll (\<open>FadeInView.tsx\<close>)\<close>

text \<open>Lines 19--29: the offset a block starts from, by direction; lines 35--40: it moves to
  its place with full opacity once it has come into view (\<open>viewport once\<close>), and stays
  there.\<close>

datatype fade_direction = Fade_up | Fade_down | Fade_left | Fade_right

fun fade_offset :: "fade_direction \<Rightarrow> int \<times> int" where
  "fade_offset Fade_up = (0, 30)"
| "fade_offset Fade_down = (0, -30)"
| "fade_offset Fade_left = (30, 0)"
| "fade_offset Fade_right = (-30, 0)"

record fade_view =
  fade_dir :: fade_direction
  fade_delay :: rat
  fade_seen :: bool

definition fade_in :: "fade_direction \<Rightarrow> rat \<Rightarrow> fade_view" where
  "fade_in d t = \<lparr>fade_dir = d, fade_delay = t, fade_seen = False\<rparr>"

definition fade_step :: "bool \<Rightarrow> fade_view \<Rightarrow> fade_view" where
  "fade_step in_view f = (if in_view then f\<lparr>fade_seen := True\<rparr> else f)"

text \<open>Opacity (in percent) and offset the block is animated to.\<close>

definition fade_target :: "fade_view \<Rightarrow> nat \<times> int \<times> int" where
  "fade_target f = (if fade_seen f then (100, 0, 0) else (0, fade_offset (fade_dir f)))"

subsection \<open>The orbit over time (\<open>OrbitingLogos.tsx\<close>)\<close>

text \<open>Lines 43--50 and 85--92: the ring turns by \<open>direction * 360\<close> degrees per
  \<open>duration\<close> seconds, linearly and repeating; every logo turns by \<open>direction * -360\<close>
  with the same duration to stay upright.  At time \<open>t\<close> a repeating linear animation is at
  the fraction \<open>t / duration - floor (t / duration)\<close> of its cycle.\<close>

definition cycle :: "rat \<Rightarrow> rat \<Rightarrow> rat" where
  "cycle duration t = t / duration - of_int (floor (t / duration))"

definition ring_rotation :: "int \<Rightarrow> rat \<Rightarrow> rat \<Rightarrow> rat" where
  "ring_rotation direction duration t = of_int direction * 360 * cycle duration t"

definition logo_spin :: "int \<Rightarrow> rat \<Rightarrow> rat \<Rightarrow> rat" where
  "logo_spin direction duration t = of_int direction * -360 * cycle duration t"

text \<open>Where the \<open>i\<close>-th of \<open>n\<close> logos is on the ring at time \<open>t\<close>, in degrees, and how
  far it is turned from upright.\<close>

definition logo_position :: "int \<Rightarrow> rat \<Rightarrow> nat \<Rightarrow> nat \<Rightarrow> rat \<Rightarrow> rat" where
  "logo_position direction duration n i t = logo_angle n i + ring_rotation direction duration t"

definition logo_tilt :: "int \<Rightarrow> rat \<Rightarrow> rat \<Rightarrow> rat" where
  "logo_tilt direction duration t = ring_rotation direction duration t + logo_spin direction duration t"

subsection \<open>The side grids (\<open>VerticalLogoGrid.tsx\<close>)\<close>

datatype grid_side = Grid_left | Grid_right

record grid_item =
  g_logo :: logo_item
  g_from_x :: int
  g_enter_delay :: rat
  g_hover_turn :: int
  g_bob_period :: rat
  g_bob_delay :: rat

text \<open>Lines 15--39 and 49--76: items enter from their side (30 px), staggered by
  0.15 s after 0.3 s; a hover turns them 15 degrees towards the centre; each bobs with a
  period of \<open>3 + index * 0.5\<close> s, starting \<open>index * 0.2\<close> s late.\<close>

definition grid_items :: "grid_side \<Rightarrow> logo_item list \<Rightarrow> grid_item list" where
  "grid_items pos logos =
     map (\<lambda>(i, l). \<lparr>g_logo = l, g_from_x = (if pos = Grid_left then -30 else 30),
                    g_enter_delay = 3 / 10 + of_nat i * (15 / 100),
                    g_hover_turn = (if pos = Grid_left then 15 else -15),
                    g_bob_period = 3 + of_nat i * (1 / 2), g_bob_delay = of_nat i * (2 / 10)\<rparr>)
       (enumerate 0 logos)"

subsection \<open>The hero's layout (\<open>HeroSection.tsx\<close>)\<close>

text \<open>Lines 40--42, 86--88 and 92--120: on a wide screen the two grids flank the orbit; on a
  narrow one only the first two logos of each grid are shown, below it.\<close>

record hero_view =
  hero_left :: "grid_item list"
  hero_right :: "grid_item list"
  hero_mobile :: "logo_item list \<times> logo_item list"
  hero_orbit :: "logo_item list"

definition hero :: hero_view where
  "hero = \<lparr>hero_left = grid_items Grid_left left_grid_logos, hero_right = grid_items Grid_right right_grid_logos,
           hero_mobile = (take 2 left_grid_logos, take 2 right_grid_logos), hero_orbit = orbit_logos\<rparr>"

subsection \<open>The footer's background (\<open>Footer.tsx\<close> lines 19--65)\<close>

text \<open>The \<open>i\<close>-th code symbol floats at \<open>((i * 17 + 5) mod 95)\<close>% from the left and
  \<open>((i * 23 + 10) mod 90)\<close>% from the top, for \<open>6 + (i mod 4) * 2\<close> s per cycle, starting
  \<open>i * 0.4\<close> s late.\<close>

definition code_symbols :: "string list" where
  "code_symbols = [''<div>'', ''</>'', ''{  }'', ''( )'', ''[ ]'', ''&&'', ''=>'', ''==='',
                   ''const'', ''async'', ''return'', ''.map()'', ''flex'', ''grid'',
                   ''@keyframes'', ''transform'', ''::after'', '':hover'']"

record floating_symbol =
  sym_text :: string
  sym_left :: nat
  sym_top :: nat
  sym_period :: nat
  sym_delay :: rat

definition symbol_at :: "nat \<Rightarrow> string \<Rightarrow> floating_symbol" where
  "symbol_at i s = \<lparr>sym_text = s, sym_left = (i * 17 + 5) mod 95, sym_top = (i * 23 + 10) mod 90,
                    sym_period = 6 + (i mod 4) * 2, sym_delay = of_nat i * (4 / 10)\<rparr>"

definition floating_symbols :: "floating_symbol list" where
  "floating_symbols = map (\<lambda>(i, s). symbol_at i s) (enumerate 0 code_symbols)"

subsection \<open>Scroll-linked values\<close>

text \<open>framer-motion's \<open>useTransform(v, [a, b], [c, d])\<close>: linear from \<open>c\<close> at \<open>a\<close> to
  \<open>d\<close> at \<open>b\<close>, clamped outside (the library's default).  \<open>App.tsx\<close> lines 26--27 and
  45--49 turn the page's scroll offset into the opacity of the fixed header's background;
  \<open>ClaySculpture.tsx\<close> lines 27--31 (a component no page renders) turns the scroll progress
  into a parallax offset and a slight rotation.\<close>

definition interpolate :: "rat \<times> rat \<Rightarrow> rat \<times> rat \<Rightarrow> rat \<Rightarrow> rat" where
  "interpolate inp out x =
     (let (a, b) = inp; (c, d) = out in
      if x \<le> a then c else if b \<le> x then d else c + (x - a) * (d - c) / (b - a))"

definition header_bg_opacity :: "rat \<Rightarrow> rat" where
  "header_bg_opacity scroll_y = interpolate (0, 100) (0, 95 / 100) scroll_y"

definition clay_offset :: "rat \<Rightarrow> rat \<Rightarrow> rat" where
  "clay_offset speed progress = interpolate (0, 1) (0, -150 * speed) progress"

definition clay_rotate :: "rat \<Rightarrow> rat" where
  "clay_rotate progress = interpolate (0, 1) (-3, 3) progress"

subsection \<open>The mission statement (\<open>MissionSection.tsx\<close>)\<close>

text \<open>Line 4: the sentence split on spaces, one animated \<open>span\<close> per word (lines 61--69),
  the \<open>i\<close>-th entering \<open>0.1 + i * 0.03\<close> s after the paragraph comes into view (lines
  5--28); two faint logos fade in behind it (lines 32--51).\<close>

definition mission_text :: string where
  "mission_text = ''Building robust, scalable applications with clean code and modern technologies to solve real-world problems.''"

definition mission_words :: "string list" where
  "mission_words = split_on (CHR '' '') mission_text"

definition mission_word_delays :: "rat list" where
  "mission_word_delays = map (\<lambda>i. 1 / 10 + of_nat i * (3 / 100)) [0..<length mission_words]"

record backdrop_logo =
  bd_src :: string
  bd_opacity :: rat
  bd_delay :: rat

definition mission_backdrop :: "backdrop_logo list" where
  "mission_backdrop = [\<lparr>bd_src = ''/assets/python.webp'', bd_opacity = 8 / 100, bd_delay = 0\<rparr>,
                       \<lparr>bd_src = ''/assets/spring.webp'', bd_opacity = 6 / 100, bd_delay = 3 / 10\<rparr>]"

subsection \<open>The About section (\<open>AboutSection.tsx\<close>)\<close>

text \<open>Lines 11--90: the years badge, the name, title, location and years from the site
  configuration, one chip per specialty (keyed by the specialty), the CV download, and the two
  columns fading in from the left and, 0.2 s later, from the right.\<close>

record about_view =
  about_badge :: string
  about_name :: string
  about_title :: string
  about_location :: string
  about_years :: string
  about_specialties :: "string list"
  about_cv :: anchor
  about_fades :: "fade_view list"

definition about :: about_view where
  "about =
     \<lparr>about_badge = nat_str (years_experience site) @ ''+'', about_name = site_name site,
      about_title = site_title site, about_location = location site,
      about_years = nat_str (years_experience site) @ ''+ years of experience'',
      about_specialties = specialties site, about_cv = hd about_anchors,
      about_fades = [fade_in Fade_left 0, fade_in Fade_right (2 / 10)]\<rparr>"

lemma header_anchors_links: "map (\<lambda>a. (a_label a, href a)) header_anchors = header_links"
  by (simp add: header_anchors_def header_links_def page_link_def file_link_def)

text \<open>Every anchor the page renders does what it should: an in-page link jumps to an
  element that a rendered section carries, every link that opens a new tab does so with
  \<open>noopener\<close>, every download is the site's CV, the footer's top link scrolls, and the
  only other navigation is the \<open>mailto:\<close> link.\<close>

theorem page_anchors_ok: "list_all anchor_ok page_anchors"
  by code_simp

subsection \<open>Properties of the components\<close>

lemma sheet_anchors_close: "list_all (\<lambda>a. a_click a = Close_sheet) sheet_anchors"
  by (simp add: sheet_anchors_def nav_items_def page_link_def file_link_def)

lemma sheet_click_closes:
  "i < length sheet_anchors \<Longrightarrow>
   sheet_step (Sheet_click i) True = (False, Some (anchor_effect (sheet_anchors ! i)))"
  using sheet_anchors_close by (simp add: list_all_length)

lemma fade_step_seen: "fade_seen f \<Longrightarrow> fade_seen (fold fade_step bs f)"
  by (induction bs arbitrary: f) (simp_all add: fade_step_def)

lemma fade_stays:
  "fade_target (fold fade_step (bs @ True # cs) f) = (100, 0, 0)"
  by (simp add: fade_target_def fade_step_seen fade_step_def)

lemma cycle_range: "0 \<le> cycle d t \<and> cycle d t < 1"
  by (simp add: cycle_def) linarith

lemma logo_tilt_zero: "logo_tilt direction duration t = 0"
  by (simp add: logo_tilt_def ring_rotation_def logo_spin_def)

lemma logo_position_diff:
  "0 < n \<Longrightarrow> logo_position direction duration n i t - logo_position direction duration n j t
             = (of_int (int i - int j) * 360) / of_nat n"
  by (simp add: logo_position_def logo_angle_def angle_step_def field_simps)

lemma ring_distinct:
  assumes "i < n" "j < n" "i \<noteq> j"
  shows "\<not> (\<exists>k::int. (of_int (int i - int j) * 360) / (of_nat n :: rat) = of_int k * 360)"
proof
  assume "\<exists>k::int. (of_int (int i - int j) * 360) / (of_nat n :: rat) = of_int k * 360"
  then obtain k :: int where "(of_int (int i - int j) * 360) / (of_nat n :: rat) = of_int k * 360" ..
  then have "(of_int (int i - int j) :: rat) = of_int (k * int n)"
    using assms by (simp add: field_simps)
  then have eq: "int i - int j = k * int n" by (simp only: of_int_eq_iff)
  show False
  proof (cases "k = 0")
    case True with eq assms(3) show False by simp
  next
    case False
    then have "1 \<le> \<bar>k\<bar>" by arith
    then have "int n \<le> \<bar>k * int n\<bar>" by (simp add: abs_mult mult_le_cancel_right1)
    with eq assms(1,2) show False by linarith
  qed
qed

text \<open>C27: The orbit stays even and upright while it turns: for any non-empty list of logos,
  at every moment of the animation the logos sit at distinct points of the ring, consecutive
  ones \<open>360 / n\<close> degrees apart, and each logo's counter-rotation cancels the ring's, so
  it is upright.\<close>

theorem orbit_in_motion:
  assumes "0 < n"
  shows "\<forall>t. logo_tilt direction duration t = 0
             \<and> (\<forall>i < n. \<forall>j < n. i \<noteq> j \<longrightarrow>
                  \<not> (\<exists>k::int. logo_position direction duration n i t - logo_position direction duration n j t = of_int k * 360))
             \<and> (\<forall>i. Suc i < n \<longrightarrow>
                  logo_position direction duration n (Suc i) t - logo_position direction duration n i t = 360 / of_nat n)"
proof (intro allI conjI impI)
  fix t i j assume "i < n" "j < n" "i \<noteq> j"
  then show "\<not> (\<exists>k::int. logo_position direction duration n i t - logo_position direction duration n j t = of_int k * 360)"
    using ring_distinct [of i n j] logo_position_diff [OF assms] by simp
next
  fix t i
  show "logo_position direction duration n (Suc i) t - logo_position direction duration n i t = 360 / of_nat n"
    using logo_position_diff [OF assms, of direction duration "Suc i" t i] by simp
qed (simp add: logo_tilt_zero)

lemma mod_coprime_inj:
  assumes "coprime a (m::nat)" "i < m" "j < m" "(i * a + b) mod m = (j * a + b) mod m"
  shows "i = j"
proof -
  have "(int i * int a + int b) mod int m = (int j * int a + int b) mod int m"
    using arg_cong [OF assms(4), of int] by (simp add: of_nat_mod)
  then have "int m dvd (int i * int a + int b) - (int j * int a + int b)" by (simp only: mod_eq_dvd_iff)
  then have "int m dvd (int i - int j) * int a" by (simp add: algebra_simps)
  then have "int m dvd int i - int j"
    using assms(1) by (simp add: coprime_dvd_mult_left_iff coprime_commute)
  then obtain k where eq: "int i - int j = int m * k" by (auto elim: dvdE)
  have lt: "\<bar>int m * k\<bar> < int m" using eq assms(2,3) by arith
  show ?thesis
  proof (rule ccontr)
    assume "i \<noteq> j"
    then have "k \<noteq> 0" using eq by auto
    then have "1 \<le> \<bar>k\<bar>" by arith
    then have "int m \<le> int m * \<bar>k\<bar>" using mult_left_mono [of 1 "\<bar>k\<bar>" "int m"] by simp
    with lt show False by (simp add: abs_mult)
  qed
qed

lemma coprime_17_95: "coprime (17::nat) 95" by code_simp
lemma coprime_23_90: "coprime (23::nat) 90" by code_simp

text \<open>The footer's floating symbols stay inside the footer, and any two of up to 90 of them
  are in different columns and different rows: \<open>17\<close> is coprime to \<open>95\<close> and \<open>23\<close> to
  \<open>90\<close>.\<close>

lemma symbols_spread:
  "i < 90 \<Longrightarrow> j < 90 \<Longrightarrow> i \<noteq> j \<Longrightarrow>
   sym_left (symbol_at i s) \<noteq> sym_left (symbol_at j s') \<and> sym_top (symbol_at i s) \<noteq> sym_top (symbol_at j s')
   \<and> sym_left (symbol_at i s) < 95 \<and> sym_top (symbol_at i s) < 90"
  using mod_coprime_inj [OF coprime_17_95, of i j 5] mod_coprime_inj [OF coprime_23_90, of i j 10]
  by (auto simp: symbol_at_def)


lemma grid_mirror:
  "grid_items Grid_left ls =
     map (\<lambda>g. g\<lparr>g_from_x := - g_from_x g, g_hover_turn := - g_hover_turn g\<rparr>) (grid_items Grid_right ls)"
  by (simp add: grid_items_def case_prod_beta)

lemma grid_enter_delays:
  "map g_enter_delay (grid_items pos ls) = map (\<lambda>i. 3 / 10 + of_nat i * (15 / 100)) [0..<length ls]"
  by (rule nth_equalityI) (simp_all add: grid_items_def case_prod_beta enumerate_eq_zip)

lemma grid_enter_in_order: "sorted_wrt (<) (map g_enter_delay (grid_items pos ls))"
  unfolding grid_enter_delays by (simp add: sorted_wrt_map sorted_wrt_iff_nth_less)

lemma interpolate_bounds:
  assumes "a < b" "c \<le> d"
  shows "c \<le> interpolate (a, b) (c, d) x \<and> interpolate (a, b) (c, d) x \<le> d"
proof -
  have "0 \<le> (x - a) * (d - c) / (b - a)" if "a < x" using that assms by simp
  moreover have "(x - a) * (d - c) / (b - a) \<le> d - c" if "x < b"
  proof -
    have "(x - a) * (d - c) \<le> (b - a) * (d - c)" using that assms by (simp add: mult_right_mono)
    then show ?thesis using assms by (simp add: divide_le_eq mult.commute)
  qed
  ultimately show ?thesis using assms by (auto simp: interpolate_def)
qed

lemma interpolate_mono:
  assumes "a < b" "c \<le> d" "x \<le> y"
  shows "interpolate (a, b) (c, d) x \<le> interpolate (a, b) (c, d) y"
proof -
  have lin: "c + (x - a) * (d - c) / (b - a) \<le> c + (y - a) * (d - c) / (b - a)"
    using assms by (simp add: divide_right_mono mult_right_mono)
  show ?thesis using interpolate_bounds [OF assms(1,2), of x] interpolate_bounds [OF assms(1,2), of y] assms lin
    by (auto simp: interpolate_def)
qed

lemma interpolate_flip: "interpolate (a, b) (c, d) x = - interpolate (a, b) (- c, - d) x"
  by (simp add: interpolate_def field_simps)

lemma header_bg_range:
  "0 \<le> header_bg_opacity y \<and> header_bg_opacity y \<le> 95 / 100
   \<and> (y \<le> y' \<longrightarrow> header_bg_opacity y \<le> header_bg_opacity y')
   \<and> (100 \<le> y \<longrightarrow> header_bg_opacity y = 95 / 100)"
  using interpolate_bounds [of 0 100 0 "95 / 100" y] interpolate_mono [of 0 100 0 "95 / 100" y y']
  by (auto simp: header_bg_opacity_def interpolate_def)

lemma clay_range:
  assumes "0 \<le> speed"
  shows "-150 * speed \<le> clay_offset speed p \<and> clay_offset speed p \<le> 0
         \<and> -3 \<le> clay_rotate p \<and> clay_rotate p \<le> 3"
proof -
  have f: "interpolate (0, 1) (0, - (150 * speed)) p = - interpolate (0, 1) (0, 150 * speed) p"
    using interpolate_flip [of 0 1 0 "- (150 * speed)" p] by simp
  show ?thesis
    using interpolate_bounds [of 0 1 0 "150 * speed" p] interpolate_bounds [of 0 1 "-3" 3 p] assms
    by (simp add: clay_offset_def clay_rotate_def f)
qed

lemma mission_words_spell: "join_with (CHR '' '') mission_words = mission_text"
  by (simp add: mission_words_def join_split_on)

lemma mission_words_shape: "length mission_words = 14 \<and> list_all (\<lambda>w. w \<noteq> []) mission_words"
  by (simp add: mission_words_def mission_text_def)

lemma about_keys_distinct: "distinct (about_specialties about)"
  by (simp add: about_def site_def)

lemma about_agrees: "about_badge about = ''2+'' \<and> about_years about = ''2+ years of experience''
   \<and> anchor_effect (about_cv about) = Save_file (resume_url site)"
  by code_simp

subsection \<open>Witnesses\<close>

theorem orbit_in_motion_witness:
  "logo_tilt 1 40 25 = 0
   \<and> \<not> (\<exists>k::int. logo_position 1 40 (length orbit_logos) 0 25 - logo_position 1 40 (length orbit_logos) 3 25 = of_int k * 360)
   \<and> logo_position 1 40 (length orbit_logos) 1 25 - logo_position 1 40 (length orbit_logos) 0 25 = 45"
proof -
  have n: "length orbit_logos = 8" by (simp add: orbit_logos_def)
  have "\<forall>t. logo_tilt 1 40 t = 0
             \<and> (\<forall>i < 8. \<forall>j < 8. i \<noteq> j \<longrightarrow>
                  \<not> (\<exists>k::int. logo_position 1 40 8 i t - logo_position 1 40 8 j t = of_int k * 360))
             \<and> (\<forall>i. Suc i < 8 \<longrightarrow> logo_position 1 40 8 (Suc i) t - logo_position 1 40 8 i t = 360 / of_nat 8)"
    by (rule orbit_in_motion) simp
  then have h: "logo_tilt 1 40 25 = 0
             \<and> (\<forall>i < 8. \<forall>j < 8. i \<noteq> j \<longrightarrow>
                  \<not> (\<exists>k::int. logo_position 1 40 8 i 25 - logo_position 1 40 8 j 25 = of_int k * 360))
             \<and> (\<forall>i. Suc i < 8 \<longrightarrow> logo_position 1 40 8 (Suc i) 25 - logo_position 1 40 8 i 25 = 360 / of_nat 8)"
    by (rule spec)
  have "\<not> (\<exists>k::int. logo_position 1 40 8 0 25 - logo_position 1 40 8 3 25 = of_int k * 360)"
    by (rule h [THEN conjunct2, THEN conjunct1, rule_format, of 0 3]) simp_all
  moreover have "logo_position 1 40 8 (Suc 0) 25 - logo_position 1 40 8 0 25 = 360 / of_nat 8"
    by (rule h [THEN conjunct2, THEN conjunct2, rule_format, of 0]) simp
  ultimately have "logo_tilt 1 40 25 = 0
      \<and> \<not> (\<exists>k::int. logo_position 1 40 8 0 25 - logo_position 1 40 8 3 25 = of_int k * 360)
      \<and> logo_position 1 40 8 1 25 - logo_position 1 40 8 0 25 = 45"
    using h by simp
  then show ?thesis unfolding n by simp
qed

end
