(* ===== verification/Motion.thy ===== *)
theory Motion
  imports Pages
begin

text \<open>
  Keyframe animations over time and the footer's animated background
  (\<open>sections/Footer.tsx\<close>): three blurred \<open>aurora\<close> blobs driven by the CSS animation
  \<open>aurora-float\<close> of the inline style sheet (lines 194--249), and the floating code
  symbols' framer keyframes (lines 52--61); and the words of \<open>sections/MissionSection.tsx\<close>
  entering one after the other.  A keyframe list is a list of offsets in the
  cycle, from 0 to 1, each with a value; between two keyframes the model moves linearly.
  The easing functions (\<open>ease-in-out\<close>, \<open>easeInOut\<close>) change how fast a segment is
  crossed, not the values it crosses, so the ranges below hold for the eased animation too.
\<close>

subsection \<open>Keyframes\<close>

fun key_at :: "(rat \<times> rat) list \<Rightarrow> rat \<Rightarrow> rat" where
  "key_at [] x = 0"
| "key_at [(a, c)] x = c"
| "key_at ((a, c) # (b, d) # ks) x = (if x \<le> b then interpolate (a, b) (c, d) x else key_at ((b, d) # ks) x)"

subsection \<open>The aurora blobs (lines 28--32 and 194--249)\<close>

text \<open>\<open>@keyframes aurora-float\<close>: a translation and a scale at 0, 25, 50, 75 and 100 per
  cent of the cycle.\<close>

record aurora_frame =
  shift_x :: rat
  shift_y :: rat
  scale :: rat

definition aurora_float :: "rat \<Rightarrow> aurora_frame" where
  "aurora_float f =
     \<lparr>shift_x = key_at [(0, 0), (1/4, 50), (1/2, -20), (3/4, 30), (1, 0)] f,
      shift_y = key_at [(0, 0), (1/4, -30), (1/2, 40), (3/4, 20), (1, 0)] f,
      scale = key_at [(0, 1), (1/4, 11/10), (1/2, 95/100), (3/4, 105/100), (1, 1)] f\<rparr>"







subsection \<open>The floating code symbols (lines 52--61)\<close>

text \<open>Each symbol rises 30 px and brightens from 2 to 6 per cent opacity and back, evenly
  spaced keyframes (framer's default times), from its delay on.\<close>

definition symbol_y :: "floating_symbol \<Rightarrow> rat \<Rightarrow> rat" where
  "symbol_y s t =
     (if t < sym_delay s then 0
      else key_at [(0, 0), (1/2, -30), (1, 0)] (cycle (of_nat (sym_period s)) (t - sym_delay s)))"

definition symbol_opacity :: "floating_symbol \<Rightarrow> rat \<Rightarrow> rat" where
  "symbol_opacity s t =
     (if t < sym_delay s then 2/100
      else key_at [(0, 2/100), (1/2, 6/100), (1, 2/100)] (cycle (of_nat (sym_period s)) (t - sym_delay s)))"

subsection \<open>The mission statement's words (\<open>sections/MissionSection.tsx\<close> lines 18--31, 57--77)\<close>

text \<open>Once the paragraph is in view, word \<open>i\<close> goes from transparent and 20 px low to opaque
  and in place over 0.5 s, from its delay \<open>Pages.mission_word_delays ! i\<close> on; \<open>t\<close> is the
  time since the paragraph came into view.  The cubic easing of line 28 is replaced by the
  straight line between the same end points.\<close>

record word_state =
  ws_word :: string
  ws_opacity :: rat
  ws_y :: rat

definition word_at :: "rat \<Rightarrow> string \<Rightarrow> rat \<Rightarrow> word_state" where
  "word_at t w d =
     \<lparr>ws_word = w, ws_opacity = interpolate (d, d + 1/2) (0, 1) t, ws_y = interpolate (d, d + 1/2) (20, 0) t\<rparr>"

definition mission_at :: "rat \<Rightarrow> word_state list" where
  "mission_at t = map (\<lambda>(w, d). word_at t w d) (zip mission_words mission_word_delays)"

subsection \<open>Ranges\<close>

text \<open>A keyframe animation stays between its least and its greatest keyframe.\<close>

lemma interpolate_between:
  assumes "a < b"
  shows "min c d \<le> interpolate (a, b) (c, d) x \<and> interpolate (a, b) (c, d) x \<le> max c d"
proof (cases "c \<le> d")
  case True then show ?thesis using interpolate_bounds [OF assms True, of x] by simp
next
  case False
  then have "- c \<le> - d" by simp
  from interpolate_bounds [OF assms this, of x] False show ?thesis
    using interpolate_flip [of a b c d x] by simp
qed

lemma key_at_between:
  assumes "sorted_wrt (<) (map fst ks)" "\<forall>v \<in> snd ` set ks. lo \<le> v \<and> v \<le> hi" "ks \<noteq> []"
  shows "lo \<le> key_at ks x \<and> key_at ks x \<le> hi"
  using assms
proof (induction ks x rule: key_at.induct)
  case (3 a c b d ks x)
  show ?case
  proof (cases "x \<le> b")
    case True
    have "a < b" using "3.prems"(1) by simp
    from interpolate_between [OF this, of c d x] True "3.prems"(2) show ?thesis by auto
  next
    case False
    with "3.IH" "3.prems" show ?thesis by simp
  qed
qed simp_all



lemma aurora_float_loops:
  "aurora_float 0 = \<lparr>shift_x = 0, shift_y = 0, scale = 1\<rparr> \<and> aurora_float 1 = aurora_float 0"
  by (simp add: aurora_float_def interpolate_def)

lemma symbol_ranges:
  "-30 \<le> symbol_y s t \<and> symbol_y s t \<le> 0 \<and> 2/100 \<le> symbol_opacity s t \<and> symbol_opacity s t \<le> 6/100"
proof -
  have y: "-30 \<le> key_at [(0, 0), (1/2, -30), (1, 0)] f \<and> key_at [(0, 0), (1/2, -30), (1, 0)] f \<le> 0" for f
    by (rule key_at_between) auto
  have op: "2/100 \<le> key_at [(0, 2/100), (1/2, 6/100), (1, 2/100)] f
           \<and> key_at [(0, 2/100), (1/2, 6/100), (1, 2/100)] f \<le> 6/100" for f
    by (rule key_at_between) auto
  show ?thesis using y op by (simp add: symbol_y_def symbol_opacity_def)
qed

lemma interpolate_unit_shift:
  "interpolate (d, d + h) (c, e) t = interpolate (0, h) (c, e) (t - d)"
  by (simp add: interpolate_def)

lemma mission_length: "length (mission_at t) = 14"
  using mission_words_shape by (simp add: mission_at_def mission_word_delays_def)

lemma mission_word_state:
  assumes "k < 14"
  shows "mission_at t ! k =
           \<lparr>ws_word = mission_words ! k,
            ws_opacity = interpolate (0, 1/2) (0, 1) (t - (1/10 + of_nat k * (3/100))),
            ws_y = interpolate (0, 1/2) (20, 0) (t - (1/10 + of_nat k * (3/100)))\<rparr>"
proof -
  have "mission_at t ! k = word_at t (mission_words ! k) (1/10 + of_nat k * (3/100))"
    using assms mission_words_shape by (simp add: mission_at_def mission_word_delays_def)
  then show ?thesis by (simp only: word_at_def interpolate_unit_shift)
qed

lemma mission_reads_in_order:
  assumes "i \<le> j" "j < 14"
  shows "ws_opacity (mission_at t ! j) \<le> ws_opacity (mission_at t ! i)"
proof -
  have "t - (1/10 + of_nat j * (3/100)) \<le> t - (1/10 + of_nat i * (3/100))"
    using assms(1) by simp
  from interpolate_mono [OF _ _ this, of 0 "1/2" 0 1] show ?thesis
    using assms by (simp add: mission_word_state)
qed

lemma mission_hidden_first:
  assumes "t \<le> 1/10"
  shows "list_all (\<lambda>s. ws_opacity s = 0 \<and> ws_y s = 20) (mission_at t)"
  unfolding list_all_length mission_length
proof (intro allI impI)
  fix k :: nat assume k: "k < 14"
  have "t - (1/10 + of_nat k * (3/100)) \<le> 0" using assms by simp
  then show "ws_opacity (mission_at t ! k) = 0 \<and> ws_y (mission_at t ! k) = 20"
    by (simp add: mission_word_state [OF k] interpolate_def del: diff_le_0_iff_le)
qed

lemma mission_settled:
  assumes "99/100 \<le> t"
  shows "list_all (\<lambda>s. ws_opacity s = 1 \<and> ws_y s = 0) (mission_at t)"
  unfolding list_all_length mission_length
proof (intro allI impI)
  fix k :: nat assume k: "k < 14"
  have "of_nat k \<le> (13 :: rat)" using k by simp
  then have "\<not> t - (1/10 + of_nat k * (3/100)) \<le> 0" "1/2 \<le> t - (1/10 + of_nat k * (3/100))"
    using assms by linarith+
  then show "ws_opacity (mission_at t ! k) = 1 \<and> ws_y (mission_at t ! k) = 0"
    by (simp only: mission_word_state [OF k] interpolate_def Let_def split word_state.select_convs if_True if_False)
qed

lemma mission_spells: "map ws_word (mission_at t) = mission_words"
proof -
  have "map ws_word (mission_at t) = map fst (zip mission_words mission_word_delays)"
    by (simp add: mission_at_def word_at_def split_def comp_def)
  moreover have "length mission_word_delays = length mission_words"
    by (simp add: mission_word_delays_def)
  ultimately show ?thesis by simp
qed

text \<open>C33: The mission statement reveals itself in reading order.  At every moment after
  the paragraph comes into view an earlier word is never less visible than a later one;
  nothing shows before 0.1 s, the whole sentence is in place by 0.99 s, and the words shown
  are the sentence's, in order.\<close>

theorem mission_reveal:
  "(i \<le> j \<longrightarrow> j < 14 \<longrightarrow> ws_opacity (mission_at t ! j) \<le> ws_opacity (mission_at t ! i))
   \<and> (t \<le> 1/10 \<longrightarrow> list_all (\<lambda>s. ws_opacity s = 0 \<and> ws_y s = 20) (mission_at t))
   \<and> (99/100 \<le> t \<longrightarrow> list_all (\<lambda>s. ws_opacity s = 1 \<and> ws_y s = 0) (mission_at t))
   \<and> map ws_word (mission_at t) = mission_words"
  using mission_reads_in_order [of i j t] mission_hidden_first [of t] mission_settled [of t] mission_spells [of t]
  by blast

theorem mission_reveal_witness:
  "ws_opacity (mission_at (1/2) ! 13) \<le> ws_opacity (mission_at (1/2) ! 0)
   \<and> list_all (\<lambda>s. ws_opacity s = 1 \<and> ws_y s = 0) (mission_at 1)"
  using mission_reveal [of 0 13 "1/2"] mission_reveal [of 0 0 1] by simp

end
