(* ===== verification/Layout.thy ===== *)
theory Layout
  imports App Motion
begin

text \<open>
  What the page shows at a given viewport width.  The components choose between layouts with
  Tailwind's responsive utility classes (\<open>hidden md:flex\<close>, \<open>md:hidden\<close>, ...), which are
  \<open>min-width\<close> media queries at the default breakpoints (the repository ships no
  Tailwind configuration that changes them): \<open>sm\<close> 640 px, \<open>md\<close> 768 px, \<open>lg\<close>
  1024 px, \<open>xl\<close> 1280 px.  The 3D model decides by script instead
  (\<open>window.innerWidth < 768\<close>).  The timeline's line, dots and end dot are placed in
  pixels on narrow screens and at the centre on wide ones.  The theory also holds what the
  3D model's screens show and where they take clicks, the render of
  \<open>ClaySculpture.tsx\<close> over time, and the page's lazily loaded sections.
\<close>

subsection \<open>Breakpoints and display utilities\<close>

datatype breakpoint = Base | Sm | Md | Lg | Xl

fun bp_min :: "breakpoint \<Rightarrow> nat" where
  "bp_min Base = 0"
| "bp_min Sm = 640"
| "bp_min Md = 768"
| "bp_min Lg = 1024"
| "bp_min Xl = 1280"

text \<open>A responsive utility family resolves the same way whatever it sets: \<open>class_at d cls w\<close>
  is the value of the utility with the largest breakpoint the width \<open>w\<close> has reached, or
  \<open>d\<close> with none.\<close>

definition class_at :: "'a \<Rightarrow> (breakpoint \<times> 'a) list \<Rightarrow> nat \<Rightarrow> 'a" where
  "class_at d cls w =
     (case sort_key (\<lambda>(b, v). bp_min b) (filter (\<lambda>(b, v). bp_min b \<le> w) cls) of
        [] \<Rightarrow> d
      | xs \<Rightarrow> snd (last xs))"

text \<open>A display utility at a breakpoint: \<open>hidden\<close> or a visible display (\<open>flex\<close>,
  \<open>block\<close>, \<open>inline\<close>).  Of the utilities whose breakpoint the width has reached, the
  one with the largest breakpoint wins (Tailwind emits the media queries in breakpoint order);
  with none, the element is shown.\<close>

type_synonym display_classes = "(breakpoint \<times> bool) list"

definition shown_at :: "display_classes \<Rightarrow> nat \<Rightarrow> bool" where
  "shown_at cls w = class_at True cls w"

subsection \<open>The classes the components use\<close>

text \<open>\<open>hidden md:flex\<close> (and \<open>hidden md:block\<close>), \<open>md:hidden\<close>, \<open>hidden sm:inline\<close>,
  \<open>hidden lg:block\<close>.\<close>

definition from_md :: display_classes where "from_md = [(Base, False), (Md, True)]"
definition below_md :: display_classes where "below_md = [(Md, False)]"
definition from_sm :: display_classes where "from_sm = [(Base, False), (Sm, True)]"
definition from_lg :: display_classes where "from_lg = [(Base, False), (Lg, True)]"

subsection \<open>The header (\<open>Header.tsx\<close>, \<open>MobileMenu.tsx\<close>)\<close>

record header_layout =
  show_label :: bool
  show_title :: bool
  show_desktop_nav :: bool
  show_menu_button :: bool

text \<open>\<open>Header.tsx\<close> line 45 (the \<open>PORTFOLIO\<close> label, \<open>hidden sm:inline\<close>), line 52 (the
  title, \<open>hidden lg:block\<close>), line 61 (the links, \<open>hidden md:flex\<close>); \<open>MobileMenu.tsx\<close>
  line 31 (the menu button, \<open>md:hidden\<close>).\<close>

definition header_at :: "nat \<Rightarrow> header_layout" where
  "header_at w =
     \<lparr>show_label = shown_at from_sm w, show_title = shown_at from_lg w,
      show_desktop_nav = shown_at from_md w, show_menu_button = shown_at below_md w\<rparr>"

subsection \<open>The hero (\<open>HeroSection.tsx\<close>)\<close>

record hero_layout =
  show_side_grids :: bool
  show_bottom_logos :: bool
  show_tagline :: bool
  show_scroll_label :: bool

text \<open>Lines 40 and 86 (the side grids, \<open>hidden md:flex\<close>), 92 (the logos below the orbit,
  \<open>md:hidden\<close>), 143 (the tagline, \<open>hidden md:block\<close>), 158 (\<open>Scroll down\<close>,
  \<open>hidden sm:inline\<close>).\<close>

definition hero_at :: "nat \<Rightarrow> hero_layout" where
  "hero_at w =
     \<lparr>show_side_grids = shown_at from_md w, show_bottom_logos = shown_at below_md w,
      show_tagline = shown_at from_md w, show_scroll_label = shown_at from_sm w\<rparr>"

text \<open>The logos the hero shows at a width: both grids beside the orbit, or the first two of
  each below it.\<close>

definition hero_logos_at :: "nat \<Rightarrow> logo_item list" where
  "hero_logos_at w =
     (if show_side_grids (hero_at w) then map g_logo (hero_left hero) @ map g_logo (hero_right hero) else []) @
     (if show_bottom_logos (hero_at w) then fst (hero_mobile hero) @ snd (hero_mobile hero) else [])"

subsection \<open>The timeline (\<open>TimelineSection.tsx\<close>)\<close>

text \<open>Lines 100, 122 (the two desktop columns, \<open>hidden md:flex\<close>) and 129 (the mobile
  card, \<open>md:hidden\<close>): the cards of a row that are on screen.\<close>

definition row_cards_at :: "nat \<Rightarrow> tl_row \<Rightarrow> tl_card list" where
  "row_cards_at w r =
     (if shown_at from_md w then (case desktop_left r of Some c \<Rightarrow> [c] | None \<Rightarrow> []) else []) @
     (if shown_at from_md w then (case desktop_right r of Some c \<Rightarrow> [c] | None \<Rightarrow> []) else []) @
     (if shown_at below_md w then [mobile r] else [])"

text \<open>Horizontal placement in pixels on narrow screens, as twice the centre so that it stays
  a natural number: the line (line 168: \<open>left-[27px]\<close>, \<open>w-0.5\<close>), an entry's dot (lines
  107--109: a column at \<open>left-5\<close> as wide as its \<open>w-4\<close> dot) and the end dot (line 179:
  \<open>left-[23px]\<close>, \<open>w-3\<close>).  On wide screens all three are centred at \<open>left-1/2\<close> (the line
  moved back by its own width's half, \<open>-translate-x-px\<close>, the dots by
  \<open>-translate-x-1/2\<close>).\<close>

definition twice_centre :: "nat \<Rightarrow> nat \<Rightarrow> nat" where
  "twice_centre left width = 2 * left + width"

definition line_centre :: nat where "line_centre = twice_centre 27 2"
definition entry_dot_centre :: nat where "entry_dot_centre = twice_centre 20 16"
definition end_dot_centre :: nat where "end_dot_centre = twice_centre 23 12"

subsection \<open>The About section's 3D model\<close>

text \<open>\<open>Spline3DModel.tsx\<close> line 54 decides by script what the layout decides by media query.\<close>

definition model_mobile_at :: "nat \<Rightarrow> bool" where
  "model_mobile_at w = (spline_render False (spline_mount w 0) = Mobile_fallback)"

text \<open>What each view of the component puts on screen.  \<open>LoadingFallback\<close> (lines 12--27)
  is a spinner turning once a second with its caption; \<open>MobileFallback\<close> (lines 29--47) is a
  button, the only part of the mobile view with an \<open>onClick\<close>, whose icon bobs 8 px; the
  desktop container (lines 76--82) is clickable as a whole and carries the scene (lines
  83--92) or the loading fallback, and the hint of lines 94--100, which is transparent
  unless the pointer is over the container (\<open>opacity-0 group-hover:opacity-100\<close>) and lets
  clicks through (\<open>pointer-events-none\<close>).\<close>

datatype spline_piece =
    Spinner nat string
  | Chat_button string
  | Scene_canvas string
  | Chat_hint string

definition loading_fallback :: "spline_piece list" where
  "loading_fallback = [Spinner 1000 ''Loading 3D Model...'']"

definition mobile_fallback :: "spline_piece list" where
  "mobile_fallback = [Chat_button ''Chat with AI'']"

definition spline_scene :: "spline_piece list" where
  "spline_scene = [Scene_canvas ''https://prod.spline.design/mPMAqOHq4WavjrIT/scene.splinecode'']"

definition chat_hint :: "bool \<Rightarrow> spline_piece list" where
  "chat_hint hovered = (if hovered then [Chat_hint ''Click to chat with AI''] else [])"

text \<open>The pieces shown at width \<open>w\<close> with the pointer over the component or not, and the
  container's minimum height: \<open>min-h-[300px]\<close> on the mobile wrapper (line 70),
  \<open>min-h-[400px] md:min-h-[500px]\<close> on the desktop one (line 78).\<close>

definition spline_screen :: "nat \<Rightarrow> bool \<Rightarrow> spline_view \<Rightarrow> spline_piece list \<times> nat" where
  "spline_screen w hovered v =
     (case v of
        Mobile_fallback \<Rightarrow> (mobile_fallback, 300)
      | Loading_fallback \<Rightarrow> (loading_fallback @ chat_hint hovered, if shown_at from_md w then 500 else 400)
      | Scene \<Rightarrow> (spline_scene @ chat_hint hovered, if shown_at from_md w then 500 else 400))"

text \<open>Whether a click at a point of the component reaches \<open>onChatOpen\<close>: anywhere on the
  desktop container, only on the button on mobile (the wrapper of line 70 has no handler).\<close>

definition spline_click_opens :: "spline_view \<Rightarrow> bool \<Rightarrow> bool" where
  "spline_click_opens v on_button = (v \<noteq> Mobile_fallback \<or> on_button)"

subsection \<open>The clay sculpture (\<open>ClaySculpture.tsx\<close>)\<close>

text \<open>Lines 33--60: the wrapper moves by the parallax offset \<open>clay_offset\<close> of the scroll
  progress and never takes clicks (\<open>pointer-events-none\<close>); the image inside bobs through the
  keyframes \<open>y: [0, -10, 0]\<close> every 6 s from \<open>floatDelay\<close> on, \<open>t\<close> seconds after the mount.
  Between keyframes framer eases (\<open>easeInOut\<close>); the model moves linearly, which changes
  when a height is reached within a half cycle but not which heights are.\<close>

definition clay_float :: "rat \<Rightarrow> rat \<Rightarrow> rat" where
  "clay_float delay t =
     (if t < delay then 0 else key_at [(0, 0), (1/2, -10), (1, 0)] (cycle 6 (t - delay)))"

definition clay_y :: "rat \<Rightarrow> rat \<Rightarrow> rat \<Rightarrow> rat \<Rightarrow> rat" where
  "clay_y speed delay progress t = clay_offset speed progress + clay_float delay t"

subsection \<open>Lazy sections (\<open>App.tsx\<close> lines 6--19 and 55--76)\<close>

text \<open>The header and the hero are imported eagerly; the other six sections are
  \<open>React.lazy\<close> chunks, each in a \<open>Suspense\<close> of its own whose fallback is the spinner
  \<open>SectionFallback\<close>.  \<open>main_view L\<close> is what \<open>main\<close> shows once the chunks in \<open>L\<close> have
  arrived, and \<open>ids_at L\<close> the element ids it then holds.\<close>

definition lazy_sections :: "string list" where
  "lazy_sections = [''AboutSection'', ''MissionSection'', ''SkillsShowcaseSection'', ''ProjectShowcase'',
                    ''TimelineSection'', ''Footer'']"

datatype slot = Shown string | Section_fallback

definition main_view :: "string set \<Rightarrow> slot list" where
  "main_view L =
     map (\<lambda>(n, ids). if n \<notin> set lazy_sections \<or> n \<in> L then Shown n else Section_fallback) page_sections"

definition ids_at :: "string set \<Rightarrow> string list" where
  "ids_at L = concat (map (\<lambda>(n, ids). if n \<notin> set lazy_sections \<or> n \<in> L then ids else []) page_sections)"

subsection \<open>Lemmas\<close>

lemma shown_at_classes [simp]:
  "shown_at from_md w \<longleftrightarrow> 768 \<le> w" "shown_at below_md w \<longleftrightarrow> w < 768"
  "shown_at from_sm w \<longleftrightarrow> 640 \<le> w" "shown_at from_lg w \<longleftrightarrow> 1024 \<le> w"
  by (simp_all add: shown_at_def class_at_def from_md_def below_md_def from_sm_def from_lg_def)

lemma timeline_rows_nth: "i < length items \<Longrightarrow> timeline_rows items ! i = timeline_card i (items ! i)"
  by (simp add: timeline_rows_def enumerate_eq_zip)

lemma row_cards_at_card:
  "row_cards_at w (timeline_card i it) =
     (if 768 \<le> w then [card_content it (if i mod 2 = 0 then Left else Right)]
      else [card_content it Right])"
  by (simp add: row_cards_at_def timeline_card_def Let_def)

lemma model_mobile_at_width: "model_mobile_at w \<longleftrightarrow> w < 768"
  by (simp add: model_mobile_at_def spline_render_def spline_mount_def Let_def)

text \<open>C25: The components agree on what a narrow screen is.  At every viewport width the
  header shows exactly one of its desktop navigation and its menu button, the hero exactly one
  of its side grids and its row of logos, every timeline entry exactly one card, and the
  About section's 3D model (which decides by script) shows its mobile placeholder exactly
  when the header shows the menu button.\<close>

theorem layout_breakpoints_agree:
  "show_desktop_nav (header_at w) \<noteq> show_menu_button (header_at w)
   \<and> show_side_grids (hero_at w) \<noteq> show_bottom_logos (hero_at w)
   \<and> (\<forall>i < length items. length (row_cards_at w (timeline_rows items ! i)) = 1)
   \<and> model_mobile_at w = show_menu_button (header_at w)"
  by (auto simp: header_at_def hero_at_def timeline_rows_nth row_cards_at_card model_mobile_at_width)

lemma header_grows:
  "w \<le> w' \<Longrightarrow> show_label (header_at w) \<longrightarrow> show_label (header_at w')
   \<and> (show_title (header_at w) \<longrightarrow> show_title (header_at w'))"
  by (simp add: header_at_def)

lemma hero_logos_count: "length (hero_logos_at w) = (if 768 \<le> w then 8 else 4)"
  by (simp add: hero_logos_at_def hero_at_def hero_def grid_items_def left_grid_logos_def right_grid_logos_def)

text \<open>On narrow screens the entry dots sit on the line but the end dot is one pixel (two
  units of twice the centre) to its right.\<close>

lemma end_dot_off_line: "entry_dot_centre = line_centre \<and> end_dot_centre = line_centre + 2"
  by (simp add: entry_dot_centre_def line_centre_def end_dot_centre_def twice_centre_def)

theorem layout_breakpoints_agree_witness:
  "show_desktop_nav (header_at 500) \<noteq> show_menu_button (header_at 500)
   \<and> show_side_grids (hero_at 500) \<noteq> show_bottom_logos (hero_at 500)
   \<and> length (row_cards_at 500 (timeline_rows timeline_data ! 1)) = 1
   \<and> model_mobile_at 500 = show_menu_button (header_at 500)"
proof -
  have "show_desktop_nav (header_at 500) \<noteq> show_menu_button (header_at 500)
   \<and> show_side_grids (hero_at 500) \<noteq> show_bottom_logos (hero_at 500)
   \<and> (\<forall>i < length timeline_data. length (row_cards_at 500 (timeline_rows timeline_data ! i)) = 1)
   \<and> model_mobile_at 500 = show_menu_button (header_at 500)"
    by (rule layout_breakpoints_agree)
  moreover have "1 < length timeline_data" by (simp add: timeline_data_def)
  ultimately show ?thesis by blast
qed

lemma spline_tracks_width:
  "is_mobile (spline_mount w now) = (w < 768)" "is_mobile (spline_resize w now st) = (w < 768)"
  by (simp_all add: spline_mount_def spline_resize_def Let_def)

lemma spline_min_height:
  assumes "is_mobile st = (w < 768)"
  shows "snd (spline_screen w hovered (spline_render loaded st)) = (if w < 768 then 300 else 500)"
  using assms by (simp add: spline_screen_def spline_render_def)

lemma spline_invites_chat:
  "(\<exists>t. Chat_button t \<in> set (fst (spline_screen w hovered v)))
   \<or> (Chat_hint ''Click to chat with AI'' \<in> set (fst (spline_screen w True v)) \<and> spline_click_opens v False)"
  by (cases v) (simp_all add: spline_screen_def mobile_fallback_def chat_hint_def spline_click_opens_def)

lemma clay_float_range: "-10 \<le> clay_float delay t \<and> clay_float delay t \<le> 0"
proof -
  have "-10 \<le> key_at [(0, 0), (1/2, -10), (1, 0)] f \<and> key_at [(0, 0), (1/2, -10), (1, 0)] f \<le> 0" for f
    by (rule key_at_between) auto
  then show ?thesis by (simp add: clay_float_def)
qed

lemma clay_float_loops: "clay_float delay (delay + 6 * of_nat k) = 0"
  by (simp add: clay_float_def cycle_def interpolate_def)

text \<open>With the parallax and the bob together the sculpture stays within \<open>150 * speed + 10\<close>
  pixels above its place, and the bob returns to its start at the end of every cycle.\<close>

lemma clay_y_range:
  assumes "0 \<le> speed"
  shows "- 150 * speed - 10 \<le> clay_y speed delay p t \<and> clay_y speed delay p t \<le> 0"
  using clay_range [OF assms, of p] clay_float_range [of delay t] by (simp add: clay_y_def)

text \<open>Before any chunk arrives the page is the hero and six spinners; chunks only ever
  replace a spinner by its own section, and with all of them the page is complete.  An
  in-page link's target exists exactly when the chunk of the section holding it has arrived:
  before that, a click on the header's \<open>#contact\<close> jumps nowhere.\<close>

lemma main_view_first: "main_view {} = Shown ''HeroSection'' # replicate 6 Section_fallback"
  by (simp add: main_view_def page_sections_def lazy_sections_def numeral_eq_Suc)

lemma main_view_grows:
  assumes "L \<subseteq> L'"
  shows "list_all2 (\<lambda>s s'. s = Section_fallback \<or> s' = s) (main_view L) (main_view L')"
  using assms by (auto simp: main_view_def list_all2_conv_all_nth split_def)

lemma main_view_complete:
  "set lazy_sections \<subseteq> L \<Longrightarrow> main_view L = map (\<lambda>(n, ids). Shown n) page_sections"
  by (auto simp: main_view_def split_def)

lemma ids_wait_for_chunks:
  "(''about'' \<in> set (ids_at L) \<longleftrightarrow> ''AboutSection'' \<in> L)
   \<and> (''projects'' \<in> set (ids_at L) \<longleftrightarrow> ''ProjectShowcase'' \<in> L)
   \<and> (''skills'' \<in> set (ids_at L) \<longleftrightarrow> ''ProjectShowcase'' \<in> L)
   \<and> (''timeline'' \<in> set (ids_at L) \<longleftrightarrow> ''TimelineSection'' \<in> L)
   \<and> (''contact'' \<in> set (ids_at L) \<longleftrightarrow> ''Footer'' \<in> L)
   \<and> ids_at (set lazy_sections) = page_ids"
  by (simp add: ids_at_def page_sections_def lazy_sections_def page_ids_def)

end
