(* ===== verification/Svg.thy ===== *)
theory Svg
  imports Prelude
begin

text \<open>
  The code icon \<open></>\<close> of \<open>components/Header.tsx\<close>: an inline SVG drawn twice, beside the
  name (lines 16--44, 28 px) and at the end of the desktop navigation (lines 94--122,
  20 px), both with the view box \<open>0 0 28 28\<close> and the same three stroked paths.  The path
  data is read with the part of the SVG path grammar the icon uses: absolute \<open>M\<close> and
  \<open>L\<close> commands, each followed by two non-negative integers separated by a space.
\<close>

subsection \<open>Path data\<close>

datatype path_cmd = Move nat nat | Line nat nat

definition is_digit :: "char \<Rightarrow> bool" where
  "is_digit c \<longleftrightarrow> (48::nat) \<le> of_char c \<and> (of_char c :: nat) \<le> 57"

definition digits_val :: "string \<Rightarrow> nat" where
  "digits_val ds = foldl (\<lambda>n c. 10 * n + (of_char c - 48)) 0 ds"

definition read_nat :: "string \<Rightarrow> (nat \<times> string) option" where
  "read_nat s =
     (let ds = takeWhile is_digit s
      in if ds = [] then None else Some (digits_val ds, dropWhile is_digit s))"

text \<open>One command letter, the x coordinate, a space, the y coordinate.\<close>

function path_cmds :: "string \<Rightarrow> path_cmd list option" where
  "path_cmds [] = Some []"
| "path_cmds (c # s) =
     (if c \<noteq> CHR ''M'' \<and> c \<noteq> CHR ''L'' then None
      else case read_nat s of
        None \<Rightarrow> None
      | Some (x, s1) \<Rightarrow>
          (case s1 of
             [] \<Rightarrow> None
           | sp # s2 \<Rightarrow>
               if sp \<noteq> CHR '' '' then None
               else case read_nat s2 of
                 None \<Rightarrow> None
               | Some (y, s3) \<Rightarrow>
                   map_option (Cons (if c = CHR ''M'' then Move x y else Line x y)) (path_cmds s3)))"
  by pat_completeness auto
termination
proof (relation "measure length")
  have shorter: "length r \<le> length s" if "read_nat s = Some (n, r)" for s n r
    using that by (auto simp: read_nat_def Let_def length_dropWhile_le split: if_splits)
  show "\<And>c s r x s1 sp s2 r' y s3.
          \<not> (c \<noteq> CHR ''M'' \<and> c \<noteq> CHR ''L'') \<Longrightarrow> read_nat s = Some r \<Longrightarrow> (x, s1) = r \<Longrightarrow>
          s1 = sp # s2 \<Longrightarrow> \<not> sp \<noteq> CHR '' '' \<Longrightarrow> read_nat s2 = Some r' \<Longrightarrow> (y, s3) = r' \<Longrightarrow>
          (s3, c # s) \<in> measure length"
    by (fastforce dest!: shorter)
qed simp

fun cmd_str :: "path_cmd \<Rightarrow> string" where
  "cmd_str (Move x y) = CHR ''M'' # nat_str x @ CHR '' '' # nat_str y"
| "cmd_str (Line x y) = CHR ''L'' # nat_str x @ CHR '' '' # nat_str y"

definition path_str :: "path_cmd list \<Rightarrow> string" where
  "path_str cs = concat (map cmd_str cs)"

text \<open>The segments a path draws: \<open>M\<close> moves the pen, \<open>L\<close> draws from the pen to the point.\<close>

type_synonym point = "nat \<times> nat"

fun segments :: "point \<Rightarrow> path_cmd list \<Rightarrow> (point \<times> point) list" where
  "segments p [] = []"
| "segments p (Move x y # cs) = segments (x, y) cs"
| "segments p (Line x y # cs) = (p, (x, y)) # segments (x, y) cs"

subsection \<open>The icon\<close>

record svg_path =
  path_d :: string
  round_join :: bool

record svg_icon =
  icon_px :: nat
  view_box :: "nat \<times> nat"
  stroke_width :: nat
  icon_paths :: "svg_path list"

text \<open>Lines 24--43 and 102--121: the two chevrons with round joins, and the slash; every path
  has \<open>strokeWidth="2"\<close> and round caps.\<close>

definition code_paths :: "svg_path list" where
  "code_paths =
     [\<lparr>path_d = ''M8 10L3 14L8 18'', round_join = True\<rparr>,
      \<lparr>path_d = ''M20 10L25 14L20 18'', round_join = True\<rparr>,
      \<lparr>path_d = ''M16 6L12 22'', round_join = False\<rparr>]"

definition logo_icon :: svg_icon where
  "logo_icon = \<lparr>icon_px = 28, view_box = (28, 28), stroke_width = 2, icon_paths = code_paths\<rparr>"

definition nav_icon :: svg_icon where
  "nav_icon = \<lparr>icon_px = 20, view_box = (28, 28), stroke_width = 2, icon_paths = code_paths\<rparr>"

text \<open>\<open>components/MobileMenu.tsx\<close> lines 80--111: the same icon at the bottom of the mobile
  menu's sheet, 28 px.\<close>

definition menu_icon :: svg_icon where
  "menu_icon = \<lparr>icon_px = 28, view_box = (28, 28), stroke_width = 2, icon_paths = code_paths\<rparr>"

definition icon_segments :: "svg_icon \<Rightarrow> (point \<times> point) list option" where
  "icon_segments i =
     map_option concat (those (map (\<lambda>p. map_option (segments (0, 0)) (path_cmds (path_d p))) (icon_paths i)))"

text \<open>A point of the view box turned half a turn about its centre, and whether a drawing is
  unchanged by that turn and keeps every point a stroke width away from the edges (so the
  round caps, of radius half the stroke width, are not clipped).\<close>

definition half_turn :: "nat \<times> nat \<Rightarrow> point \<Rightarrow> point" where
  "half_turn vb p = (fst vb - fst p, snd vb - snd p)"

definition centred :: "nat \<times> nat \<Rightarrow> (point \<times> point) list \<Rightarrow> bool" where
  "centred vb segs \<longleftrightarrow>
     list_all (\<lambda>(p, q). (half_turn vb p, half_turn vb q) \<in> set segs \<or> (half_turn vb q, half_turn vb p) \<in> set segs) segs"

definition inside :: "nat \<Rightarrow> nat \<times> nat \<Rightarrow> (point \<times> point) list \<Rightarrow> bool" where
  "inside m vb segs \<longleftrightarrow>
     list_all (\<lambda>(p, q). list_all (\<lambda>(x, y). m \<le> x \<and> x + m \<le> fst vb \<and> m \<le> y \<and> y + m \<le> snd vb) [p, q]) segs"

subsection \<open>Reading the path data back\<close>

lemma nat_str_digits: "list_all is_digit (nat_str n)"
proof (induction n rule: nat_str.induct)
  case (1 n)
  have "n mod 10 < 10" by simp
  then show ?case using 1 unfolding is_digit_def by (subst nat_str.simps) (auto simp del: nat_str.simps)
qed
lemma nat_str_not_Nil: "nat_str n \<noteq> []"
  by (subst nat_str.simps) (simp del: nat_str.simps)
lemma digits_val_nat_str: "digits_val (nat_str n) = n"
proof (induction n rule: nat_str.induct)
  case (1 n)
  show ?case
  proof (cases "n < 10")
    case True then show ?thesis by (subst nat_str.simps) (simp add: digits_val_def del: nat_str.simps)
  next
    case False
    then have "digits_val (nat_str n) = 10 * digits_val (nat_str (n div 10)) + n mod 10"
      by (subst nat_str.simps) (simp add: digits_val_def del: nat_str.simps)
    with 1 False show ?thesis by (simp del: nat_str.simps)
  qed
qed
lemma read_nat_nat_str:
  "(case r of [] \<Rightarrow> True | c # _ \<Rightarrow> \<not> is_digit c) \<Longrightarrow> read_nat (nat_str n @ r) = Some (n, r)"
proof -
  assume r: "case r of [] \<Rightarrow> True | c # _ \<Rightarrow> \<not> is_digit c"
  have d: "list_all is_digit (nat_str n)" by (rule nat_str_digits)
  have "takeWhile is_digit (nat_str n @ r) = nat_str n" "dropWhile is_digit (nat_str n @ r) = r"
    using d r by (auto simp: list_all_iff takeWhile_append2 dropWhile_append2 simp del: nat_str.simps split: list.splits)
  with nat_str_not_Nil show ?thesis by (simp add: read_nat_def digits_val_nat_str del: nat_str.simps)
qed
text \<open>Printing a path and reading it back gives the path: \<open>path_cmds\<close> reads every path
  of absolute moves and lines, and reads it as the commands it was printed from.\<close>

lemma path_roundtrip: "path_cmds (path_str cs) = Some cs"
proof (induction cs)
  case Nil then show ?case by (simp add: path_str_def)
next
  case (Cons c cs)
  have sp: "\<not> is_digit CHR '' ''" and letters: "\<not> is_digit CHR ''M''" "\<not> is_digit CHR ''L''"
    by (simp_all add: is_digit_def)
  have nxt: "case path_str cs of [] \<Rightarrow> True | c # _ \<Rightarrow> \<not> is_digit c"
  proof (cases cs)
    case (Cons a _) then show ?thesis by (cases a) (simp_all add: path_str_def letters del: nat_str.simps)
  qed (simp add: path_str_def)
  have y: "read_nat (nat_str y @ path_str cs) = Some (y, path_str cs)" for y
    using nxt by (rule read_nat_nat_str)
  have x: "read_nat (nat_str x @ CHR '' '' # r) = Some (x, CHR '' '' # r)" for x r
    using sp by (intro read_nat_nat_str) simp
  show ?case
    using Cons.IH
    by (cases c) (simp_all add: path_str_def x y [unfolded path_str_def] del: nat_str.simps)
qed

subsection \<open>The icon is centred\<close>

lemma logo_icon_segments:
  "icon_segments logo_icon = Some [((8, 10), (3, 14)), ((3, 14), (8, 18)), ((20, 10), (25, 14)),
                                   ((25, 14), (20, 18)), ((16, 6), (12, 22))]"
  by code_simp

lemma code_icon_centred:
  "\<exists>segs. icon_segments logo_icon = Some segs \<and> icon_segments nav_icon = Some segs
     \<and> icon_segments menu_icon = Some segs \<and> length segs = 5
     \<and> centred (view_box logo_icon) segs \<and> inside (stroke_width logo_icon) (view_box logo_icon) segs"
proof -
  have "icon_segments nav_icon = icon_segments logo_icon" "icon_segments menu_icon = icon_segments logo_icon"
    by (simp_all add: icon_segments_def nav_icon_def menu_icon_def logo_icon_def)
  then show ?thesis
    by (simp add: logo_icon_segments centred_def inside_def half_turn_def) (simp add: logo_icon_def)
qed

end
