(* ===== verification/Skills.thy ===== *)
theory Skills
  imports Layout Svg
begin

text \<open>
  What \<open>sections/SkillsShowcaseSection.tsx\<close> renders from its skill categories (the data
  is \<open>Site.skill_categories\<close>): one \<open>SkillCard\<close> per skill (lines 85--148), grouped by
  category under a heading that fades in (lines 167--193), in a grid whose column count
  depends on the width (line 181), below the section's heading (lines 154--165) and above
  a banner of three figures (lines 195--217).
\<close>

subsection \<open>The skill card (lines 85--148)\<close>

text \<open>A card shows its badge (\<open>Site.skill_badge\<close>: the logo, on the skill's \<open>logoBg\<close>
  or \<open>bg-white/60\<close> when it has none, with the skill's name as the image's \<open>alt\<close>; or,
  without a logo, the name's first character on the skill's gradient); then the name.  It enters \<open>index * 0.05\<close> s after it
  comes into view; the logo bobs 5 px every 4 s, \<open>index * 0.2\<close> s late; a hover lights the
  card's gradient.\<close>

record skill_card_view =
  sc_badge :: badge
  sc_logo_bg :: string
  sc_alt :: string
  sc_name :: string
  sc_enter_delay :: rat
  sc_bob_delay :: rat
  sc_glow :: string

definition skill_card :: "nat \<Rightarrow> skill \<Rightarrow> skill_card_view" where
  "skill_card index s =
     \<lparr>sc_badge = skill_badge s, sc_logo_bg = (case logo_bg s of Some b \<Rightarrow> b | None \<Rightarrow> ''bg-white/60''),
      sc_alt = skill_name s, sc_name = skill_name s, sc_enter_delay = of_nat index * (5 / 100),
      sc_bob_delay = of_nat index * (2 / 10), sc_glow = color s\<rparr>"

definition skill_bob :: "skill_card_view \<Rightarrow> rat \<Rightarrow> rat" where
  "skill_bob c t =
     (if t < sc_bob_delay c then 0 else key_at [(0, 0), (1/2, -5), (1, 0)] (cycle 4 (t - sc_bob_delay c)))"

subsection \<open>The section (lines 150--193)\<close>

record category_view =
  cv_title :: string
  cv_delay :: rat
  cv_cards :: "skill_card_view list"

definition skills_section :: "skill_category list \<Rightarrow> category_view list" where
  "skills_section cats =
     map (\<lambda>(ci, c). \<lparr>cv_title = cat_name c, cv_delay = of_nat ci * (1 / 10),
                     cv_cards = map (\<lambda>(si, s). skill_card (skill_card_index ci si) s) (enumerate 0 (skills c))\<rparr>)
       (enumerate 0 cats)"

definition skills_heading :: "string \<times> string \<times> string" where
  "skills_heading =
     (''Tech Arsenal'', ''Technologies I Know'',
      ''A comprehensive toolkit built through continuous learning and hands-on experience, enabling me to tackle challenges from concept to deployment.'')"

text \<open>Line 181: \<open>grid-cols-2 sm:grid-cols-3 md:grid-cols-4 lg:grid-cols-5 xl:grid-cols-6\<close>.\<close>

definition skill_columns :: "nat \<Rightarrow> nat" where
  "skill_columns w = class_at 1 [(Base, 2), (Sm, 3), (Md, 4), (Lg, 5), (Xl, 6)] w"

subsection \<open>The banner (lines 195--217, \<open>Site.skill_stats\<close>)\<close>

text \<open>A figure \<open>n+\<close> is true of a count when the count is at least \<open>n\<close>.\<close>

definition stat_holds :: "string \<Rightarrow> nat \<Rightarrow> bool" where
  "stat_holds fig actual =
     (case read_nat fig of Some (n, r) \<Rightarrow> r = ''+'' \<and> n \<le> actual | None \<Rightarrow> False)"

subsection \<open>The showcase's skill blocks (\<open>sections/ProjectShowcase.tsx\<close>)\<close>

text \<open>Lines 122--135: the showcase's heading; lines 149--182: the strip of technologies
  (\<open>Site.tech_logos\<close>), each an image over its name; lines 185--191: the project cards
  fade in \<open>0.1 * (index + 1)\<close> s late; lines 193--204 and 283--291: the \<open>#skills\<close> panel,
  one column below \<open>md\<close> and two from it (line 196), with its heading and six logos.\<close>

definition showcase_heading :: "string \<times> string \<times> string" where
  "showcase_heading =
     (''My Expertise'',
      ''Experienced full-stack developer crafting scalable solutions across diverse technologies and platforms.'',
      ''From backend systems with Java Spring to modern frontend with Angular and Flutter, I deliver end-to-end solutions.'')"

record strip_item =
  strip_img :: logo_item
  strip_caption :: string

definition tech_strip :: "strip_item list" where
  "tech_strip = map (\<lambda>l. \<lparr>strip_img = l, strip_caption = alt l\<rparr>) tech_logos"

definition project_fade_delays :: "project list \<Rightarrow> rat list" where
  "project_fade_delays ps = map (\<lambda>i. (1 / 10) * (of_nat i + 1)) [0..<length ps]"

definition skills_panel_heading :: "string \<times> string \<times> string" where
  "skills_panel_heading =
     (''Technical Skills'', ''Comprehensive full-stack expertise'',
      ''With years of experience across multiple domains, I bring a versatile skill set to every project. From database design to responsive UI, I handle it all.'')"

definition panel_logos :: "logo_item list" where
  "panel_logos =
     [\<lparr>src = ''/assets/python.webp'', alt = ''Python''\<rparr>, \<lparr>src = ''/assets/spring.webp'', alt = ''Spring''\<rparr>,
      \<lparr>src = ''/assets/react-removebg-preview.webp'', alt = ''Web Stack''\<rparr>,
      \<lparr>src = ''/assets/logo-java.webp'', alt = ''Java''\<rparr>, \<lparr>src = ''/assets/logo-flutter.webp'', alt = ''Flutter''\<rparr>,
      \<lparr>src = ''/assets/logo-mongodb.webp'', alt = ''MongoDB''\<rparr>]"

definition panel_columns :: "nat \<Rightarrow> nat" where
  "panel_columns w = class_at 1 [(Base, 1), (Md, 2)] w"

text \<open>The skill of the Skills section with a given name, and its logo file.\<close>

definition skill_logo_named :: "string \<Rightarrow> string option" where
  "skill_logo_named n =
     (case find (\<lambda>s. skill_name s = n) (concat (map skills skill_categories)) of Some s \<Rightarrow> logo s | None \<Rightarrow> None)"

subsection \<open>Lemmas\<close>

text \<open>The section renders exactly the cards of \<open>Site.skill_cards\<close>, in order.\<close>

lemma skills_section_cards:
  "concat (map cv_cards (skills_section cats)) = map (\<lambda>(i, s). skill_card i s) (skill_cards cats)"
proof -
  have "concat (map cv_cards (map (\<lambda>(ci, c). \<lparr>cv_title = cat_name c, cv_delay = of_nat ci * (1 / 10),
           cv_cards = map (\<lambda>(si, s). skill_card (skill_card_index ci si) s) (enumerate 0 (skills c))\<rparr>) (enumerate k cats)))
        = map (\<lambda>(i, s). skill_card i s)
            (concat (map (\<lambda>(ci, c). map (\<lambda>(si, s). (skill_card_index ci si, s)) (enumerate 0 (skills c))) (enumerate k cats)))" for k
    by (induction cats arbitrary: k) (simp_all add: comp_def split_def)
  then show ?thesis by (simp add: skills_section_def skill_cards_def)
qed

lemma skill_columns_range: "skill_columns w = (if 1280 \<le> w then 6 else if 1024 \<le> w then 5 else if 768 \<le> w then 4 else if 640 \<le> w then 3 else 2)"
  by (simp add: skill_columns_def class_at_def)

lemma skill_bob_range: "-5 \<le> skill_bob c t \<and> skill_bob c t \<le> 0"
proof -
  have "-5 \<le> key_at [(0, 0), (1/2, -5), (1, 0)] f \<and> key_at [(0, 0), (1/2, -5), (1, 0)] f \<le> 0" for f
    by (rule key_at_between) auto
  then show ?thesis by (simp add: skill_bob_def)
qed

text \<open>The banner's figures read against the data the page renders: \<open>30+\<close> technologies
  holds of the skill cards (31) and \<open>2+\<close> years is the configuration's figure, shown as the
  About section shows it, but \<open>5+\<close> projects does not hold: the showcase renders four.\<close>

lemma stats_banner_check:
  "stat_holds (fst (skill_stats ! 0)) (length (skill_cards skill_categories))
   \<and> \<not> stat_holds (fst (skill_stats ! 1)) (length projects_data)
   \<and> stat_holds (fst (skill_stats ! 2)) (years_experience site)
   \<and> fst (skill_stats ! 2) = about_badge about"
  by code_simp

lemma skill_cards_logos_named:
  "list_all (\<lambda>c. case sc_badge c of Logo_img l \<Rightarrow> sc_alt c = sc_name c \<and> l \<noteq> [] | Initial i \<Rightarrow> False)
     (concat (map cv_cards (skills_section skill_categories)))"
  by code_simp

text \<open>The strip of technologies and the Skills section use the same file for every
  technology both show; the strip adds four the section does not list, and the panel's
  images are files of the section's skills, two of them under another name.\<close>

lemma tech_strip_vs_skills:
  "list_all (\<lambda>i. skill_logo_named (strip_caption i) = Some (src (strip_img i))
                  \<or> skill_logo_named (strip_caption i) = None) tech_strip
   \<and> [strip_caption i. i \<leftarrow> tech_strip, skill_logo_named (strip_caption i) = None]
     = [''HTML/CSS'', ''Dart'', ''Express.js'', ''Maven'']"
  by code_simp

lemma panel_logos_of_skills:
  "list_all (\<lambda>l. Some (src l) \<in> set (map logo (concat (map skills skill_categories)))) panel_logos
   \<and> [alt l. l \<leftarrow> panel_logos, skill_logo_named (alt l) = None] = [''Spring'', ''Web Stack'']"
  by code_simp

lemma project_fade_order:
  "sorted_wrt (<) (project_fade_delays ps) \<and> length (project_fade_delays ps) = length ps"
  by (simp add: project_fade_delays_def sorted_wrt_map sorted_wrt_iff_nth_less)

end
