(* ===== verification/Sections.thy ===== *)
theory Sections
  imports Layout
begin

text \<open>
  The parts of the hero and the timeline that depend on a width, on time or on the data's
  types: the hero's laptop and scroll cue (\<open>sections/HeroSection.tsx\<close> lines 58--83 and
  151--165), the orbit's props, ring and logo sizes (\<open>components/OrbitingLogos.tsx\<close>),
  and the timeline's heading, legend and entry dots
  (\<open>sections/TimelineSection.tsx\<close> lines 106--118 and 143--163).
\<close>

subsection \<open>The hero's laptop and scroll cue\<close>

text \<open>Lines 59--82: the laptop is \<open>w-[320px] md:w-[450px] lg:w-[500px]\<close> wide, enters
  from 0.9 scale and 20 px low after 0.5 s, and bobs 8 px every 5 s; it sits in the
  620-pixel box of line 45 (\<open>Site.hero_center_box\<close>), inside the orbit of radius 260.
  Lines 158--164: the cue's chevron bobs 4 px down every 2 s.\<close>

definition laptop_width :: "nat \<Rightarrow> nat" where
  "laptop_width w = class_at 320 [(Md, 450), (Lg, 500)] w"

definition laptop_y :: "rat \<Rightarrow> rat" where
  "laptop_y t = key_at [(0, 0), (1/2, -8), (1, 0)] (cycle 5 t)"

definition chevron_y :: "rat \<Rightarrow> rat" where
  "chevron_y t = key_at [(0, 0), (1/2, 4), (1, 0)] (cycle 2 t)"

definition hero_bottom_row :: "nat \<Rightarrow> string list" where
  "hero_bottom_row w =
     [''View my projects''] @ (if shown_at from_md w then [''Full-Stack Developer | DevOps Enthusiast''] else [])
     @ (if shown_at from_sm w then [''Scroll down''] else [])"

subsection \<open>The timeline's heading, legend and dots\<close>

definition timeline_heading :: "string \<times> string \<times> string" where
  "timeline_heading =
     (''My Journey'', ''Education & Journey'',
      ''A timeline of my academic journey and hands-on projects that shaped my expertise.'')"

text \<open>Lines 109--113: an entry's dot is blue for education and amber otherwise; lines
  157--163: the legend names one colour.\<close>

definition entry_dot_colour :: "timeline_item \<Rightarrow> string" where
  "entry_dot_colour it = (if item_type it = Education then ''bg-blue-500'' else ''bg-amber-500'')"

definition timeline_legend :: "(string \<times> string) list" where
  "timeline_legend = [(''bg-blue-500'', ''Education'')]"

definition legend_covers :: "timeline_item list \<Rightarrow> bool" where
  "legend_covers items \<longleftrightarrow> list_all (\<lambda>it. entry_dot_colour it \<in> set (map fst timeline_legend)) items"

subsection \<open>The orbit's props, ring and logo sizes (\<open>components/OrbitingLogos.tsx\<close>)\<close>

text \<open>Lines 8--24: the props and their defaults; the logo size is a class list, here its
  width in pixels per breakpoint.  The hero passes its own (\<open>HeroSection.tsx\<close> lines 48--54).
  Lines 52--62: the ring is a circle of diameter \<open>2 * radius\<close> centred in the orbit box;
  lines 94--101: each logo is an image of the size class, centred on its point of the ring.\<close>

record orbit_props =
  op_radius :: nat
  op_duration :: rat
  op_direction :: int
  op_logo_px :: "(breakpoint \<times> nat) list"

definition orbit_defaults :: orbit_props where
  "orbit_defaults = \<lparr>op_radius = 180, op_duration = 40, op_direction = 1,
                     op_logo_px = [(Base, 64), (Md, 80), (Lg, 96)]\<rparr>"

definition hero_orbit_props :: orbit_props where
  "hero_orbit_props = \<lparr>op_radius = 260, op_duration = 40, op_direction = 1,
                       op_logo_px = [(Base, 80), (Md, 112), (Lg, 144)]\<rparr>"

definition orbit_ring :: "orbit_props \<Rightarrow> nat \<times> nat" where
  "orbit_ring p = (2 * op_radius p, (orbit_box (op_radius p) - 2 * op_radius p) div 2)"

definition logo_px_at :: "orbit_props \<Rightarrow> nat \<Rightarrow> nat" where
  "logo_px_at p w = class_at 0 (op_logo_px p) w"

text \<open>Whether a logo on the ring stays inside the orbit box: its centre is \<open>radius\<close> from the
  box's centre and it reaches half its size further.\<close>

definition logos_in_box :: "orbit_props \<Rightarrow> nat \<Rightarrow> bool" where
  "logos_in_box p w \<longleftrightarrow> 2 * op_radius p + logo_px_at p w \<le> orbit_box (op_radius p)"

subsection \<open>Lemmas\<close>

lemma laptop_fits_orbit:
  "laptop_width w \<in> {320, 450, 500} \<and> laptop_width w < 2 * hero_orbit_radius
   \<and> laptop_width w < hero_center_box"
  by (simp add: laptop_width_def class_at_def hero_orbit_radius_def hero_center_box_def)

lemma hero_motion_ranges: "-8 \<le> laptop_y t \<and> laptop_y t \<le> 0 \<and> 0 \<le> chevron_y t \<and> chevron_y t \<le> 4"
proof -
  have "-8 \<le> key_at [(0, 0), (1/2, -8), (1, 0)] f \<and> key_at [(0, 0), (1/2, -8), (1, 0)] f \<le> 0" for f
    by (rule key_at_between) auto
  moreover have "0 \<le> key_at [(0, 0), (1/2, 4), (1, 0)] f \<and> key_at [(0, 0), (1/2, 4), (1, 0)] f \<le> 4" for f
    by (rule key_at_between) auto
  ultimately show ?thesis by (simp add: laptop_y_def chevron_y_def)
qed

lemma hero_bottom_row_at:
  "hero_bottom_row w = ''View my projects'' # (if 768 \<le> w then [''Full-Stack Developer | DevOps Enthusiast''] else [])
     @ (if 640 \<le> w then [''Scroll down''] else [])"
  by (simp add: hero_bottom_row_def)

text \<open>The legend covers the site's timeline, all of whose entries are education, but not a
  certification, which the type of the entries allows: its amber dot has no legend entry.\<close>

lemma legend_covers_data:
  "legend_covers timeline_data
   \<and> (\<forall>it. legend_covers [it] \<longleftrightarrow> item_type it = Education)"
  by (auto simp: legend_covers_def entry_dot_colour_def timeline_legend_def timeline_data_def)

text \<open>The ring is centred with 50 px to spare on every side.  With the defaults the logos
  stay inside the orbit box at every width; the hero's are larger: they reach 6 px beyond it
  on each side from \<open>md\<close> on and 22 px from \<open>lg\<close> on.\<close>

lemma orbit_ring_centred: "fst (orbit_ring p) + 2 * snd (orbit_ring p) = orbit_box (op_radius p) \<and> snd (orbit_ring p) = 50"
  by (simp add: orbit_ring_def orbit_box_def)

lemma orbit_logos_in_box:
  "logos_in_box orbit_defaults w \<and> (logos_in_box hero_orbit_props w \<longleftrightarrow> w < 768)
   \<and> (1024 \<le> w \<longrightarrow> 2 * op_radius hero_orbit_props + logo_px_at hero_orbit_props w = orbit_box (op_radius hero_orbit_props) + 44)"
  by (simp add: logos_in_box_def orbit_defaults_def hero_orbit_props_def logo_px_at_def class_at_def orbit_box_def)

end
