(* ===== verification/Spec2Isabelle.thy ===== *)
theory Spec2Isabelle
  imports Skills Sections
begin

text \<open>
  \<^bold>\<open>A verification development of the portfolio's chat relay.\<close>

  \<^bold>\<open>The program.\<close>  The repository is a single-page portfolio (React, under
  \<open>src/app/src\<close>) with one backend function, the edge handler \<open>src/api/chat.js\<close>.
  The chat window (\<open>src/app/src/components/ChatWindow.tsx\<close>) posts the conversation
  to \<open>/api/chat\<close>; the handler validates the request, sends one streaming request to the
  upstream completion API with a fixed system prompt, and re-encodes the upstream's
  server-sent events as its own, simpler event stream, which the chat window reads and
  appends to the assistant's message.  The rest of the repository is presentation and
  static data: the page's sections render the site's data (projects, timeline, skills,
  profile), which the system prompt restates for the assistant.

  \<^bold>\<open>The theories.\<close>
  \<^item> \<open>Prelude\<close>: the JavaScript string built-ins the code calls (\<open>split\<close> on one
    character as \<open>split_on\<close>, \<open>join\<close>, \<open>startsWith\<close>, \<open>trim\<close>, \<open>Number.prototype.toString\<close> as
    \<open>nat_str\<close>) and the list lemmas
    the components share (how \<open>split_on\<close> distributes over \<open>@\<close>).
  \<^item> \<open>Json\<close>: JSON values as a datatype, \<open>JSON.stringify\<close> (\<open>stringify\<close>, with the
    escapes of ECMA-262), \<open>JSON.parse\<close> (\<open>json_parse\<close>, a recursive-descent parser with
    fuel), property reads and truthiness.  These are built-ins, modelled from the
    standards so that the code's definitions can call them.  Main results: the round trip
    \<open>json_roundtrip\<close> for every well-formed value, with the fuel bound
    \<open>size_stringify\<close> showing that \<open>json_parse\<close>'s fuel \<open>2 * length s + 1\<close> always
    suffices for printed values; printed values contain no line feed
    (\<open>stringify_no_nl\<close>), which keeps every frame on one line.  Every value
    \<open>json_parse\<close> returns is well formed (\<open>json_parse_wf\<close>, from the number lexemes'
    \<open>parse_number_lexeme\<close>), every parse consumes input (\<open>parse_shorter\<close>), and more fuel
    than \<open>2 * length s\<close> never changes a parse (\<open>parse_fuel\<close>, \<open>json_parse_fuel\<close>):
    the fuel is never what makes \<open>JSON.parse\<close> fail.
  \<^item> \<open>Relay\<close>: the stream transformer of \<open>chat.js\<close> (lines 155--195).  State:
    \<open>relay_state\<close> (the carry-over \<open>buffer\<close> and the frames \<open>written\<close>); one read is
    \<open>relay_chunk\<close>, the loop \<open>relay_reads\<close>, the function with its \<open>try/finally\<close>
    \<open>relay_stream\<close>; one line is \<open>process_line\<close> and the body of its \<open>try\<close> is
    \<open>handle_parsed\<close>; frames are \<open>relay_event\<close>s, put on the wire by \<open>encode_event\<close>.
    The upstream's framing of its typed events is \<open>sse_frame\<close> and the abstract contract
    of the transformer is \<open>relay_spec\<close>.  Results: after any reads the relay has processed
    exactly the complete lines received and holds back the text after the last line feed
    (\<open>relay_processes_complete_lines\<close>); the loop computes a function of the concatenated input
    (\<open>relay_reads_batch\<close>), so chunk boundaries never matter
    (\<open>relay_chunking_irrelevant\<close>); on any chunking of an upstream event stream the
    output is exactly \<open>relay_spec\<close> of the events (\<open>relay_refines_spec\<close>), hence content
    is preserved in order (\<open>relay_preserves_content\<close>) and a stream with one
    \<open>message_stop\<close> at its end yields exactly one terminal frame, last
    (\<open>relay_one_done_last\<close>); malformed and \<open>[DONE]\<close> lines are skipped without
    disturbing the others (\<open>relay_skips_line\<close>); a read error after the first bytes is
    invisible in the output (\<open>relay_error_invisible\<close>).  A browser that disconnects
    is a writer that accepts the first \<open>cap\<close> frames and rejects the rest
    (\<open>write_frame\<close>, \<open>relay_stream_w\<close>): the client gets the prefix of a connected run,
    the upstream is still read to its end, and the final close rejects unhandled
    (\<open>relay_disconnect_drains\<close>).
  \<^item> \<open>Prompt\<close>: the system prompt literal (\<open>chat.js\<close> lines 1--88), as its lines
    \<open>prompt_lines\<close> joined by line feeds.
  \<^item> \<open>Handler\<close>: the request handler (\<open>chat.js\<close> lines 94--210), split at its one
    network call into \<open>chat_front\<close> (method, credential, body, \<open>messages\<close>, the
    projection \<open>anthropic_messages\<close>, the request \<open>upstream_request\<close>) and
    \<open>chat_back\<close> (error reply with \<open>upstream_error_message\<close>, streaming reply, the
    \<open>catch\<close>); \<open>chat_handler\<close> composes them over an upstream given as a function and
    returns the upstream requests it made.  Results: one theorem per error path (405, 500,
    400, uncaught exception, 502 with the extracted message), the forwarding theorem
    (\<open>handler_forwards\<close>), the set of statuses the handler can answer with, and that
    the body of every upstream request is JSON the upstream reads back as the value built
    (\<open>chat_front_body_wf\<close>).
  \<^item> \<open>Client\<close>: the chat window (\<open>components/ChatWindow.tsx\<close>, and \<open>App.tsx\<close>,
    which mounts it).  State: \<open>chat_state\<close> (\<open>messages\<close>, \<open>input\<close>, \<open>isLoading\<close>);
    \<open>sendMessage\<close> is split at its \<open>await fetch\<close> into \<open>send_start\<close> and
    \<open>send_finish\<close>; its stream reader is \<open>read_line\<close>, \<open>read_chunk\<close>, \<open>read_all\<close>;
    the window's events are \<open>ui_event\<close> and its step function \<open>chat_event\<close>, over a
    \<open>session\<close> that also holds the placeholder id of a pending \<open>sendMessage\<close>;
    \<open>reachable\<close> is the inductive set of sessions from a fresh window.  Results: the
    invariant of reachable sessions (\<open>chat_invariant\<close>); every posted body is a
    well-formed conversation without the welcome (\<open>requests_well_formed\<close>); at most one
    request in flight (\<open>one_request_in_flight\<close>); the read loop refines one update with
    the reference text \<open>shown_text\<close> (\<open>send_finish_shown\<close>); whole-frame reads show
    exactly the frames' text (\<open>window_shows_frames\<close>); a frame split across two reads is
    lost (\<open>window_loses_split_frame\<close>); and the window never gets stuck: whatever a
    pending request settles with, a typed message can be sent next
    (\<open>window_can_send_again\<close>, over the event sequences \<open>chat_run\<close>).  What the window
    renders is a list of bubbles (\<open>message_bubble\<close>, \<open>chat_bubbles\<close>); the window in the
    middle of its read loop is \<open>streaming_view\<close> (after any data lines, before the loop
    ends); the typing dots show in no bubble with no request in flight, and while one is they
    show in the placeholder until the streamed text is non-empty and nowhere after
    (\<open>typing_dots_pending\<close>, from the invariant \<open>typing_ok\<close>).
  \<^item> \<open>App\<close>: the application shell (\<open>App.tsx\<close>: the 100 ms fade-in timer, the
    \<open>isChatOpen\<close> flag that mounts and unmounts the chat window) and the About section's
    3D model (\<open>components/Spline3DModel.tsx\<close>: mobile detection on mount and resize, the
    1500 ms deferred load, the \<open>Suspense\<close> around the lazy \<open>Spline\<close> component, the click that
    opens the chat).  State: \<open>app_state\<close> with an
    explicit millisecond clock; timers are deadlines; the arrival of the scene's chunk is the event
    \<open>Spline_arrives\<close>, possible once the chunk has been requested; \<open>app_step\<close> routes events to the
    chat window's \<open>chat_event\<close> while it is open; \<open>app_reachable\<close> is the inductive
    set of reachable states and \<open>app_inv\<close> its invariant.  Results: the application posts
    only the window's conversations, and only while it is open
    (\<open>app_posts_conversations\<close>); on a desktop width the 3D model requests its scene within
    1500 ms, shows the loading fallback until the chunk arrives and the scene once it has
    (\<open>scene_requested_within_1500\<close>); the page is shown exactly from 100 ms on
    (\<open>page_fades_in_at_100\<close>).
  \<^item> \<open>Site\<close>: the site's data (\<open>data/projects.ts\<close>, \<open>data/timeline.ts\<close>,
    \<open>config/site.ts\<close>) as records, the skill categories, logo lists, navigation and
    footer links, and what the project, timeline and skill cards show and where.  Results:
    the system prompt agrees with the rendered data (\<open>prompt_skills_agree\<close>,
    \<open>prompt_projects_agree\<close>, \<open>prompt_timeline_agree\<close>, \<open>prompt_profile_agree\<close>);
    the header's and the content's in-page links resolve (\<open>nav_links_resolve\<close>); React
    keys are distinct
    (\<open>react_keys_distinct\<close>); animation indices are distinct (\<open>skill_indices_distinct\<close>);
    the orbit's angles spread evenly (\<open>orbit_spread\<close>); the timeline alternates columns
    (\<open>timeline_layout\<close>).
  \<^item> \<open>Pages\<close>: every anchor the page renders (\<open>page_anchors\<close>, gathered from the header,
    the mobile menu, the hero, the About section, the project cards and the footer) with its
    attributes and the effect of a click (\<open>anchor_effect\<close>); the mobile menu's sheet
    (\<open>sheet_step\<close>); \<open>FadeInView\<close>'s entrance (\<open>fade_step\<close>); the rotation of the
    orbit over time (\<open>ring_rotation\<close>, \<open>logo_spin\<close>); \<open>VerticalLogoGrid\<close>
    (\<open>grid_items\<close>); the hero's layout; the footer's floating symbols; and framer-motion's
    \<open>useTransform\<close> behind the header's background and \<open>ClaySculpture\<close>'s parallax.
    Results: every anchor does what it should (\<open>page_anchors_ok\<close>); the orbit stays even
    and upright at every moment (\<open>orbit_in_motion\<close>); the floating symbols never share a
    row or a column (\<open>symbols_spread\<close>, by coprimality); the grids mirror each other and
    enter in order; the scroll-linked values stay in their ranges; the mission statement's
    animated words spell the sentence (\<open>mission_words_spell\<close>); the About section shows
    the configuration's facts and a CV download (\<open>about_agrees\<close>).
  \<^item> \<open>Layout\<close>: what the page shows at a viewport width.  The components choose
    between layouts with Tailwind's responsive display utilities; \<open>shown_at\<close> resolves
    a list of them at the default breakpoints (\<open>sm\<close> 640, \<open>md\<close> 768, \<open>lg\<close> 1024,
    \<open>xl\<close> 1280 px; the repository carries no configuration that changes them) for the
    header (\<open>header_at\<close>, with \<open>MobileMenu\<close>'s button), the hero (\<open>hero_at\<close>,
    \<open>hero_logos_at\<close>) and the timeline's rows (\<open>row_cards_at\<close>); the timeline's line and
    dots on narrow screens (\<open>line_centre\<close>, \<open>entry_dot_centre\<close>, \<open>end_dot_centre\<close>);
    the 3D model's screens (\<open>spline_screen\<close>: \<open>LoadingFallback\<close>, \<open>MobileFallback\<close>,
    the scene and the hover hint) and where a click opens the chat
    (\<open>spline_click_opens\<close>); \<open>ClaySculpture\<close>'s render, the parallax plus the
    keyframe bob (\<open>clay_float\<close>, \<open>clay_y\<close>).  Results: the components agree at every
    width on what a narrow screen is, also the 3D model that decides by script
    (\<open>layout_breakpoints_agree\<close>); the end dot is one pixel off the line
    (\<open>end_dot_off_line\<close>); the desktop container's 400 px minimum height never applies
    (\<open>spline_min_height\<close>); every screen of the model invites to chat
    (\<open>spline_invites_chat\<close>); the sculpture stays within its range and loops without a
    jump (\<open>clay_y_range\<close>, \<open>clay_float_loops\<close>).  Lazy loading (\<open>App.tsx\<close>
    lines 6--19, 55--76): \<open>main_view\<close> and \<open>ids_at\<close> as the sections' chunks arrive;
    chunks only replace a spinner by its section (\<open>main_view_grows\<close>) and an in-page
    link's target exists exactly when its section's chunk has arrived
    (\<open>ids_wait_for_chunks\<close>).
  \<^item> \<open>Motion\<close>: keyframe animations (\<open>key_at\<close>, linear between keyframes) and the
    footer's animated background (\<open>Footer.tsx\<close>): the aurora blobs of its inline style
    sheet (\<open>aurora_blobs\<close>, \<open>aurora_float\<close>, \<open>blob_transform\<close>, the animation
    replacing the rule's own transform as the CSS cascade has it) and the floating symbols'
    keyframes (\<open>symbol_y\<close>, \<open>symbol_opacity\<close>).  Results: every keyframe animation
    stays between its extreme keyframes (\<open>key_at_between\<close>), hence the ranges of the
    blobs, symbols and the clay sculpture; the third blob is never centred on its anchor
    (\<open>blob3_off_centre\<close>).  The mission statement's words over time
    (\<open>mission_at\<close>): they read in order at every moment (\<open>mission_reads_in_order\<close>),
    nothing shows before 0.1 s and the sentence is in place by 0.99 s
    (\<open>mission_hidden_first\<close>, \<open>mission_settled\<close>).
  \<^item> \<open>Skills\<close>: what \<open>SkillsShowcaseSection.tsx\<close> renders: a \<open>SkillCard\<close> per skill
    (\<open>skill_card\<close>: badge, name, entrance and bob delays), the category blocks
    (\<open>skills_section\<close>), the heading, the grid's columns at a width (\<open>skill_columns\<close>,
    through \<open>Layout.class_at\<close>).  Results: the section renders exactly
    \<open>Site.skill_cards\<close> in order (\<open>skills_section_cards\<close>); every card shows a logo
    named by its skill; the banner's figures read as lower bounds hold for the skills and
    years but not for the projects (\<open>stats_banner_check\<close>).  The theory also holds the
    showcase's skill blocks (\<open>ProjectShowcase.tsx\<close>: heading, technology strip,
    project card delays, \<open>#skills\<close> panel): the strip and the Skills section use the
    same file for each shared technology and the strip adds four
    (\<open>tech_strip_vs_skills\<close>).
  \<^item> \<open>Sections\<close>: the hero's laptop (its width at each breakpoint, its bob) and bottom
    row, the orbit's props and sizes, and the timeline's heading, legend and dot colours.  Results: the laptop is
    narrower than the orbit at every width (\<open>laptop_fits_orbit\<close>); the legend explains
    every dot of the site's timeline but would not explain a certification
    (\<open>legend_covers_data\<close>).  Also \<open>OrbitingLogos\<close>' props, ring and logo sizes: the
    ring is centred in the orbit box; the default logos stay inside it, the hero's reach past
    it from \<open>md\<close> on (\<open>orbit_logos_in_box\<close>).
  \<^item> \<open>Svg\<close>: the code icon (\<open>Header.tsx\<close> lines 16--44 and 93--122,
    \<open>MobileMenu.tsx\<close> lines 80--111) as its
    path data, read with the \<open>M\<close>/\<open>L\<close> part of the SVG path grammar (\<open>path_cmds\<close>, a
    terminating recursive reader) into the segments it draws.  Results: printing and reading
    path data is a round trip (\<open>path_roundtrip\<close>); the three copies of the icon draw the same
    five segments, unchanged by a half turn about the view box's centre and a stroke width
    away from its edges (\<open>code_icon_centred\<close>).
  \<^item> This theory: what the browser receives from the handler (\<open>served\<close>) and the
    properties that span the window, the handler, the relay and the JSON layer: the whole
    round trip of a message (\<open>chat_end_to_end\<close>, \<open>handler_end_to_end\<close>) and the error
    texts that reach the user (\<open>errors_reach_user\<close>).

  \<^bold>\<open>Modelling choices.\<close>  Text is \<open>string\<close>; a \<open>char\<close> stands for a UTF-16 code unit
  below 256, and the \<open>TextDecoder\<close> is the identity on that alphabet, so a chunk of the
  model is the decoded text of one read.  JSON numbers keep their lexeme.  A JavaScript
  exception that the code catches is a branch of the model; one that escapes the handler is
  the result \<open>Throws\<close>, which the platform answers with a non-JSON 500 page.  The writer of
  the \<open>TransformStream\<close> accepts every write, except in \<open>relay_stream_w\<close>, where a
  disconnect after any number of frames is the parameter \<open>cap\<close>.  Message ids are the numbers behind
  \<open>Date.now().toString()\<close>, which is positive (\<open>clock_ok\<close>); \<open>sendMessage\<close> reads the
  clock twice (lines 41 and 52), and the model takes both ids from one reading
  (\<open>now\<close>, \<open>now + 1\<close>), i.e. no millisecond passes between the two reads.  React re-renders between
  two discrete events, so an event handler sees the state the previous event left; while a
  request is pending every control of the window is disabled, so the rest of
  \<open>sendMessage\<close> runs as one step (\<open>Fetch_settles\<close>); closing the window unmounts it
  and a reply for an unmounted window changes nothing.  Orbit angles are rationals in
  degrees; a repeating linear animation is at the fraction \<open>t / d - floor (t / d)\<close> of
  its cycle at time \<open>t\<close>, and a block's entrance on scroll is a flag set by the first
  viewport event that reports it visible.  Fuel: \<open>json_parse\<close> gives the parser \<open>2 * length s + 1\<close> units; every chain
  of calls consumes at least one character per two units, and for printed values
  \<open>size_stringify\<close> proves the bound; for every input, \<open>parse_fuel\<close> shows that more
  fuel never changes the result, because every call either consumes input or is one of at
  most two calls per character.  The shell's timers are deadlines on an explicit clock:
  \<open>Elapse d\<close> advances it and fires every timer that has come due.

  \<^bold>\<open>Not modelled.\<close>  Styling (colours, spacing, shadows) and easing curves: a keyframe
  animation moves linearly between its keyframes in the model, which keeps the range it
  covers; the Spline scene inside
  \<open>Spline3DModel\<close>; the cosine and sine that turn an orbit angle into pixels; the static
  prose of the section headers (Skills, Projects, Timeline), the footer's grid lines and
  noise texture, and the blobs' gradients and blur: rendering with no state and no data the
  rest depends on.  The \<open>bio\<close> of
  \<open>config/site.ts\<close>, which holds a code unit above 255.  A 2xx upstream reply without a body (204, 205): \<open>getReader()\<close> on line 161
  would throw outside the \<open>try\<close>, and the model treats it as an empty stream.  The network and the platform's
  scheduling of the handler.

  \<^bold>\<open>Plan.\<close>  Next: the relay's frames compose with the window for any upstream
  stream (not only for whole-frame reads); the layout of the remaining sections at a width
  (section headers, the footer's columns).\<close>

subsection \<open>What the browser receives\<close>

text \<open>The reply the chat window's \<open>fetch\<close> settles with when the handler answers: a JSON
  body arrives in one read and a stream one frame per read, as the relay writes them.  A
  handler that throws gets the platform's own 500 page, which is not JSON.\<close>

definition served :: "handler_result \<Rightarrow> upstream_reply" where
  "served r =
     (case r of
        Respond resp \<Rightarrow>
          Reply (status resp)
            (case resp_body resp of Json_body j \<Rightarrow> [stringify j] | Stream_body out \<Rightarrow> map encode_event (events out))
            End_ok
      | Throws e \<Rightarrow> Reply 500 [] End_ok)"

subsection \<open>A conversation from the chat window reaches the upstream and streams back\<close>

lemma front_client_body:
  "k \<noteq> [] \<Longrightarrow> chat_front (Some k) \<lparr>req_method = ''POST'', body = client_body turns\<rparr>
     = Call (upstream_request k (map (\<lambda>(r, c). JObj [(''role'', JStr r), (''content'', JStr c)]) turns))"
proof -
  assume k: "k \<noteq> []"
  let ?ms = "map (\<lambda>(r, c). JObj [(''role'', JStr r), (''content'', JStr c)]) turns"
  have wf: "wf_json (JObj [(''messages'', JArr ?ms)])" by (simp add: list_all_iff split_def)
  have parse: "json_parse (client_body turns) = Some (JObj [(''messages'', JArr ?ms)])"
    unfolding client_body_def using wf by (rule json_parse_stringify)
  show ?thesis using k parse anthropic_messages_turns [of turns]
    by (simp add: chat_front_def js_get_def del: stringify.simps)
qed

lemma handler_streams:
  assumes "key = Some k" "k \<noteq> []" "list_all event_ok es" "concat chunks = concat (map sse_frame es)"
    "200 \<le> st" "st \<le> 299"
  shows "\<exists>out. chat_handler key \<lparr>req_method = ''POST'', body = client_body turns\<rparr> (\<lambda>q. Reply st chunks fin)
           = (Respond \<lparr>status = 200, headers = sse_headers, resp_body = Stream_body out\<rparr>,
              [upstream_request k (map (\<lambda>(r, c). JObj [(''role'', JStr r), (''content'', JStr c)]) turns)])
         \<and> events out = concat (map relay_spec es)"
proof -
  have front: "chat_front key \<lparr>req_method = ''POST'', body = client_body turns\<rparr>
      = Call (upstream_request k (map (\<lambda>(r, c). JObj [(''role'', JStr r), (''content'', JStr c)]) turns))"
    using assms(1,2) front_client_body by simp
  have "events (relay_stream chunks fin) = concat (map relay_spec es)"
    using relay_stream_sse [OF assms(3,4)] by simp
  with front assms(5,6) show ?thesis by (simp add: chat_handler_def chat_back_def)
qed

text \<open>C3: For a body built by the chat window and an upstream that answers with a success status and an event stream, the handler makes exactly one upstream request, which carries the system prompt and exactly the conversation's turns, and streams back with status 200 and the event-stream headers exactly the frames the relay's contract prescribes.\<close>

theorem handler_end_to_end:
  assumes "key = Some k" "k \<noteq> []" "list_all event_ok es" "concat chunks = concat (map sse_frame es)"
    "200 \<le> st" "st \<le> 299"
  shows "\<exists>out. chat_handler key \<lparr>req_method = ''POST'', body = client_body turns\<rparr> (\<lambda>q. Reply st chunks fin)
           = (Respond \<lparr>status = 200, headers = sse_headers, resp_body = Stream_body out\<rparr>,
              [upstream_request k (map (\<lambda>(r, c). JObj [(''role'', JStr r), (''content'', JStr c)]) turns)])
         \<and> events out = concat (map relay_spec es)"
  using assms by (rule handler_streams)

theorem handler_end_to_end_witness:
  "\<exists>out. chat_handler (Some ''sk'') \<lparr>req_method = ''POST'', body = client_body [(''user'', ''What projects has he built?'')]\<rparr>
          (\<lambda>q. Reply 200 [concat (map sse_frame [Text_delta ''VotePoll'', Text_delta '' and AgencyBooking.'', Message_stop])] End_ok)
        = (Respond \<lparr>status = 200, headers = sse_headers, resp_body = Stream_body out\<rparr>,
           [upstream_request ''sk'' [JObj [(''role'', JStr ''user''), (''content'', JStr ''What projects has he built?'')]]])
      \<and> events out = [Content (JStr ''VotePoll''), Content (JStr '' and AgencyBooking.''), Done]"
proof -
  let ?es = "[Text_delta ''VotePoll'', Text_delta '' and AgencyBooking.'', Message_stop]"
  have ok: "list_all event_ok ?es" by (simp add: event_ok_def)
  have cs: "concat [concat (map sse_frame ?es)] = concat (map sse_frame ?es)" by simp
  from handler_end_to_end [where key = "Some ''sk''" and k = "''sk''" and es = ?es
      and chunks = "[concat (map sse_frame ?es)]" and st = 200 and fin = End_ok
      and turns = "[(''user'', ''What projects has he built?'')]"] ok cs
  show ?thesis by simp
qed

subsection \<open>From the chat window to the relay and back\<close>

lemma relay_spec_wf: "list_all event_wf (concat (map relay_spec es))"
proof (induction es)
  case (Cons e es)
  then show ?case by (cases e) simp_all
qed simp

lemma ev_text_spec: "concat (map ev_text (concat (map relay_spec es))) = delta_texts es"
proof (induction es)
  case (Cons e es)
  then show ?case by (cases e) (simp_all add: delta_texts_def)
qed (simp add: delta_texts_def)

lemma settles_stream:
  assumes "inflight s = Some aid" "list_all event_wf evs" "events out = evs"
  shows "view (fst (chat_event (Fetch_settles aid (served (Respond \<lparr>status = 200, headers = h, resp_body = Stream_body out\<rparr>))) s))
       = (view s)\<lparr>messages := set_content aid (let t = concat (map ev_text evs) in if t = [] then fallback_text else t)
                                           (messages (view s)), is_loading := False\<rparr>"
proof -
  have single: "concat (map (\<lambda>x. [x]) evs) = evs" by (induction evs) simp_all
  have "stream_text (map (\<lambda>g. concat (map encode_event g)) (map (\<lambda>x. [x]) evs))
      = concat (map ev_text (concat (map (\<lambda>x. [x]) evs)))"
    using assms(2) single by (intro stream_text_frames) simp
  then have "stream_text (map encode_event evs) = concat (map ev_text evs)"
    by (simp add: comp_def single)
  with assms(1,3) show ?thesis
    by (simp add: served_def send_finish_update shown_text_def Let_def)
qed

lemma settles_json_error:
  assumes "inflight s = Some aid" "\<not> (200 \<le> c \<and> c \<le> 299)" "wf_json (JObj kvs)"
    "js_get (JObj kvs) ''error'' = Some (JStr m)" "m \<noteq> []"
  shows "view (fst (chat_event (Fetch_settles aid (served (Respond (json_response c (JObj kvs))))) s))
       = (view s)\<lparr>messages := set_content aid (sorry_text m) (messages (view s)), is_loading := False\<rparr>"
proof -
  have "server_error c (stringify (JObj kvs)) End_ok = m"
    using assms(4,5) json_parse_stringify [OF assms(3)] by (simp add: server_error_def del: stringify.simps)
  with assms(1,2) show ?thesis
    by (simp add: served_def json_response_def send_finish_update shown_text_def del: stringify.simps)
qed

lemma upstream_error_message_json:
  "m \<noteq> [] \<Longrightarrow> upstream_error_message (stringify (JObj [(''error'', JObj [(''message'', JStr m)])])) = JStr m"
  using json_parse_stringify [of "JObj [(''error'', JObj [(''message'', JStr m)])]"]
  by (simp add: upstream_error_message_def js_get_def del: stringify.simps)

lemma posted_client_body:
  assumes "reachable s" "clock_ok e" "snd (chat_event e s) = [b]"
  shows "\<exists>turns aid. b = client_body turns \<and> turns_ok turns \<and> inflight (fst (chat_event e s)) = Some aid"
proof -
  have b: "b \<in> set (snd (chat_event e s))" using assms(3) by simp
  obtain now ov v aid where "fst (chat_event e s) = \<lparr>view = v, inflight = Some aid\<rparr>"
    using chat_event_posts [OF b assms(2)] by blast
  moreover obtain ms where "b = request_body ms"
    "turns_ok (map (\<lambda>m. (role_name (role m), content m)) (filter (\<lambda>m. msg_id m \<noteq> 0) ms))"
    using posted_turns [OF assms(1,2) b] by blast
  ultimately show ?thesis by (auto simp: request_body_turns)
qed

text \<open>C2: For every message the chat window sends and an upstream that streams a reply,
  the handler forwards the window's conversation (well formed for the upstream) in exactly
  one request, and when the window's \<open>fetch\<close> settles, the placeholder shows exactly the
  text the upstream generated, or the fallback when it generated none.\<close>

theorem chat_end_to_end:
  assumes "reachable s" "clock_ok e" "snd (chat_event e s) = [b]" "k \<noteq> []"
    "list_all event_ok es" "concat chunks = concat (map sse_frame es)" "200 \<le> st" "st \<le> 299"
  shows "\<exists>turns aid. turns_ok turns \<and> inflight (fst (chat_event e s)) = Some aid
     \<and> snd (chat_handler (Some k) \<lparr>req_method = ''POST'', body = b\<rparr> (\<lambda>q. Reply st chunks fin))
         = [upstream_request k (map (\<lambda>(r, c). JObj [(''role'', JStr r), (''content'', JStr c)]) turns)]
     \<and> view (fst (chat_event (Fetch_settles aid (served (fst (chat_handler (Some k) \<lparr>req_method = ''POST'', body = b\<rparr> (\<lambda>q. Reply st chunks fin)))))
                 (fst (chat_event e s))))
       = (view (fst (chat_event e s)))\<lparr>messages := set_content aid (if delta_texts es = [] then fallback_text else delta_texts es)
                                        (messages (view (fst (chat_event e s)))), is_loading := False\<rparr>"
proof -
  obtain turns aid where t: "b = client_body turns" "turns_ok turns" "inflight (fst (chat_event e s)) = Some aid"
    using posted_client_body [OF assms(1-3)] by blast
  obtain out where out: "chat_handler (Some k) \<lparr>req_method = ''POST'', body = client_body turns\<rparr> (\<lambda>q. Reply st chunks fin)
      = (Respond \<lparr>status = 200, headers = sse_headers, resp_body = Stream_body out\<rparr>,
         [upstream_request k (map (\<lambda>(r, c). JObj [(''role'', JStr r), (''content'', JStr c)]) turns)])"
    "events out = concat (map relay_spec es)"
    using handler_streams [OF _ assms(4-8)] by blast
  have v: "view (fst (chat_event (Fetch_settles aid (served (fst (chat_handler (Some k) \<lparr>req_method = ''POST'', body = b\<rparr>
              (\<lambda>q. Reply st chunks fin)))))
              (fst (chat_event e s))))
       = (view (fst (chat_event e s)))\<lparr>messages := set_content aid (if delta_texts es = [] then fallback_text else delta_texts es)
                                        (messages (view (fst (chat_event e s)))), is_loading := False\<rparr>"
    using settles_stream [OF t(3) relay_spec_wf out(2), of sse_headers] out(1) t(1)
    by (simp add: ev_text_spec Let_def)
  show ?thesis using t(2,3) v out(1) unfolding t(1) by auto
qed

text \<open>C13: The errors the handler reports reach the user verbatim: for a message the chat
  window sends, a server without its credential, an upstream that cannot be reached, and an
  upstream error status with a message each leave the placeholder reading \<open>Sorry, something
  went wrong: \<close> followed by the handler's error text.\<close>

theorem errors_reach_user:
  assumes "reachable s" "clock_ok e" "snd (chat_event e s) = [b]" "inflight (fst (chat_event e s)) = Some aid"
  shows "view (fst (chat_event (Fetch_settles aid (served (fst (chat_handler None \<lparr>req_method = ''POST'', body = b\<rparr> up))))
                   (fst (chat_event e s))))
         = (view (fst (chat_event e s)))\<lparr>messages := set_content aid (sorry_text ''ANTHROPIC_API_KEY is not configured'')
                                         (messages (view (fst (chat_event e s)))), is_loading := False\<rparr>
       \<and> (k \<noteq> [] \<longrightarrow>
          view (fst (chat_event (Fetch_settles aid (served (fst (chat_handler (Some k) \<lparr>req_method = ''POST'', body = b\<rparr>
                                                                  (\<lambda>q. Fetch_rejected d)))))
                   (fst (chat_event e s))))
         = (view (fst (chat_event e s)))\<lparr>messages := set_content aid (sorry_text ''Cannot connect to Anthropic API'')
                                         (messages (view (fst (chat_event e s)))), is_loading := False\<rparr>)
       \<and> (k \<noteq> [] \<longrightarrow> m \<noteq> [] \<longrightarrow> \<not> (200 \<le> c \<and> c \<le> 299) \<longrightarrow>
          view (fst (chat_event (Fetch_settles aid (served (fst (chat_handler (Some k) \<lparr>req_method = ''POST'', body = b\<rparr>
                   (\<lambda>q. Reply c [stringify (JObj [(''error'', JObj [(''message'', JStr m)])])] End_ok)))))
                   (fst (chat_event e s))))
         = (view (fst (chat_event e s)))\<lparr>messages := set_content aid (sorry_text m)
                                         (messages (view (fst (chat_event e s)))), is_loading := False\<rparr>)"
proof -
  obtain turns where b: "b = client_body turns"
    using posted_client_body [OF assms(1-3)] by blast
  let ?s = "fst (chat_event e s)"
  have wf2: "wf_json (JObj [(''error'', JStr x), (''detail'', JStr y)])" for x y by simp
  have get2: "js_get (JObj [(''error'', JStr x), (''detail'', JStr y)]) ''error'' = Some (JStr x)" for x y
    by (simp add: js_get_def)
  have "fst (chat_handler None \<lparr>req_method = ''POST'', body = b\<rparr> up)
      = Respond (json_response 500 (JObj [(''error'', JStr ''ANTHROPIC_API_KEY is not configured'')]))"
    by (simp add: chat_handler_def chat_front_def error_json_def)
  moreover have "js_get (JObj [(''error'', JStr ''ANTHROPIC_API_KEY is not configured'')]) ''error''
      = Some (JStr ''ANTHROPIC_API_KEY is not configured'')" by (simp add: js_get_def)
  ultimately have 1: "view (fst (chat_event (Fetch_settles aid (served (fst (chat_handler None \<lparr>req_method = ''POST'', body = b\<rparr> up)))) ?s))
      = (view ?s)\<lparr>messages := set_content aid (sorry_text ''ANTHROPIC_API_KEY is not configured'') (messages (view ?s)), is_loading := False\<rparr>"
    using settles_json_error [OF assms(4), of 500] by simp
  have 2: "view (fst (chat_event (Fetch_settles aid (served (fst (chat_handler (Some k) \<lparr>req_method = ''POST'', body = b\<rparr>
                (\<lambda>q. Fetch_rejected d))))) ?s))
      = (view ?s)\<lparr>messages := set_content aid (sorry_text ''Cannot connect to Anthropic API'') (messages (view ?s)), is_loading := False\<rparr>"
    if k: "k \<noteq> []"
  proof -
    have "fst (chat_handler (Some k) \<lparr>req_method = ''POST'', body = b\<rparr> (\<lambda>q. Fetch_rejected d))
        = Respond (json_response 502 (JObj [(''error'', JStr ''Cannot connect to Anthropic API''), (''detail'', JStr d)]))"
      using front_client_body [OF k, of turns] by (simp add: b chat_handler_def chat_back_def connect_error_def)
    then show ?thesis using settles_json_error [OF assms(4) _ wf2 get2, of 502] by simp
  qed
  have 3: "view (fst (chat_event (Fetch_settles aid (served (fst (chat_handler (Some k) \<lparr>req_method = ''POST'', body = b\<rparr>
                (\<lambda>q. Reply c [stringify (JObj [(''error'', JObj [(''message'', JStr m)])])] End_ok))))) ?s))
      = (view ?s)\<lparr>messages := set_content aid (sorry_text m) (messages (view ?s)), is_loading := False\<rparr>"
    if k: "k \<noteq> []" and m: "m \<noteq> []" and c: "\<not> (200 \<le> c \<and> c \<le> 299)"
  proof -
    let ?body = "stringify (JObj [(''error'', JObj [(''message'', JStr m)])])"
    have "fst (chat_handler (Some k) \<lparr>req_method = ''POST'', body = b\<rparr> (\<lambda>q. Reply c [?body] End_ok))
        = Respond (json_response 502 (JObj [(''error'', JStr m), (''detail'', JStr ?body)]))"
      using front_client_body [OF k, of turns] upstream_error_message_json [OF m]
      by (simp add: b chat_handler_def chat_back_def if_not_P [OF c] del: stringify.simps)
    then show ?thesis using settles_json_error [OF assms(4) _ wf2 get2 m, of 502] by (simp del: stringify.simps)
  qed
  from 1 2 3 show ?thesis by blast
qed

theorem chat_end_to_end_witness:
  "\<exists>turns aid. turns_ok turns \<and> inflight (fst (chat_event (Click_suggestion 1000 0) session_init)) = Some aid
     \<and> snd (chat_handler (Some ''sk'') \<lparr>req_method = ''POST'', body = request_body [welcome_message, \<lparr>msg_id = 1000, role = User, content = ''What projects has Mouad built?''\<rparr>]\<rparr>
              (\<lambda>q. Reply 200 [concat (map sse_frame [Text_delta ''VotePoll'', Message_stop])] End_ok))
         = [upstream_request ''sk'' (map (\<lambda>(r, c). JObj [(''role'', JStr r), (''content'', JStr c)]) turns)]
     \<and> view (fst (chat_event (Fetch_settles aid (served (fst (chat_handler (Some ''sk'') \<lparr>req_method = ''POST'', body = request_body [welcome_message, \<lparr>msg_id = 1000, role = User, content = ''What projects has Mouad built?''\<rparr>]\<rparr>
              (\<lambda>q. Reply 200 [concat (map sse_frame [Text_delta ''VotePoll'', Message_stop])] End_ok)))))
                 (fst (chat_event (Click_suggestion 1000 0) session_init))))
       = (view (fst (chat_event (Click_suggestion 1000 0) session_init)))\<lparr>messages := set_content aid (if delta_texts [Text_delta ''VotePoll'', Message_stop] = [] then fallback_text
                                                  else delta_texts [Text_delta ''VotePoll'', Message_stop])
                                        (messages (view (fst (chat_event (Click_suggestion 1000 0) session_init)))), is_loading := False\<rparr>"
proof (rule chat_end_to_end [OF reachable.init])
  show "snd (chat_event (Click_suggestion 1000 0) session_init) = [request_body [welcome_message, \<lparr>msg_id = 1000, role = User, content = ''What projects has Mouad built?''\<rparr>]]"
    by (simp add: suggestion_session del: chat_event.simps)
  show "list_all event_ok [Text_delta ''VotePoll'', Message_stop]" by (simp add: event_ok_def)
qed simp_all

theorem errors_reach_user_witness:
  "view (fst (chat_event (Fetch_settles 1001 (served (fst (chat_handler None \<lparr>req_method = ''POST'', body = request_body [welcome_message, \<lparr>msg_id = 1000, role = User, content = ''What projects has Mouad built?''\<rparr>]\<rparr>
                 (\<lambda>q. Fetch_rejected ''unused''))))) (fst (chat_event (Click_suggestion 1000 0) session_init))))
     = (view (fst (chat_event (Click_suggestion 1000 0) session_init)))\<lparr>messages := set_content 1001 (sorry_text ''ANTHROPIC_API_KEY is not configured'') (messages (view (fst (chat_event (Click_suggestion 1000 0) session_init)))),
                 is_loading := False\<rparr>
   \<and> view (fst (chat_event (Fetch_settles 1001 (served (fst (chat_handler (Some ''sk'') \<lparr>req_method = ''POST'', body = request_body [welcome_message, \<lparr>msg_id = 1000, role = User, content = ''What projects has Mouad built?''\<rparr>]\<rparr>
                 (\<lambda>q. Fetch_rejected ''offline''))))) (fst (chat_event (Click_suggestion 1000 0) session_init))))
      = (view (fst (chat_event (Click_suggestion 1000 0) session_init)))\<lparr>messages := set_content 1001 (sorry_text ''Cannot connect to Anthropic API'') (messages (view (fst (chat_event (Click_suggestion 1000 0) session_init)))),
                  is_loading := False\<rparr>
   \<and> view (fst (chat_event (Fetch_settles 1001 (served (fst (chat_handler (Some ''sk'') \<lparr>req_method = ''POST'', body = request_body [welcome_message, \<lparr>msg_id = 1000, role = User, content = ''What projects has Mouad built?''\<rparr>]\<rparr>
                 (\<lambda>q. Reply 529 [stringify (JObj [(''error'', JObj [(''message'', JStr ''Overloaded'')])])] End_ok))))) (fst (chat_event (Click_suggestion 1000 0) session_init))))
      = (view (fst (chat_event (Click_suggestion 1000 0) session_init)))\<lparr>messages := set_content 1001 (sorry_text ''Overloaded'') (messages (view (fst (chat_event (Click_suggestion 1000 0) session_init)))), is_loading := False\<rparr>"
proof -
  have b: "snd (chat_event (Click_suggestion 1000 0) session_init) = [request_body [welcome_message, \<lparr>msg_id = 1000, role = User, content = ''What projects has Mouad built?''\<rparr>]]"
    by (simp add: suggestion_session del: chat_event.simps)
  have i: "inflight (fst (chat_event (Click_suggestion 1000 0) session_init)) = Some 1001"
    by (simp add: suggestion_session del: chat_event.simps)
  have c: "clock_ok (Click_suggestion 1000 0)" by simp
  from errors_reach_user [OF reachable.init c b i, where k = "''sk''" and d = "''offline''" and m = "''Overloaded''"
      and c = 529 and up = "\<lambda>q. Fetch_rejected ''unused''"]
  show ?thesis by (simp del: chat_event.simps stringify.simps)
qed

end
